(* ===== verification/Prelude.thy ===== *)
theory Prelude
  imports Main "HOL-Library.List_Lexorder" "HOL-Library.Sublist"
begin

text \<open>
  What every component of the development shares: the exceptions a Python call can raise and the
  result type that carries them, Python strings as lists of code points and byte strings as lists of
  byte values, decimal and hexadecimal printing, and the append-only list of failure codes of an
  \<open>Outcome\<close> with the locale of the passes that extend it.
\<close>

section \<open>Exceptions as values\<close>

text \<open>
  One constructor per exception class the modelled code raises, catches or lets escape. Python's
  class hierarchy matters where an \<open>except\<close> clause names a base class: \<open>JcsError\<close>,
  \<open>IJsonError\<close>, \<open>StringNotScalarError\<close>, \<open>binascii.Error\<close> and both Unicode errors are
  \<open>ValueError\<close>s, \<open>decimal.InvalidOperation\<close> is an \<open>ArithmeticError\<close> and is not one.
  \<open>Refusal\<close> is the exception a corpus reader raises with the reason code of a rule.
\<close>

datatype exn =
    TypeError | KeyError | IndexError | AttributeError | ValueError | RecursionError
  | JcsError | UnicodeEncodeError | UnicodeDecodeError | BinasciiError
  | StringNotScalarError | IJsonError string | DecimalInvalidOperation | SystemExit | OSError | Refusal string

fun is_value_error :: "exn \<Rightarrow> bool" where
  "is_value_error ValueError = True"
| "is_value_error JcsError = True"
| "is_value_error UnicodeEncodeError = True"
| "is_value_error UnicodeDecodeError = True"
| "is_value_error BinasciiError = True"
| "is_value_error StringNotScalarError = True"
| "is_value_error (IJsonError c) = True"
| "is_value_error _ = False"

fun is_ijson_error :: "exn \<Rightarrow> bool" where
  "is_ijson_error (IJsonError c) = True"
| "is_ijson_error _ = False"

text \<open>\<open>except (KeyError, IndexError, TypeError)\<close>.\<close>

fun is_lookup_error :: "exn \<Rightarrow> bool" where
  "is_lookup_error KeyError = True"
| "is_lookup_error IndexError = True"
| "is_lookup_error TypeError = True"
| "is_lookup_error _ = False"

type_synonym 'a res = "exn + 'a"

named_theorems res_iff \<open>when a sequenced computation returns\<close>

definition bindr :: "'a res \<Rightarrow> ('a \<Rightarrow> 'b res) \<Rightarrow> 'b res" where
  "bindr m f = (case m of Inl e \<Rightarrow> Inl e | Inr x \<Rightarrow> f x)"

lemma bindr_simps [simp]:
  "bindr (Inl e) f = Inl e"
  "bindr (Inr x) f = f x"
  by (simp_all add: bindr_def)

lemma bindr_Inr_iff [res_iff]: "bindr m f = Inr y \<longleftrightarrow> (\<exists>x. m = Inr x \<and> f x = Inr y)"
  by (cases m) auto

lemma bindr_Inl_iff: "bindr m f = Inl e \<longleftrightarrow> m = Inl e \<or> (\<exists>x. m = Inr x \<and> f x = Inl e)"
  by (cases m) auto

lemma bindr_assoc: "bindr (bindr m f) g = bindr m (\<lambda>x. bindr (f x) g)"
  by (cases m) auto

text \<open>\<open>try: m except <p>: h\<close>: an exception the clause names is handled, any other passes.\<close>

definition exceptr :: "'a res \<Rightarrow> (exn \<Rightarrow> bool) \<Rightarrow> 'a res \<Rightarrow> 'a res" where
  "exceptr m p h = (case m of Inl e \<Rightarrow> (if p e then h else Inl e) | Inr x \<Rightarrow> Inr x)"

lemma exceptr_simps [simp]:
  "exceptr (Inr x) p h = Inr x"
  "exceptr (Inl e) p h = (if p e then h else Inl e)"
  by (simp_all add: exceptr_def)

lemma exceptr_Inr_iff [res_iff]:
  "exceptr m p h = Inr y \<longleftrightarrow> m = Inr y \<or> (\<exists>e. m = Inl e \<and> p e \<and> h = Inr y)"
  by (cases m) auto

text \<open>Python evaluates a comprehension's elements from left to right; the first exception wins.\<close>

fun mapr :: "('a \<Rightarrow> 'b res) \<Rightarrow> 'a list \<Rightarrow> 'b list res" where
  "mapr f [] = Inr []"
| "mapr f (x # xs) = bindr (f x) (\<lambda>y. bindr (mapr f xs) (\<lambda>ys. Inr (y # ys)))"

lemma mapr_cong [fundef_cong]:
  "xs = ys \<Longrightarrow> (\<And>x. x \<in> set ys \<Longrightarrow> f x = g x) \<Longrightarrow> mapr f xs = mapr g ys"
  by (induction ys arbitrary: xs) auto

lemma mapr_total: "(\<And>x. x \<in> set xs \<Longrightarrow> f x = Inr (g x)) \<Longrightarrow> mapr f xs = Inr (map g xs)"
  by (induction xs) auto

lemma mapr_Inr_iff [res_iff]:
  "mapr f xs = Inr ys \<longleftrightarrow> length ys = length xs \<and> list_all2 (\<lambda>x y. f x = Inr y) xs ys"
  by (induction xs arbitrary: ys) (auto simp: bindr_Inr_iff list_all2_Cons1 dest: list_all2_lengthD)

text \<open>\<open>any\<close> and \<open>all\<close> stop at the first element that decides them, so an exception behind it
  is not raised.\<close>

fun anyr :: "('a \<Rightarrow> bool res) \<Rightarrow> 'a list \<Rightarrow> bool res" where
  "anyr p [] = Inr False"
| "anyr p (x # xs) = bindr (p x) (\<lambda>b. if b then Inr True else anyr p xs)"

fun filterr :: "('a \<Rightarrow> bool res) \<Rightarrow> 'a list \<Rightarrow> 'a list res" where
  "filterr p [] = Inr []"
| "filterr p (x # xs) =
     bindr (p x) (\<lambda>b. bindr (filterr p xs) (\<lambda>ys. Inr (if b then x # ys else ys)))"

lemma anyr_True: "anyr p xs = Inr True \<Longrightarrow> \<exists>x \<in> set xs. p x = Inr True"
  by (induction xs) (auto simp: bindr_Inr_iff split: if_splits)

lemma anyr_False: "anyr p xs = Inr False \<Longrightarrow> \<forall>x \<in> set xs. p x = Inr False"
  by (induction xs) (auto simp: bindr_Inr_iff split: if_splits)

lemma filterr_mem: "filterr p xs = Inr ys \<Longrightarrow> x \<in> set ys \<longleftrightarrow> x \<in> set xs \<and> p x = Inr True"
  by (induction xs arbitrary: ys) (auto simp: bindr_Inr_iff split: if_splits)

text \<open>A \<open>for\<close> loop over a list whose body may raise.\<close>

fun loopr :: "('a \<Rightarrow> 's \<Rightarrow> 's res) \<Rightarrow> 'a list \<Rightarrow> 's \<Rightarrow> 's res" where
  "loopr f [] s = Inr s"
| "loopr f (x # xs) s = bindr (f x s) (loopr f xs)"

lemma loopr_append:
  "loopr f (xs @ ys) s = bindr (loopr f xs s) (loopr f ys)"
  by (induction xs arbitrary: s) (auto simp: bindr_def split: sum.splits)

lemma loopr_inv:
  assumes "loopr f xs s = Inr t" and "P s"
    and "\<And>x s s'. x \<in> set xs \<Longrightarrow> P s \<Longrightarrow> f x s = Inr s' \<Longrightarrow> P s'"
  shows "P t"
  using assms by (induction xs arbitrary: s) (auto simp: bindr_Inr_iff)

text \<open>A \<open>for\<close> loop that returns from its first iteration with something to report.\<close>

fun firstr :: "('a \<Rightarrow> 'b option res) \<Rightarrow> 'a list \<Rightarrow> 'b option res" where
  "firstr f [] = Inr None"
| "firstr f (x # xs) = bindr (f x) (\<lambda>r. case r of None \<Rightarrow> firstr f xs | Some y \<Rightarrow> Inr (Some y))"

lemma firstr_None: "firstr f xs = Inr None \<Longrightarrow> x \<in> set xs \<Longrightarrow> f x = Inr None"
  by (induction xs) (auto simp: bindr_Inr_iff split: option.splits)

lemma firstr_Some: "firstr f xs = Inr (Some y) \<Longrightarrow> \<exists>x \<in> set xs. f x = Inr (Some y)"
  by (induction xs) (auto simp: bindr_Inr_iff split: option.splits)

section \<open>Strings and bytes\<close>

text \<open>
  A Python \<open>str\<close> is a sequence of code points (lone surrogates included), a \<open>bytes\<close> a sequence
  of values below 256. An ASCII literal of the source is written \<open>u ''abc''\<close>.
\<close>

type_synonym ustr = "nat list"
type_synonym bytes = "nat list"

definition u :: "string \<Rightarrow> ustr" where
  "u s = map of_char s"

lemma u_inject [simp]: "u a = u b \<longleftrightarrow> a = b"
  by (simp add: u_def inj_map_eq_map [OF inj_of_char])

lemma u_append [simp]: "u (a @ b) = u a @ u b"
  by (simp add: u_def)

lemma length_u [simp]: "length (u s) = length s"
  by (simp add: u_def)

definition is_bytes :: "bytes \<Rightarrow> bool" where
  "is_bytes bs \<longleftrightarrow> list_all (\<lambda>b. b < 256) bs"

lemma is_bytes_append [simp]: "is_bytes (a @ b) \<longleftrightarrow> is_bytes a \<and> is_bytes b"
  by (simp add: is_bytes_def)

lemma is_bytes_Nil [simp]: "is_bytes []"
  by (simp add: is_bytes_def)

lemma is_bytes_Cons [simp]: "is_bytes (b # bs) \<longleftrightarrow> b < 256 \<and> is_bytes bs"
  by (simp add: is_bytes_def)

lemma is_bytes_u [simp]: "is_bytes (u s)"
  by (auto simp: is_bytes_def u_def list_all_iff)

text \<open>\<open>str(n)\<close> of a non-negative and of any \<open>int\<close>.\<close>

fun nat_str :: "nat \<Rightarrow> ustr" where
  "nat_str n = (if n < 10 then [48 + n] else nat_str (n div 10) @ [48 + n mod 10])"

declare nat_str.simps [simp del]

definition int_str :: "int \<Rightarrow> ustr" where
  "int_str i = (if i < 0 then 45 # nat_str (nat (- i)) else nat_str (nat i))"

definition is_digit :: "nat \<Rightarrow> bool" where
  "is_digit c \<longleftrightarrow> 48 \<le> c \<and> c \<le> 57"

lemma nat_str_ne [simp]: "nat_str n \<noteq> []"
  by (subst nat_str.simps) simp

lemma nat_str_digits: "list_all is_digit (nat_str n)"
proof (induction n rule: nat_str.induct)
  case (1 n)
  have "n mod 10 < 10" by simp
  then have "is_digit (48 + n mod 10)" unfolding is_digit_def by linarith
  moreover have "is_digit (48 + n)" if "n < 10" using that by (simp add: is_digit_def)
  ultimately show ?case using 1 by (subst nat_str.simps) simp
qed

lemma nat_str_hd: "0 < n \<Longrightarrow> hd (nat_str n) \<noteq> 48"
proof (induction n rule: nat_str.induct)
  case (1 n)
  show ?case
  proof (cases "n < 10")
    case True
    with 1 show ?thesis by (subst nat_str.simps) simp
  next
    case False
    with 1 show ?thesis by (subst nat_str.simps) (simp add: hd_append)
  qed
qed

lemma length_nat_str: "n < 10 ^ Suc k \<Longrightarrow> length (nat_str n) \<le> Suc k"
proof (induction k arbitrary: n)
  case (Suc k)
  then have "n div 10 < 10 ^ Suc k" by (simp add: div_less_iff_less_mult)
  with Suc.IH [of "n div 10"] show ?case by (subst nat_str.simps) simp
qed (simp add: nat_str.simps)

text \<open>A decimal number ends where its digits end.\<close>

lemma takeWhile_digits:
  assumes "list_all is_digit ds" and "x = [] \<or> \<not> is_digit (hd x)"
  shows "takeWhile is_digit (ds @ x) = ds \<and> dropWhile is_digit (ds @ x) = x"
  using assms by (induction ds) (cases x; auto)+

fun digits_value :: "nat \<Rightarrow> ustr \<Rightarrow> nat" where
  "digits_value v [] = v"
| "digits_value v (c # cs) = digits_value (v * 10 + (c - 48)) cs"

lemma digits_value_append: "digits_value v (xs @ ys) = digits_value (digits_value v xs) ys"
  by (induction v xs rule: digits_value.induct) auto

lemma digits_value_nat_str: "digits_value 0 (nat_str n) = n"
proof (induction n rule: nat_str.induct)
  case (1 n)
  then show ?case by (subst nat_str.simps) (simp add: digits_value_append)
qed

lemma nat_str_inj: "nat_str a = nat_str b \<longleftrightarrow> a = b"
  by (metis digits_value_nat_str)

lemma nat_str_sep:
  assumes "nat_str a @ 32 # x = nat_str b @ 32 # y"
  shows "a = b \<and> x = y"
proof -
  have *: "takeWhile is_digit (nat_str n @ 32 # z) = nat_str n \<and>
      dropWhile is_digit (nat_str n @ 32 # z) = 32 # z" for n z
    by (rule takeWhile_digits) (simp only: nat_str_digits, simp add: is_digit_def)
  have "nat_str a = nat_str b" using * [of a x] * [of b y] assms by argo
  moreover have "32 # x = 32 # y" using * [of a x] * [of b y] assms by argo
  ultimately show ?thesis using nat_str_inj by blast
qed

text \<open>One lowercase hex digit, and \<open>bytes.hex()\<close>.\<close>

definition hex_digit :: "nat \<Rightarrow> nat" where
  "hex_digit d = (if d < 10 then 48 + d else 87 + d)"

fun hex_of :: "bytes \<Rightarrow> ustr" where
  "hex_of [] = []"
| "hex_of (b # bs) = hex_digit (b div 16) # hex_digit (b mod 16) # hex_of bs"

lemma length_hex_of [simp]: "length (hex_of bs) = 2 * length bs"
  by (induction bs) auto

lemma hex_digit_inj: "a < 16 \<Longrightarrow> b < 16 \<Longrightarrow> hex_digit a = hex_digit b \<longleftrightarrow> a = b"
  by (auto simp: hex_digit_def)

lemma hex_of_inj: "is_bytes a \<Longrightarrow> is_bytes b \<Longrightarrow> hex_of a = hex_of b \<Longrightarrow> a = b"
proof (induction a arbitrary: b)
  case Nil
  then show ?case by (cases b) auto
next
  case (Cons x a)
  then obtain y b' where b: "b = y # b'" by (cases b) auto
  from Cons.prems b have "hex_digit (x div 16) = hex_digit (y div 16)"
    and "hex_digit (x mod 16) = hex_digit (y mod 16)" and "hex_of a = hex_of b'"
    and bound: "x < 256" "y < 256" "is_bytes a" "is_bytes b'" by auto
  then have "x div 16 = y div 16" "x mod 16 = y mod 16"
    by (auto simp: hex_digit_inj)
  then have "x = y" by (metis div_mult_mod_eq)
  with Cons.IH bound \<open>hex_of a = hex_of b'\<close> b show ?case by blast
qed

text \<open>\<open>",".join(parts)\<close>.\<close>

fun join_with :: "ustr \<Rightarrow> ustr list \<Rightarrow> ustr" where
  "join_with sep [] = []"
| "join_with sep [x] = x"
| "join_with sep (x # y # xs) = x @ sep @ join_with sep (y # xs)"

definition ends_with :: "ustr \<Rightarrow> ustr \<Rightarrow> bool" where
  "ends_with s t \<longleftrightarrow> length t \<le> length s \<and> drop (length s - length t) s = t"

section \<open>Failure codes\<close>

text \<open>
  \<open>Outcome.codes\<close> is a list without repetitions that only \<open>Outcome.add\<close> changes, and \<open>add\<close> appends a code that is
  not there yet. A pass of the verifier maps the codes so far to the codes after it; it may also
  update a state, and it may raise.
\<close>

type_synonym codes = "string list"

definition extends :: "codes \<Rightarrow> codes \<Rightarrow> bool" where
  "extends c d \<longleftrightarrow> prefix c d \<and> (distinct c \<longrightarrow> distinct d)"

definition add_code :: "string \<Rightarrow> codes \<Rightarrow> codes" where
  "add_code x c = (if x \<in> set c then c else c @ [x])"

definition add_if :: "bool \<Rightarrow> string \<Rightarrow> codes \<Rightarrow> codes" where
  "add_if b x c = (if b then add_code x c else c)"

lemma add_code_ne [simp]: "add_code x c \<noteq> []"
  by (auto simp: add_code_def)

lemma set_add_code [simp]: "set (add_code x c) = insert x (set c)"
  by (auto simp: add_code_def)

lemma distinct_add_code [simp]: "distinct (add_code x c) \<longleftrightarrow> distinct c"
  by (auto simp: add_code_def)

lemma add_if_clean [simp]: "add_if b x c = [] \<longleftrightarrow> \<not> b \<and> c = []"
  by (simp add: add_if_def)

named_theorems extends_intros \<open>a pass only appends failure codes\<close>

lemma extends_refl [simp, extends_intros]: "extends c c"
  by (simp add: extends_def)

lemma extends_trans: "extends a b \<Longrightarrow> extends b c \<Longrightarrow> extends a c"
  by (auto simp: extends_def)

lemma extends_Nil [simp]: "extends c [] \<longleftrightarrow> c = []"
  by (auto simp: extends_def)

lemma extends_add_code [simp, extends_intros]: "extends c d \<Longrightarrow> extends c (add_code x d)"
  by (auto simp: extends_def add_code_def)

lemma extends_add_if [simp, extends_intros]: "extends c d \<Longrightarrow> extends c (add_if b x d)"
  by (simp add: add_if_def)

lemma extends_fold [extends_intros]:
  "(\<And>x d. extends c d \<Longrightarrow> extends c (f x d)) \<Longrightarrow> extends c d \<Longrightarrow> extends c (fold f xs d)"
  by (induction xs arbitrary: d) auto

lemma extends_if [extends_intros]:
  "(b \<Longrightarrow> extends c d) \<Longrightarrow> (\<not> b \<Longrightarrow> extends c e) \<Longrightarrow> extends c (if b then d else e)"
  by simp

lemma extends_subset: "extends c d \<Longrightarrow> set c \<subseteq> set d"
  by (auto simp: extends_def set_mono_prefix)

lemma loopr_extends:
  assumes "loopr f xs c = Inr d"
    and "\<And>x c d. x \<in> set xs \<Longrightarrow> f x c = Inr d \<Longrightarrow> extends c d"
  shows "extends c d"
  using assms
proof (induction xs arbitrary: c)
  case (Cons x xs)
  then obtain c' where "f x c = Inr c'" "loopr f xs c' = Inr d" by (auto simp: bindr_Inr_iff)
  with Cons show ?case by (meson extends_trans list.set_intros)
qed simp

lemma fold_extends:
  assumes "\<And>x c. x \<in> set xs \<Longrightarrow> extends c (f x c)"
  shows "extends c (fold f xs c)"
  using assms by (induction xs arbitrary: c) (auto intro: extends_trans)

text \<open>A loop that ends with no code never added one, so each iteration ran from no code to no
  code.\<close>

lemma loopr_clean:
  assumes "loopr f xs [] = Inr []" and "x \<in> set xs"
    and "\<And>x c d. x \<in> set xs \<Longrightarrow> f x c = Inr d \<Longrightarrow> extends c d"
  shows "f x [] = Inr []"
  using assms
proof (induction xs)
  case (Cons y ys)
  then obtain c where 1: "f y [] = Inr c" and 2: "loopr f ys c = Inr []"
    by (auto simp: bindr_Inr_iff)
  have "extends c []" by (rule loopr_extends [OF 2]) (use Cons.prems(3) in auto)
  then have "c = []" by simp
  with 1 2 Cons show ?case by auto
qed simp

lemma fold_clean:
  assumes "fold f xs [] = []" and "x \<in> set xs"
    and "\<And>x c. x \<in> set xs \<Longrightarrow> extends c (f x c)"
  shows "f x [] = []"
  using assms
proof (induction xs)
  case (Cons y ys)
  have "extends (f y []) (fold f ys (f y []))" using Cons.prems(3) by (intro fold_extends) simp
  then have "f y [] = []" using Cons.prems(1) by simp
  with Cons show ?case by auto
qed simp

text \<open>
  The contract every pass of the verifier keeps. \<open>grows\<close> is the one law; the clients' lemmas say
  that a run which ends with no code started with none, and that two passes in sequence are a pass.
\<close>

locale code_pass =
  fixes pass :: "'s \<Rightarrow> codes \<Rightarrow> ('s \<times> codes) res"
  assumes grows: "pass s c = Inr (s', c') \<Longrightarrow> extends c c'"
begin

lemma clean_start: "pass s c = Inr (s', []) \<Longrightarrow> c = []"
  using grows by fastforce

lemma keeps_codes: "pass s c = Inr (s', c') \<Longrightarrow> x \<in> set c \<Longrightarrow> x \<in> set c'"
  using grows extends_subset by blast

lemma bind_clean:
  assumes "bindr (pass s c) (\<lambda>(s', c'). f s' c') = Inr (t, [])"
    and "\<And>s' c' t. f s' c' = Inr (t, []) \<Longrightarrow> c' = []"
  shows "\<exists>s'. c = [] \<and> pass s [] = Inr (s', []) \<and> f s' [] = Inr (t, [])"
proof -
  from assms(1) obtain s' c' where p: "pass s c = Inr (s', c')" and f: "f s' c' = Inr (t, [])"
    by (auto simp: bindr_Inr_iff)
  from assms(2) [OF f] have "c' = []" .
  with p f clean_start show ?thesis by blast
qed

end

end
