(* ===== verification/PyValue.thy ===== *)
theory PyValue
  imports Prelude
begin

text \<open>
  The Python values \<open>json.loads\<close> produces, with the operations on them the verifier uses: equality
  and membership, truth value, hashing, dictionary lookup and subscription. A dictionary is an
  association list in insertion order.
\<close>

section \<open>Values\<close>

text \<open>A finite double is \<open>m * 2 ^ e\<close>; \<open>json.loads\<close> can also produce the three constants.\<close>

datatype pyfloat = Fin int int | PInf | NInf | NaN

datatype json =
    JNull | JBool bool | JInt int | JFloat pyfloat | JStr ustr | JArr "json list"
  | JObj "(ustr \<times> json) list"

type_synonym jdict = "(ustr \<times> json) list"

abbreviation js :: "string \<Rightarrow> json" where
  "js s \<equiv> JStr (u s)"

fun is_str :: "json \<Rightarrow> bool" where
  "is_str (JStr _) = True" | "is_str _ = False"

fun is_list :: "json \<Rightarrow> bool" where
  "is_list (JArr _) = True" | "is_list _ = False"

fun is_dict :: "json \<Rightarrow> bool" where
  "is_dict (JObj _) = True" | "is_dict _ = False"

text \<open>\<open>isinstance(v, int) and not isinstance(v, bool)\<close>.\<close>

fun is_int :: "json \<Rightarrow> bool" where
  "is_int (JInt _) = True" | "is_int _ = False"

lemma is_str_iff: "is_str v \<longleftrightarrow> (\<exists>s. v = JStr s)"
  by (cases v) auto

lemma is_list_iff: "is_list v \<longleftrightarrow> (\<exists>xs. v = JArr xs)"
  by (cases v) auto

lemma is_dict_iff: "is_dict v \<longleftrightarrow> (\<exists>d. v = JObj d)"
  by (cases v) auto

lemma is_int_iff: "is_int v \<longleftrightarrow> (\<exists>i. v = JInt i)"
  by (cases v) auto

fun as_dict :: "json \<Rightarrow> jdict" where
  "as_dict (JObj d) = d" | "as_dict _ = []"

fun as_list :: "json \<Rightarrow> json list" where
  "as_list (JArr xs) = xs" | "as_list _ = []"

section \<open>Equality, membership, truth, hashing\<close>

text \<open>
  Numbers compare by value across \<open>bool\<close>, \<open>int\<close> and \<open>float\<close>; lists element by element;
  dictionaries as maps. Two \<open>NaN\<close>s count as equal here: \<open>json.loads\<close> returns one shared object for
  the constant, and every comparison of two carried values the code makes is a container's, which
  asks for identity first. The direct comparisons have a string or an integer on one side.
\<close>

fun float_eq :: "pyfloat \<Rightarrow> pyfloat \<Rightarrow> bool" where
  "float_eq (Fin m e) (Fin n f) =
     (m * 2 ^ nat (e - min e f) = n * 2 ^ nat (f - min e f))"
| "float_eq x y = (x = y)"

fun num_of :: "json \<Rightarrow> pyfloat option" where
  "num_of (JBool b) = Some (Fin (if b then 1 else 0) 0)"
| "num_of (JInt i) = Some (Fin i 0)"
| "num_of (JFloat f) = Some f"
| "num_of _ = None"

lemma zip_size [termination_simp]:
  "(a, b) \<in> set (zip xs ys) \<Longrightarrow> size (a :: json) < Suc (size_list size xs)"
  using size_list_estimation' [of a xs "size a" size] by (auto dest: set_zip_leftD)

fun py_eq :: "json \<Rightarrow> json \<Rightarrow> bool" where
  "py_eq JNull y = (y = JNull)"
| "py_eq (JStr s) y = (y = JStr s)"
| "py_eq (JArr xs) y =
     (case y of
        JArr ys \<Rightarrow> length xs = length ys \<and> list_all (\<lambda>(a, b). py_eq a b) (zip xs ys)
      | _ \<Rightarrow> False)"
| "py_eq (JObj d) y =
     (case y of
        JObj e \<Rightarrow> length d = length e \<and>
          list_all (\<lambda>(k, v). case map_of e k of None \<Rightarrow> False | Some w \<Rightarrow> py_eq v w) d
      | _ \<Rightarrow> False)"
| "py_eq x y =
     (case (num_of x, num_of y) of (Some a, Some b) \<Rightarrow> float_eq a b | _ \<Rightarrow> False)"

lemma py_eq_JStr_right [simp]: "py_eq v (JStr s) \<longleftrightarrow> v = JStr s"
  by (cases v) auto

lemma py_eq_JNull_right [simp]: "py_eq v JNull \<longleftrightarrow> v = JNull"
  by (cases v) auto

lemma py_eq_JInt [simp]: "py_eq (JInt i) (JInt j) \<longleftrightarrow> i = j"
  by simp

definition py_in :: "json \<Rightarrow> json list \<Rightarrow> bool" where
  "py_in x ys \<longleftrightarrow> list_ex (py_eq x) ys"

lemma py_in_Nil [simp]: "\<not> py_in x []"
  by (simp add: py_in_def)

lemma py_in_Cons [simp]: "py_in x (y # ys) \<longleftrightarrow> py_eq x y \<or> py_in x ys"
  by (simp add: py_in_def)

lemma py_in_append [simp]: "py_in x (ys @ zs) \<longleftrightarrow> py_in x ys \<or> py_in x zs"
  by (simp add: py_in_def list_ex_iff bex_Un)

lemma py_in_JStr: "py_in (JStr s) ys \<longleftrightarrow> JStr s \<in> set ys"
  by (induction ys) auto

lemma py_in_strs: "list_all is_str ys \<Longrightarrow> py_in x ys \<longleftrightarrow> x \<in> set ys"
  by (induction ys) (auto simp: is_str_iff)

fun truthy :: "json \<Rightarrow> bool" where
  "truthy JNull = False"
| "truthy (JBool b) = b"
| "truthy (JInt i) = (i \<noteq> 0)"
| "truthy (JFloat (Fin m e)) = (m \<noteq> 0)"
| "truthy (JFloat _) = True"
| "truthy (JStr s) = (s \<noteq> [])"
| "truthy (JArr xs) = (xs \<noteq> [])"
| "truthy (JObj d) = (d \<noteq> [])"

text \<open>Putting a list or a dictionary into a set, or looking it up as a key, raises.\<close>

fun hashable :: "json \<Rightarrow> bool" where
  "hashable (JArr _) = False"
| "hashable (JObj _) = False"
| "hashable _ = True"

definition hash_check :: "json \<Rightarrow> unit res" where
  "hash_check v = (if hashable v then Inr () else Inl TypeError)"

lemma hash_check_Inr [simp, res_iff]: "hash_check v = Inr x \<longleftrightarrow> hashable v"
  by (simp add: hash_check_def)

lemma hash_check_JStr [simp]: "hash_check (JStr s) = Inr ()"
  by (simp add: hash_check_def)

text \<open>\<open>set(xs)\<close>: every element is hashed; equal elements are kept once.\<close>

fun dedup :: "json list \<Rightarrow> json list" where
  "dedup [] = []"
| "dedup (x # xs) = (if py_in x xs then dedup xs else x # dedup xs)"

definition py_set :: "json list \<Rightarrow> json list res" where
  "py_set xs = bindr (mapr hash_check xs) (\<lambda>_. Inr (dedup xs))"

text \<open>\<open>v in s\<close> for a set or a dictionary \<open>s\<close> with the elements or keys \<open>ys\<close>.\<close>

definition in_set :: "json \<Rightarrow> json list \<Rightarrow> bool res" where
  "in_set v ys = bindr (hash_check v) (\<lambda>_. Inr (py_in v ys))"

lemma in_set_Inr [res_iff]: "in_set v ys = Inr b \<longleftrightarrow> hashable v \<and> b = py_in v ys"
  by (auto simp: in_set_def bindr_Inr_iff)

lemma in_set_JStr [simp]: "in_set (JStr s) ys = Inr (JStr s \<in> set ys)"
  by (simp add: in_set_def py_in_JStr)

section \<open>Dictionaries and subscription\<close>

text \<open>\<open>d.get(k)\<close>: an absent member and a null one both read as \<open>None\<close>.\<close>

definition dget :: "jdict \<Rightarrow> ustr \<Rightarrow> json" where
  "dget d k = (case map_of d k of None \<Rightarrow> JNull | Some v \<Rightarrow> v)"

definition has_key :: "jdict \<Rightarrow> ustr \<Rightarrow> bool" where
  "has_key d k \<longleftrightarrow> map_of d k \<noteq> None"

lemma has_key_iff: "has_key d k \<longleftrightarrow> k \<in> fst ` set d"
  by (auto simp: has_key_def map_of_eq_None_iff)

lemma dget_absent: "\<not> has_key d k \<Longrightarrow> dget d k = JNull"
  by (simp add: dget_def has_key_def)

lemma dget_Nil [simp]: "dget [] k = JNull"
  by (simp add: dget_def)

lemma dget_Cons [simp]: "dget ((k, v) # d) k' = (if k = k' then v else dget d k')"
  by (simp add: dget_def)

lemma has_key_Nil [simp]: "\<not> has_key [] k"
  by (simp add: has_key_def)

lemma has_key_Cons [simp]: "has_key ((k, v) # d) k' \<longleftrightarrow> k = k' \<or> has_key d k'"
  by (simp add: has_key_def)

text \<open>\<open>d[k] = v\<close>: an existing key keeps its place, a new one goes to the end.\<close>

fun dset :: "jdict \<Rightarrow> ustr \<Rightarrow> json \<Rightarrow> jdict" where
  "dset [] k v = [(k, v)]"
| "dset ((k', v') # d) k v = (if k' = k then (k, v) # d else (k', v') # dset d k v)"

lemma map_of_dset [simp]: "map_of (dset d k v) = (map_of d)(k \<mapsto> v)"
  by (induction d) auto

lemma keys_dset: "fst ` set (dset d k v) = insert k (fst ` set d)"
  by (induction d k v rule: dset.induct) auto

lemma distinct_dset: "distinct (map fst d) \<Longrightarrow> distinct (map fst (dset d k v))"
  by (induction d k v rule: dset.induct) (auto simp flip: set_map simp: keys_dset [simplified])

text \<open>\<open>v[k]\<close> with a string key, and \<open>v[0]\<close>.\<close>

fun item :: "json \<Rightarrow> ustr \<Rightarrow> json res" where
  "item (JObj d) k = (case map_of d k of None \<Rightarrow> Inl KeyError | Some v \<Rightarrow> Inr v)"
| "item _ k = Inl TypeError"

fun item0 :: "json \<Rightarrow> json res" where
  "item0 (JArr []) = Inl IndexError"
| "item0 (JArr (x # _)) = Inr x"
| "item0 (JStr []) = Inl IndexError"
| "item0 (JStr (c # _)) = Inr (JStr [c])"
| "item0 (JObj _) = Inl KeyError"
| "item0 _ = Inl TypeError"

lemma item_error: "item v k = Inl e \<Longrightarrow> is_lookup_error e"
  by (cases v) (auto split: option.splits)

lemma item0_error: "item0 v = Inl e \<Longrightarrow> is_lookup_error e"
  by (cases v rule: item0.cases) auto

section \<open>Well-formed values\<close>

text \<open>A Python dictionary has no repeated key, at any depth.\<close>

fun wf_json :: "json \<Rightarrow> bool" where
  "wf_json (JArr xs) = list_all wf_json xs"
| "wf_json (JObj d) = (distinct (map fst d) \<and> list_all (\<lambda>(k, v). wf_json v) d)"
| "wf_json _ = True"

text \<open>No number of the value is a float, no string holds a surrogate.\<close>

definition surrogate :: "nat \<Rightarrow> bool" where
  "surrogate c \<longleftrightarrow> 55296 \<le> c \<and> c < 57344"

fun no_floats :: "json \<Rightarrow> bool" where
  "no_floats (JFloat f) = False"
| "no_floats (JArr xs) = list_all no_floats xs"
| "no_floats (JObj d) = list_all (\<lambda>(k, v). no_floats v) d"
| "no_floats _ = True"

lemma float_eq_refl [simp]: "float_eq x x"
  by (cases x) auto

lemma py_eq_refl: "wf_json v \<Longrightarrow> py_eq v v"
proof (induction v)
  case (JArr xs)
  then show ?case by (auto simp: list_all_iff set_zip)
next
  case (JObj d)
  have "map_of d k = Some v \<and> py_eq v v" if "(k, v) \<in> set d" for k v
    using JObj.IH [OF that, of v] JObj.prems that by (auto simp: list_all_iff)
  then show ?case by (fastforce simp: list_all_iff)
qed auto

end
