(* ===== verification/Unicode.thy ===== *)
theory Unicode
  imports PyValue
begin

text \<open>
  The two codecs the verifier relies on: strict UTF-8 (\<open>str.encode("utf-8")\<close>,
  \<open>bytes.decode("utf-8")\<close>) and the big-endian UTF-16 encoding that serves as sort key
  (\<open>_utf16_sort_key\<close>). Both encoders raise on a surrogate. The lemmas give the UTF-8 round trips
  and the order the UTF-16 key induces.
\<close>

section \<open>UTF-8\<close>

definition scalar :: "nat \<Rightarrow> bool" where
  "scalar c \<longleftrightarrow> c < 1114112 \<and> \<not> surrogate c"

definition utf8_cp :: "nat \<Rightarrow> bytes" where
  "utf8_cp c =
     (if c < 128 then [c]
      else if c < 2048 then [192 + c div 64, 128 + c mod 64]
      else if c < 65536 then [224 + c div 4096, 128 + (c div 64) mod 64, 128 + c mod 64]
      else [240 + c div 262144, 128 + (c div 4096) mod 64, 128 + (c div 64) mod 64,
            128 + c mod 64])"

definition has_surrogate :: "ustr \<Rightarrow> bool" where
  "has_surrogate s \<longleftrightarrow> list_ex surrogate s"

definition utf8_encode :: "ustr \<Rightarrow> bytes res" where
  "utf8_encode s =
     (if has_surrogate s then Inl UnicodeEncodeError else Inr (concat (map utf8_cp s)))"

definition utf8_cont :: "nat \<Rightarrow> bool" where
  "utf8_cont b \<longleftrightarrow> 128 \<le> b \<and> b < 192"

text \<open>
  The strict decoder: one code point from the front of the bytes with the number of bytes it took,
  \<open>None\<close> where CPython raises \<open>UnicodeDecodeError\<close> (a stray continuation byte, an overlong form, an
  encoded surrogate, a value above U+10FFFF, a truncated sequence).
\<close>

definition utf8_head :: "bytes \<Rightarrow> (nat \<times> nat) option" where
  "utf8_head bs =
     (case bs of
        [] \<Rightarrow> None
      | b0 # r0 \<Rightarrow>
          if b0 < 128 then Some (b0, 1)
          else (case r0 of
             [] \<Rightarrow> None
           | b1 # r1 \<Rightarrow>
               if \<not> utf8_cont b1 then None
               else if 194 \<le> b0 \<and> b0 < 224 then Some ((b0 - 192) * 64 + (b1 - 128), 2)
               else (case r1 of
                  [] \<Rightarrow> None
                | b2 # r2 \<Rightarrow>
                    if \<not> utf8_cont b2 then None
                    else if 224 \<le> b0 \<and> b0 < 240 then
                      (let c = (b0 - 224) * 4096 + (b1 - 128) * 64 + (b2 - 128)
                       in if c < 2048 \<or> surrogate c then None else Some (c, 3))
                    else (case r2 of
                       [] \<Rightarrow> None
                     | b3 # r3 \<Rightarrow>
                         if \<not> utf8_cont b3 \<or> b0 < 240 then None
                         else
                           (let c = (b0 - 240) * 262144 + (b1 - 128) * 4096
                                    + (b2 - 128) * 64 + (b3 - 128)
                            in if c < 65536 \<or> 1114112 \<le> c then None else Some (c, 4))))))"

lemma utf8_head_span: "utf8_head bs = Some (c, n) \<Longrightarrow> 0 < n \<and> n \<le> length bs"
  by (auto simp: utf8_head_def Let_def split: list.splits if_splits)

function utf8_decode :: "bytes \<Rightarrow> ustr option" where
  "utf8_decode bs =
     (if bs = [] then Some []
      else (case utf8_head bs of
              None \<Rightarrow> None
            | Some (c, n) \<Rightarrow> map_option (Cons c) (utf8_decode (drop n bs))))"
  by pat_completeness auto
termination
  by (relation "measure length") (auto dest: utf8_head_span)

declare utf8_decode.simps [simp del]

lemma utf8_decode_Nil [simp]: "utf8_decode [] = Some []"
  by (simp add: utf8_decode.simps)

lemma utf8_cp_ne [simp]: "utf8_cp c \<noteq> []"
  by (simp add: utf8_cp_def)

lemma utf8_cp_bytes: "scalar c \<Longrightarrow> is_bytes (utf8_cp c)"
  by (auto simp: utf8_cp_def scalar_def)

lemma split64:
  fixes c :: nat
  shows "c div 64 * 64 + c mod 64 = c"
    and "c div 4096 * 4096 + c div 64 mod 64 * 64 + c mod 64 = c"
    and "c div 262144 * 262144 + c div 4096 mod 64 * 4096 + c div 64 mod 64 * 64 + c mod 64 = c"
proof -
  have q: "x = x div 64 * 64 + x mod 64" for x :: nat by simp
  have 1: "c div 4096 = c div 64 div 64" and 2: "c div 262144 = c div 64 div 64 div 64"
    by (simp_all flip: div_mult2_eq)
  show "c div 64 * 64 + c mod 64 = c" by simp
  show "c div 4096 * 4096 + c div 64 mod 64 * 64 + c mod 64 = c"
    using q [of c] q [of "c div 64"] unfolding 1 by linarith
  show "c div 262144 * 262144 + c div 4096 mod 64 * 4096 + c div 64 mod 64 * 64 + c mod 64 = c"
    using q [of c] q [of "c div 64"] q [of "c div 64 div 64"] unfolding 1 2 by linarith
qed

lemma dm64:
  fixes y k :: nat
  assumes "k < 64"
  shows "(y * 64 + k) div 64 = y" and "(y * 64 + k) mod 64 = k"
    and "(y * 64 + k) div 4096 = y div 64" and "(y * 64 + k) div 262144 = y div 64 div 64"
proof -
  show 1: "(y * 64 + k) div 64 = y" using assms by simp
  show "(y * 64 + k) mod 64 = k" using assms by simp
  have "(y * 64 + k) div (64 * 64) = y div 64"
    and "(y * 64 + k) div (64 * 64 * 64) = y div 64 div 64"
    unfolding div_mult2_eq 1 by (rule refl)+
  then show "(y * 64 + k) div 4096 = y div 64" and "(y * 64 + k) div 262144 = y div 64 div 64"
    by simp_all
qed

lemma cont_mod64 [simp]: "utf8_cont (128 + c mod 64)"
  by (simp add: utf8_cont_def)

lemma utf8_head_cp: "scalar c \<Longrightarrow> utf8_head (utf8_cp c @ bs) = Some (c, length (utf8_cp c))"
proof -
  assume c: "scalar c"
  consider "c < 128" | "128 \<le> c" "c < 2048" | "2048 \<le> c" "c < 65536" | "65536 \<le> c" by linarith
  then show ?thesis
  proof cases
    case 2
    then have "194 \<le> 192 + c div 64" "192 + c div 64 < 224" by auto
    with 2 split64(1) [of c] show ?thesis
      by (simp add: utf8_cp_def utf8_head_def)
  next
    case 3
    then have "c div 4096 < 16" by auto
    with 3 c split64(2) [of c] show ?thesis
      by (simp add: utf8_cp_def utf8_head_def scalar_def Let_def)
  next
    case 4
    with c split64(3) [of c] show ?thesis
      by (simp add: utf8_cp_def utf8_head_def scalar_def Let_def)
  qed (simp add: utf8_cp_def utf8_head_def)
qed

lemma utf8_decode_cp: "scalar c \<Longrightarrow> utf8_decode (utf8_cp c @ bs) = map_option (Cons c) (utf8_decode bs)"
  by (subst utf8_decode.simps) (simp add: utf8_head_cp)

lemma utf8_decode_concat:
  "list_all scalar s \<Longrightarrow> utf8_decode (concat (map utf8_cp s)) = Some s"
  by (induction s) (auto simp: utf8_decode_cp)

lemma utf8_decode_encode:
  assumes "list_all scalar s" and "utf8_encode s = Inr bs"
  shows "utf8_decode bs = Some s"
  using assms by (auto simp: utf8_encode_def utf8_decode_concat split: if_splits)

lemma utf8_encoded:
  assumes "list_all scalar s"
  shows "\<exists>bs. utf8_encode s = Inr bs \<and> utf8_decode bs = Some s"
proof -
  have "\<not> list_ex surrogate s" using assms by (auto simp: list_ex_iff list_all_iff scalar_def)
  then show ?thesis using utf8_decode_concat [OF assms] by (auto simp: utf8_encode_def has_surrogate_def)
qed

lemma utf8_contE:
  assumes "utf8_cont b"
  obtains k where "b = 128 + k" "k < 64"
  using assms that [of "b - 128"] by (auto simp: utf8_cont_def)

lemma utf8_head_inv:
  assumes "utf8_head bs = Some (c, n)"
  shows "scalar c \<and> n = length (utf8_cp c) \<and> take n bs = utf8_cp c"
proof -
  from assms obtain b0 r0 where bs: "bs = b0 # r0" by (auto simp: utf8_head_def split: list.splits)
  show ?thesis
  proof (cases "b0 < 128")
    case True
    with assms bs show ?thesis
      by (auto simp: utf8_head_def utf8_cp_def scalar_def surrogate_def)
  next
    case b0: False
    with assms bs obtain b1 r1 where r0: "r0 = b1 # r1" and c1: "utf8_cont b1"
      by (auto simp: utf8_head_def split: list.splits if_splits)
    from c1 obtain k1 where b1: "b1 = 128 + k1" "k1 < 64" by (rule utf8_contE)
    show ?thesis
    proof (cases "194 \<le> b0 \<and> b0 < 224")
      case True
      define x where "x = b0 - 192"
      with True have x: "b0 = 192 + x" "2 \<le> x" "x < 32" by auto
      with assms bs r0 b1 c1 have "c = x * 64 + k1" "n = 2" by (auto simp: utf8_head_def)
      with x b1 bs r0 show ?thesis
        by (simp add: utf8_cp_def scalar_def surrogate_def)
    next
      case b0': False
      with assms bs r0 c1 b0 obtain b2 r2 where r1: "r1 = b2 # r2" and c2: "utf8_cont b2"
        by (auto simp: utf8_head_def split: list.splits if_splits)
      from c2 obtain k2 where b2: "b2 = 128 + k2" "k2 < 64" by (rule utf8_contE)
      show ?thesis
      proof (cases "224 \<le> b0 \<and> b0 < 240")
        case True
        define x where "x = b0 - 224"
        with True have x: "b0 = 224 + x" "x < 16" by auto
        with assms bs r0 r1 b1 b2 c1 c2 b0'
        have c: "c = (x * 64 + k1) * 64 + k2" and n: "n = 3"
          and ok: "\<not> c < 2048" "\<not> surrogate c"
          by (auto simp: utf8_head_def Let_def split: if_splits)
        have "c div 4096 = x" "c div 64 mod 64 = k1" "c mod 64 = k2"
          unfolding c using b1 b2 by (simp_all only: dm64)
        moreover have "c < 65536" using x b1 b2 c by auto
        ultimately show ?thesis using x b1 b2 bs r0 r1 n ok
          by (simp add: utf8_cp_def scalar_def)
      next
        case b0'': False
        with assms bs r0 r1 c1 c2 b0 b0' obtain b3 r3 where r2: "r2 = b3 # r3"
          and c3: "utf8_cont b3" and h: "240 \<le> b0"
          by (auto simp: utf8_head_def Let_def split: list.splits if_splits)
        from c3 obtain k3 where b3: "b3 = 128 + k3" "k3 < 64" by (rule utf8_contE)
        from h obtain x where x: "b0 = 240 + x" using le_Suc_ex by blast
        with assms bs r0 r1 r2 b1 b2 b3 c1 c2 c3
        have c: "c = ((x * 64 + k1) * 64 + k2) * 64 + k3"
          and n: "n = 4" and ok: "\<not> c < 65536" "c < 1114112"
          by (auto simp: utf8_head_def Let_def split: if_splits)
        have "c div 262144 = x" "c div 4096 mod 64 = k1" "c div 64 mod 64 = k2" "c mod 64 = k3"
          unfolding c using b1 b2 b3 by (simp_all only: dm64)
        with b1 b2 b3 x bs r0 r1 r2 n ok show ?thesis
          by (simp add: utf8_cp_def scalar_def surrogate_def)
      qed
    qed
  qed
qed

text \<open>Strict decoding is the inverse of encoding: what decodes is the encoding of what it decodes
  to, and that has no surrogate.\<close>

lemma utf8_decode_inv:
  "utf8_decode bs = Some s \<Longrightarrow> list_all scalar s \<and> bs = concat (map utf8_cp s)"
proof (induction bs arbitrary: s rule: utf8_decode.induct)
  case (1 bs)
  show ?case
  proof (cases "bs = []")
    case False
    with "1.prems" obtain c n t where h: "utf8_head bs = Some (c, n)"
      and t: "utf8_decode (drop n bs) = Some t" and s: "s = c # t"
      by (subst (asm) utf8_decode.simps) (auto split: option.splits)
    have t': "list_all scalar t" "drop n bs = concat (map utf8_cp t)"
      using "1.IH" [OF False h refl t] by auto
    with utf8_head_inv [OF h] have "bs = utf8_cp c @ concat (map utf8_cp t)"
      by (metis append_take_drop_id)
    with utf8_head_inv [OF h] t' s show ?thesis by simp
  qed (use "1.prems" in simp)
qed

lemma scalar_no_surrogate: "list_all scalar s \<Longrightarrow> \<not> has_surrogate s"
  by (auto simp: has_surrogate_def list_ex_iff list_all_iff scalar_def)

lemma utf8_encode_decode: "utf8_decode bs = Some s \<Longrightarrow> utf8_encode s = Inr bs"
  using utf8_decode_inv [of bs s] by (auto simp: utf8_encode_def dest: scalar_no_surrogate)

lemma utf8_encode_inj:
  "list_all scalar s \<Longrightarrow> list_all scalar t \<Longrightarrow> utf8_encode s = Inr bs \<Longrightarrow> utf8_encode t = Inr bs
   \<Longrightarrow> s = t"
  by (metis option.inject utf8_decode_encode)

section \<open>The UTF-16 sort key\<close>

definition utf16_cp :: "nat \<Rightarrow> bytes" where
  "utf16_cp c =
     (if c < 65536 then [c div 256, c mod 256]
      else (let hi = 55296 + (c - 65536) div 1024; lo = 56320 + (c - 65536) mod 1024
            in [hi div 256, hi mod 256, lo div 256, lo mod 256]))"

definition utf16_bytes :: "ustr \<Rightarrow> bytes" where
  "utf16_bytes s = concat (map utf16_cp s)"

definition utf16_sort_key :: "ustr \<Rightarrow> bytes res" where
  "utf16_sort_key s = (if has_surrogate s then Inl UnicodeEncodeError else Inr (utf16_bytes s))"

text \<open>\<open>_all_bmp\<close>: every code point of every string lies in the Basic Multilingual Plane.\<close>

definition all_bmp :: "ustr list \<Rightarrow> bool" where
  "all_bmp ss \<longleftrightarrow> list_all (list_all (\<lambda>c. c \<le> 65535)) ss"

lemma utf16_bytes_simps [simp]:
  "utf16_bytes [] = []" "utf16_bytes (c # s) = utf16_cp c @ utf16_bytes s"
  by (simp_all add: utf16_bytes_def)

lemma byte_pair_eq: "a div 256 = b div 256 \<Longrightarrow> a mod 256 = b mod 256 \<Longrightarrow> a = (b :: nat)"
  by (metis div_mult_mod_eq)

lemma byte_pair_less:
  "a div 256 < b div 256 \<or> a div 256 = b div 256 \<and> a mod 256 < b mod 256 \<longleftrightarrow> a < (b :: nat)"
proof -
  have "a = a div 256 * 256 + a mod 256" "b = b div 256 * 256 + b mod 256" by simp_all
  moreover have "a mod 256 < 256" "b mod 256 < 256" by simp_all
  ultimately show ?thesis by linarith
qed

definition utf16_hi :: "nat \<Rightarrow> nat" where
  "utf16_hi c = 55296 + (c - 65536) div 1024"

definition utf16_lo :: "nat \<Rightarrow> nat" where
  "utf16_lo c = 56320 + (c - 65536) mod 1024"

lemma utf16_cp_astral:
  "\<not> c < 65536 \<Longrightarrow>
   utf16_cp c = [utf16_hi c div 256, utf16_hi c mod 256, utf16_lo c div 256, utf16_lo c mod 256]"
  by (simp add: utf16_cp_def utf16_hi_def utf16_lo_def Let_def)

lemma utf16_cp_basic: "c < 65536 \<Longrightarrow> utf16_cp c = [c div 256, c mod 256]"
  by (simp add: utf16_cp_def)

lemma utf16_hi_surrogate: "scalar c \<Longrightarrow> \<not> c < 65536 \<Longrightarrow> surrogate (utf16_hi c)"
  by (auto simp: scalar_def surrogate_def utf16_hi_def)

lemma utf16_cp_eq:
  assumes "scalar a" "scalar b" "utf16_cp a @ s = utf16_cp b @ t"
  shows "a = b \<and> s = t"
proof (cases "a < 65536")
  case a: True
  show ?thesis
  proof (cases "b < 65536")
    case True
    with a assms(3) have "a div 256 = b div 256" "a mod 256 = b mod 256" "s = t"
      by (simp_all add: utf16_cp_basic)
    with byte_pair_eq show ?thesis by blast
  next
    case False
    with a assms(3) have "a div 256 = utf16_hi b div 256" "a mod 256 = utf16_hi b mod 256"
      by (simp_all add: utf16_cp_basic utf16_cp_astral)
    then have "a = utf16_hi b" by (rule byte_pair_eq)
    with assms(1) utf16_hi_surrogate [OF assms(2) False] show ?thesis by (simp add: scalar_def)
  qed
next
  case a: False
  show ?thesis
  proof (cases "b < 65536")
    case True
    with a assms(3) have "b div 256 = utf16_hi a div 256" "b mod 256 = utf16_hi a mod 256"
      by (simp_all add: utf16_cp_basic utf16_cp_astral)
    then have "b = utf16_hi a" by (rule byte_pair_eq)
    with assms(2) utf16_hi_surrogate [OF assms(1) a] show ?thesis by (simp add: scalar_def)
  next
    case False
    with a assms(3) have hi: "utf16_hi a div 256 = utf16_hi b div 256"
        "utf16_hi a mod 256 = utf16_hi b mod 256"
      and lo: "utf16_lo a div 256 = utf16_lo b div 256" "utf16_lo a mod 256 = utf16_lo b mod 256"
      and st: "s = t"
      by (simp_all add: utf16_cp_astral)
    from byte_pair_eq [OF hi] byte_pair_eq [OF lo] have "(a - 65536) div 1024 = (b - 65536) div 1024"
      and "(a - 65536) mod 1024 = (b - 65536) mod 1024"
      by (simp_all add: utf16_hi_def utf16_lo_def)
    then have "a - 65536 = b - 65536" by (metis div_mult_mod_eq)
    with a False st show ?thesis by auto
  qed
qed

lemma utf16_cp_ne [simp]: "utf16_cp c \<noteq> []"
  by (simp add: utf16_cp_def Let_def)

lemma utf16_bytes_inj:
  "list_all scalar s \<Longrightarrow> list_all scalar t \<Longrightarrow> utf16_bytes s = utf16_bytes t \<Longrightarrow> s = t"
proof (induction s arbitrary: t)
  case Nil
  then show ?case by (cases t) auto
next
  case (Cons a s)
  then obtain b t' where t: "t = b # t'" by (cases t) auto
  with Cons.prems have "utf16_cp a @ utf16_bytes s = utf16_cp b @ utf16_bytes t'" by simp
  moreover from Cons.prems t have "scalar a" "scalar b" by auto
  ultimately have "a = b \<and> utf16_bytes s = utf16_bytes t'" by (intro utf16_cp_eq)
  with Cons.IH Cons.prems t show ?case by simp
qed

text \<open>On strings inside the Basic Multilingual Plane the key order is the code-point order.\<close>

lemma utf16_bytes_less_bmp:
  "list_all (\<lambda>c. c \<le> 65535) s \<Longrightarrow> list_all (\<lambda>c. c \<le> 65535) t \<Longrightarrow>
   utf16_bytes s < utf16_bytes t \<longleftrightarrow> s < t"
proof (induction s arbitrary: t)
  case Nil
  then show ?case by (cases t) (auto simp: utf16_cp_def)
next
  case (Cons a s)
  show ?case
  proof (cases t)
    case (Cons b t')
    from Cons Cons.prems have ab: "a < 65536" "b < 65536" by auto
    have "a div 256 < b div 256 \<or> a div 256 = b div 256 \<and> a mod 256 < b mod 256 \<longleftrightarrow> a < b"
      by (rule byte_pair_less)
    moreover have "a div 256 = b div 256 \<and> a mod 256 = b mod 256 \<longleftrightarrow> a = b"
      using byte_pair_eq by blast
    ultimately show ?thesis
      using Cons.IH [of t'] Cons Cons.prems ab by (auto simp: utf16_cp_basic)
  qed simp
qed

end
