(* ===== verification/Scalars.thy ===== *)
theory Scalars
  imports Unicode
begin

text \<open>
  The byte-level scan of string literals (\<open>check_string_scalars\<close> of
  \<open>packaging/run_vectors.py\<close>): every literal of a JSON text must denote Unicode scalar values and
  no noncharacter. A scan walks the remaining bytes with the number of bytes already passed, which
  is the source's index \<open>i\<close>; a literal's span includes both quotes.
\<close>

section \<open>The scan\<close>

definition hex_val :: "nat \<Rightarrow> nat option" where
  "hex_val c =
     (if 48 \<le> c \<and> c \<le> 57 then Some (c - 48)
      else if 97 \<le> c \<and> c \<le> 102 then Some (c - 97 + 10)
      else if 65 \<le> c \<and> c \<le> 70 then Some (c - 65 + 10)
      else None)"

fun hex_fold :: "nat \<Rightarrow> nat list \<Rightarrow> nat option" where
  "hex_fold v [] = Some v"
| "hex_fold v (c # cs) = (case hex_val c of None \<Rightarrow> None | Some d \<Rightarrow> hex_fold (v * 16 + d) cs)"

text \<open>\<open>_hex4\<close>; the shift-and-or of a digit below 16 is \<open>v * 16 + d\<close>.\<close>

definition hex4 :: "nat list \<Rightarrow> nat option" where
  "hex4 b = (if length b < 4 then None else hex_fold 0 (take 4 b))"

text \<open>\<open>_is_noncharacter\<close>: \<open>cp & 0xFFFE == 0xFFFE\<close> reads the low sixteen bits except the last.\<close>

definition is_noncharacter :: "nat \<Rightarrow> bool" where
  "is_noncharacter cp \<longleftrightarrow> cp mod 65536 div 2 = 32767 \<or> 64976 \<le> cp \<and> cp \<le> 65007"

definition check_surrogate_pair :: "bytes \<Rightarrow> nat \<Rightarrow> nat res" where
  "check_surrogate_pair b hi =
     (if length b < 12 \<or> take 2 (drop 6 b) \<noteq> [92, 117] then Inl StringNotScalarError
      else (case hex4 (drop 8 b) of
              None \<Rightarrow> Inl StringNotScalarError
            | Some lo \<Rightarrow>
                if \<not> (56320 \<le> lo \<and> lo < 57344) then Inl StringNotScalarError
                else if is_noncharacter (65536 + (hi - 55296) * 1024 + (lo - 56320))
                then Inl StringNotScalarError
                else Inr 12))"

definition check_escape :: "bytes \<Rightarrow> nat res" where
  "check_escape b =
     (if length b < 2 then Inl StringNotScalarError
      else if b ! 1 \<noteq> 117 then Inr 2
      else (case hex4 (drop 2 b) of
              None \<Rightarrow> Inl StringNotScalarError
            | Some hi \<Rightarrow>
                if 55296 \<le> hi \<and> hi < 56320 then check_surrogate_pair b hi
                else if 56320 \<le> hi \<and> hi < 57344 then Inl StringNotScalarError
                else if is_noncharacter hi then Inl StringNotScalarError
                else Inr 6))"

definition utf8_seq_len :: "nat \<Rightarrow> nat" where
  "utf8_seq_len lead =
     (if 194 \<le> lead \<and> lead \<le> 223 then 2
      else if 224 \<le> lead \<and> lead \<le> 239 then 3
      else if 240 \<le> lead \<and> lead \<le> 244 then 4
      else 0)"

lemma check_escape_span: "check_escape b = Inr n \<Longrightarrow> 2 \<le> n \<and> n \<le> length b"
  by (auto simp: check_escape_def check_surrogate_pair_def hex4_def
      split: if_splits option.splits)

lemma utf8_seq_len_pos: "utf8_seq_len c = 0 \<or> 2 \<le> utf8_seq_len c"
  by (simp add: utf8_seq_len_def)

function literal_scan :: "bytes \<Rightarrow> nat \<Rightarrow> nat res" where
  "literal_scan b i =
     (case b of
        [] \<Rightarrow> Inl StringNotScalarError
      | c # r \<Rightarrow>
          if c = 34 then Inr (i + 1)
          else if c = 92 then
            (case check_escape b of Inl e \<Rightarrow> Inl e | Inr n \<Rightarrow> literal_scan (drop n b) (i + n))
          else if c < 32 then Inl StringNotScalarError
          else if c < 128 then literal_scan r (i + 1)
          else (let size = utf8_seq_len c
                in if size = 0 \<or> length b < size then Inl StringNotScalarError
                   else (case utf8_decode (take size b) of
                           Some [ch] \<Rightarrow>
                             if is_noncharacter ch then Inl StringNotScalarError
                             else literal_scan (drop size b) (i + size)
                         | _ \<Rightarrow> Inl StringNotScalarError)))"
  by pat_completeness auto
termination
  by (relation "measure (\<lambda>(b, i). length b)")
     (auto dest: check_escape_span simp: utf8_seq_len_def split: if_splits)

declare literal_scan.simps [simp del]

definition check_string_literal :: "bytes \<Rightarrow> nat res" where
  "check_string_literal b = literal_scan (drop 1 b) 1"

text \<open>A literal's span is at least its two quotes and stays inside the bytes.\<close>

lemma literal_scan_span: "literal_scan b i = Inr n \<Longrightarrow> i < n \<and> n \<le> i + length b"
proof (induction b i arbitrary: n rule: literal_scan.induct)
  case (1 b i)
  show ?case
  proof (cases b)
    case Nil
    with "1.prems" show ?thesis by (simp add: literal_scan.simps)
  next
    case (Cons c r)
    consider "c = 34" | "c = 92" | "c \<noteq> 34" "c \<noteq> 92" "32 \<le> c" "c < 128"
      | "c \<noteq> 34" "c \<noteq> 92" "c < 32" | "128 \<le> c" by linarith
    then show ?thesis
    proof cases
      case 2
      with "1.prems" Cons obtain k where k: "check_escape b = Inr k"
        and s: "literal_scan (drop k b) (i + k) = Inr n"
        by (subst (asm) literal_scan.simps) (auto split: sum.splits)
      have "c \<noteq> 34" using 2 by simp
      from "1.IH"(1) [OF Cons this 2 k s] check_escape_span [OF k] show ?thesis by auto
    next
      case 3
      with "1.prems" Cons have s: "literal_scan r (i + 1) = Inr n"
        by (subst (asm) literal_scan.simps) auto
      from "1.IH"(2) [OF Cons _ _ _ _ s] 3 Cons show ?thesis by auto
    next
      case 5
      then have c: "c \<noteq> 34" "c \<noteq> 92" "\<not> c < 32" "\<not> c < 128" by auto
      with "1.prems" Cons obtain ch where
        z: "\<not> (utf8_seq_len c = 0 \<or> length b < utf8_seq_len c)"
        and d: "utf8_decode (take (utf8_seq_len c) b) = Some [ch]" "\<not> is_noncharacter ch"
        and s: "literal_scan (drop (utf8_seq_len c) b) (i + utf8_seq_len c) = Inr n"
        by (subst (asm) literal_scan.simps)
           (auto simp: Let_def split: option.splits list.splits if_splits)
      from "1.IH"(3) [OF Cons c refl z d(1) refl _ d(2) s] z show ?thesis by auto
    next
      case 1
      with "1.prems" Cons show ?thesis by (subst (asm) literal_scan.simps) simp
    next
      case 4
      with "1.prems" Cons show ?thesis by (subst (asm) literal_scan.simps) simp
    qed
  qed
qed

lemma check_string_literal_span:
  assumes "check_string_literal b = Inr n" "b \<noteq> []"
  shows "2 \<le> n \<and> n \<le> length b"
proof -
  have "1 < n \<and> n \<le> 1 + length (drop 1 b)"
    using assms(1) unfolding check_string_literal_def by (rule literal_scan_span)
  with assms(2) show ?thesis by (cases b) auto
qed

function check_string_scalars :: "bytes \<Rightarrow> unit res" where
  "check_string_scalars raw =
     (case raw of
        [] \<Rightarrow> Inr ()
      | c # r \<Rightarrow>
          if c \<noteq> 34 then check_string_scalars r
          else (case check_string_literal raw of
                  Inl e \<Rightarrow> Inl e
                | Inr n \<Rightarrow> check_string_scalars (drop n raw)))"
  by pat_completeness auto
termination
  by (relation "measure length") (auto dest: check_string_literal_span)

declare check_string_scalars.simps [simp del]

section \<open>What the scan accepts\<close>

text \<open>The code points a \<open>\u\<close> escape may name.\<close>

lemma check_escape_ok_cp:
  assumes "check_escape b = Inr n" "b ! 1 = 117"
  shows "\<exists>hi. hex4 (drop 2 b) = Some hi \<and>
    (n = 6 \<and> \<not> surrogate hi \<and> \<not> is_noncharacter hi \<or>
     n = 12 \<and> 55296 \<le> hi \<and> hi < 56320 \<and>
       (\<exists>lo. hex4 (drop 8 b) = Some lo \<and> 56320 \<le> lo \<and> lo < 57344 \<and>
         \<not> is_noncharacter (65536 + (hi - 55296) * 1024 + (lo - 56320))))"
  using assms
  by (auto simp: check_escape_def check_surrogate_pair_def surrogate_def
      split: if_splits option.splits)

lemma literal_scan_quote [simp]: "literal_scan (34 # r) i = Inr (i + 1)"
  by (simp add: literal_scan.simps)

lemma literal_scan_ascii:
  "c \<noteq> 34 \<Longrightarrow> c \<noteq> 92 \<Longrightarrow> 32 \<le> c \<Longrightarrow> c < 128 \<Longrightarrow> literal_scan (c # r) i = literal_scan r (i + 1)"
  by (simp add: literal_scan.simps)

lemma literal_scan_escape:
  "check_escape (92 # r) = Inr n \<Longrightarrow>
   literal_scan (92 # r) i = literal_scan (drop n (92 # r)) (i + n)"
  by (simp add: literal_scan.simps)

lemma utf8_seq_len_cp: "scalar c \<Longrightarrow> 128 \<le> c \<Longrightarrow> utf8_seq_len (hd (utf8_cp c)) = length (utf8_cp c)"
  by (auto simp: utf8_seq_len_def utf8_cp_def scalar_def)

lemma utf8_cp_hd: "128 \<le> c \<Longrightarrow> 128 \<le> hd (utf8_cp c)"
  by (auto simp: utf8_cp_def)

lemma literal_scan_cp:
  assumes "scalar c" "128 \<le> c" "\<not> is_noncharacter c"
  shows "literal_scan (utf8_cp c @ r) i = literal_scan r (i + length (utf8_cp c))"
proof -
  obtain h t where ht: "utf8_cp c = h # t" by (cases "utf8_cp c") auto
  have h: "128 \<le> h" "utf8_seq_len h = length (utf8_cp c)"
    using utf8_cp_hd [OF assms(2)] utf8_seq_len_cp [OF assms(1,2)] ht by auto
  have "utf8_decode (utf8_cp c) = Some [c]"
    using utf8_decode_cp [OF assms(1), of "[]"] by simp
  with h assms ht show ?thesis
    by (subst literal_scan.simps) (simp add: Let_def)
qed

end
