(* ===== verification/Jcs.thy ===== *)
theory Jcs
  imports Unicode "HOL-Library.Multiset"
begin

text \<open>
  RFC 8785 canonical JSON as the reference verifier writes it (\<open>jcs_dumps\<close> of
  \<open>packaging/run_vectors.py\<close>): string escapes, integral floats as integers, members sorted by
  their UTF-16 code units. The lemmas say that the text does not depend on the order of a
  dictionary's members and that serializing a value and serializing its normal form are the same.
\<close>

section \<open>Serialization\<close>

definition jcs_escape :: "nat \<Rightarrow> ustr" where
  "jcs_escape c =
     (if c = 8 then [92, 98] else if c = 9 then [92, 116] else if c = 10 then [92, 110]
      else if c = 12 then [92, 102] else if c = 13 then [92, 114]
      else [92, 117, 48, 48, hex_digit (c div 16), hex_digit (c mod 16)])"

definition jcs_char :: "nat \<Rightarrow> ustr" where
  "jcs_char c =
     (if c = 34 then [92, 34]
      else if c = 92 then [92, 92]
      else if c < 32 then jcs_escape c
      else [c])"

definition jcs_string :: "ustr \<Rightarrow> ustr" where
  "jcs_string s = [34] @ concat (map jcs_char s) @ [34]"

definition SAFE_INT_LIMIT :: int where
  "SAFE_INT_LIMIT = 2 ^ 53"

fun float_is_integer :: "pyfloat \<Rightarrow> bool" where
  "float_is_integer (Fin m e) = (0 \<le> e \<or> 2 ^ nat (- e) dvd m)"
| "float_is_integer _ = False"

fun float_to_int :: "pyfloat \<Rightarrow> int" where
  "float_to_int (Fin m e) = (if 0 \<le> e then m * 2 ^ nat e else m div 2 ^ nat (- e))"
| "float_to_int _ = 0"

definition jcs_float :: "pyfloat \<Rightarrow> ustr res" where
  "jcs_float v =
     (if \<not> float_is_integer v then Inl JcsError
      else if SAFE_INT_LIMIT \<le> \<bar>float_to_int v\<bar> then Inl JcsError
      else Inr (int_str (float_to_int v)))"

definition member_order :: "(ustr \<times> 'a) list \<Rightarrow> (ustr \<times> 'a) list" where
  "member_order d = sort_key (\<lambda>p. utf16_bytes (fst p)) d"

text \<open>
  \<open>sorted(v.keys(), key=_utf16_sort_key)\<close> encodes every key before a value is serialized, so a
  surrogate in a key is the first exception; then the members are written in that order.
\<close>

fun ser :: "json \<Rightarrow> ustr res" where
  "ser JNull = Inr (u ''null'')"
| "ser (JBool True) = Inr (u ''true'')"
| "ser (JBool False) = Inr (u ''false'')"
| "ser (JInt i) = Inr (int_str i)"
| "ser (JFloat f) = jcs_float f"
| "ser (JStr s) = Inr (jcs_string s)"
| "ser (JArr xs) = bindr (mapr ser xs) (\<lambda>ps. Inr ([91] @ join_with [44] ps @ [93]))"
| "ser (JObj d) =
     (if list_ex (\<lambda>(k, v). has_surrogate k) d then Inl UnicodeEncodeError
      else bindr (mapr (\<lambda>(k, r). bindr r (\<lambda>t. Inr (jcs_string k @ [58] @ t)))
                       (member_order (map (\<lambda>(k, v). (k, ser v)) d)))
             (\<lambda>ps. Inr ([123] @ join_with [44] ps @ [125])))"

definition jcs_dumps :: "json \<Rightarrow> bytes res" where
  "jcs_dumps v = bindr (ser v) utf8_encode"

text \<open>\<open>_member_names_bmp\<close>.\<close>

fun member_names_bmp :: "json \<Rightarrow> bool" where
  "member_names_bmp (JObj d) = list_all (\<lambda>(k, v). all_bmp [k] \<and> member_names_bmp v) d"
| "member_names_bmp (JArr xs) = list_all member_names_bmp xs"
| "member_names_bmp _ = True"

section \<open>Order independence\<close>

lemma member_order_map: "member_order (map (\<lambda>(k, v). (k, f v)) d) = map (\<lambda>(k, v). (k, f v)) (member_order d)"
proof -
  have "insort_key (\<lambda>p. utf16_bytes (fst p)) (k, f v) (map (\<lambda>(k, v). (k, f v)) e)
        = map (\<lambda>(k, v). (k, f v)) (insort_key (\<lambda>p. utf16_bytes (fst p)) (k, v) e)" for k v e
    by (induction e) auto
  then show ?thesis by (induction d) (auto simp: member_order_def)
qed

lemma set_member_order [simp]: "set (member_order d) = set d"
  by (simp add: member_order_def)

lemma mset_member_order [simp]: "mset (member_order d) = mset d"
  by (simp add: member_order_def)

lemma distinct_member_order [simp]:
  "distinct (map fst (member_order d)) \<longleftrightarrow> distinct (map fst d)"
  by (rule mset_eq_imp_distinct_iff) simp

lemma list_all_member_order [simp]: "list_all P (member_order d) \<longleftrightarrow> list_all P d"
  by (simp add: list_all_iff)

text \<open>With distinct scalar keys the order of the members is determined by the keys.\<close>

lemma member_order_unique:
  assumes "mset d = mset e" and "distinct (map fst d)"
    and "list_all (\<lambda>p. list_all scalar (fst p)) d"
  shows "member_order d = member_order e"
proof -
  let ?k = "\<lambda>p. utf16_bytes (fst p)"
  have "inj_on ?k (set d)"
  proof (rule inj_onI)
    fix p q assume pq: "p \<in> set d" "q \<in> set d" and k: "?k p = ?k q"
    from assms(3) pq have "list_all scalar (fst p)" "list_all scalar (fst q)"
      by (simp_all add: list_all_iff)
    then have "fst p = fst q" using k by (rule utf16_bytes_inj)
    with pq assms(2) show "p = q" by (metis distinct_map inj_onD)
  qed
  with assms(1) show ?thesis
    unfolding member_order_def by (rule sort_key_eq_sort_key)
qed

text \<open>
  The normal form of a value without floats: every dictionary's members in canonical order.
\<close>

fun norm :: "json \<Rightarrow> json" where
  "norm (JArr xs) = JArr (map norm xs)"
| "norm (JObj d) = JObj (member_order (map (\<lambda>(k, v). (k, norm v)) d))"
| "norm v = v"

lemma mapr_map: "mapr f (map g xs) = mapr (\<lambda>x. f (g x)) xs"
  by (induction xs) auto

lemma member_order_idem [simp]: "member_order (member_order d) = member_order d"
  unfolding member_order_def by (rule sort_key_id_if_sorted) simp

lemma member_order_map_snd:
  "member_order (map (\<lambda>(k, v). (k, f v)) (member_order d)) = member_order (map (\<lambda>(k, v). (k, f v)) d)"
  by (simp add: member_order_map)

lemma ser_norm: "ser (norm v) = ser v"
proof (induction v)
  case (JArr xs)
  then have "mapr (\<lambda>x. ser (norm x)) xs = mapr ser xs" by (intro mapr_cong) auto
  then show ?case by (simp add: mapr_map)
next
  case (JObj d)
  let ?n = "map (\<lambda>(k, v). (k, norm v)) d"
  have "map (\<lambda>(k, v). (k, ser v)) ?n = map (\<lambda>(k, v). (k, ser v)) d"
    using JObj.IH by (auto simp: comp_def)
  then have "member_order (map (\<lambda>(k, v). (k, ser v)) (member_order ?n))
      = member_order (map (\<lambda>(k, v). (k, ser v)) d)"
    by (simp only: member_order_map_snd)
  moreover have "list_ex (\<lambda>(k, v). has_surrogate k) (member_order ?n)
      = list_ex (\<lambda>(k, v). has_surrogate k) d"
    by (simp add: list_ex_iff split_beta)
  ultimately show ?case by (simp only: norm.simps ser.simps)
qed auto

lemma jcs_dumps_norm: "jcs_dumps (norm v) = jcs_dumps v"
  by (simp add: jcs_dumps_def ser_norm)

lemma norm_permuted:
  assumes "mset d = mset e" and "distinct (map fst d)" and "list_all (\<lambda>p. list_all scalar (fst p)) d"
  shows "norm (JObj d) = norm (JObj e)"
proof -
  let ?f = "\<lambda>(k, v). (k, norm v)"
  have "mset (map ?f d) = mset (map ?f e)" using assms(1) by simp
  moreover have "map fst (map ?f d) = map fst d" by auto
  moreover have "list_all (\<lambda>p. list_all scalar (fst p)) (map ?f d)"
    using assms(3) by (auto simp: list_all_iff)
  ultimately have "member_order (map ?f d) = member_order (map ?f e)"
    using assms(2) by (intro member_order_unique) (simp_all only: set_map mset_map)
  then show ?thesis by simp
qed

end
