(* ===== verification/JsonText.thy ===== *)
theory JsonText
  imports Scalars Jcs
begin

text \<open>
  \<open>json.loads(text, object_pairs_hook=.., parse_float=..)\<close> on a \<open>str\<close>: CPython's scanner with its
  two hooks as arguments. A syntax error is \<open>ValueError\<close> (\<open>JSONDecodeError\<close> is one), and so is an
  integer literal of more than 4300 digits. Nesting is bounded by fuel; \<open>loads\<close> passes twice the
  length of the text, which \<open>pv_fuel\<close> shows is always enough, so \<open>RecursionError\<close> is never an answer
  of the model (the callers bound the depth of the text before they parse it).
\<close>

section \<open>Tokens\<close>

definition is_ws :: "nat \<Rightarrow> bool" where
  "is_ws c \<longleftrightarrow> c = 32 \<or> c = 9 \<or> c = 10 \<or> c = 13"

definition skip_ws :: "ustr \<Rightarrow> ustr" where
  "skip_ws s = dropWhile is_ws s"

definition simple_escape :: "nat \<Rightarrow> nat option" where
  "simple_escape c =
     (if c = 34 \<or> c = 92 \<or> c = 47 then Some c
      else if c = 98 then Some 8 else if c = 102 then Some 12
      else if c = 110 then Some 10 else if c = 114 then Some 13
      else if c = 116 then Some 9 else None)"

text \<open>
  A high surrogate followed by the escape of a low one is one code point; otherwise the escape
  stands for itself and what follows it is scanned on its own.
\<close>

definition low_half :: "ustr \<Rightarrow> nat option" where
  "low_half s =
     (if take 2 s = [92, 117] then
        (case hex4 (drop 2 s) of
           Some lo \<Rightarrow> if 56320 \<le> lo \<and> lo < 57344 then Some lo else None
         | None \<Rightarrow> None)
      else None)"

definition unicode_escape :: "ustr \<Rightarrow> (nat \<times> ustr) res" where
  "unicode_escape s =
     (case hex4 s of
        None \<Rightarrow> Inl ValueError
      | Some c \<Rightarrow>
          if 55296 \<le> c \<and> c < 56320 then
            (case low_half (drop 4 s) of
               Some lo \<Rightarrow> Inr (65536 + (c - 55296) * 1024 + (lo - 56320), drop 10 s)
             | None \<Rightarrow> Inr (c, drop 4 s))
          else Inr (c, drop 4 s))"

lemma unicode_escape_drop: "unicode_escape s = Inr (c, r) \<Longrightarrow> length r < length s"
  by (auto simp: unicode_escape_def hex4_def split: option.splits if_splits)

text \<open>\<open>scanstring\<close> from the character after the opening quote.\<close>

function scan_string :: "ustr \<Rightarrow> (ustr \<times> ustr) res" where
  "scan_string s =
     (case s of
        [] \<Rightarrow> Inl ValueError
      | c # r \<Rightarrow>
          if c = 34 then Inr ([], r)
          else if c = 92 then
            (case r of
               [] \<Rightarrow> Inl ValueError
             | e # r1 \<Rightarrow>
                 if e = 117 then
                   (case unicode_escape r1 of
                      Inl x \<Rightarrow> Inl x
                    | Inr (ch, r2) \<Rightarrow> bindr (scan_string r2) (\<lambda>(t, z). Inr (ch # t, z)))
                 else
                   (case simple_escape e of
                      None \<Rightarrow> Inl ValueError
                    | Some ch \<Rightarrow> bindr (scan_string r1) (\<lambda>(t, z). Inr (ch # t, z))))
          else if c < 32 then Inl ValueError
          else bindr (scan_string r) (\<lambda>(t, z). Inr (c # t, z)))"
  by pat_completeness auto
termination
  by (relation "measure length") (auto dest: unicode_escape_drop)

declare scan_string.simps [simp del]

text \<open>
  \<open>-?(0|[1-9][0-9]*)(\.[0-9]+)?([eE][-+]?[0-9]+)?\<close>, as the lexeme's parts: sign, integer digits,
  fraction digits (empty when there is no fraction), signed exponent digits. The lexeme is a float
  when it has a fraction or an exponent.
\<close>

record number =
  num_neg :: bool
  num_int :: ustr
  num_frac :: ustr
  num_exp :: "(bool \<times> ustr) option"

definition lex_int :: "ustr \<Rightarrow> (ustr \<times> ustr) option" where
  "lex_int s =
     (case s of
        [] \<Rightarrow> None
      | c # r \<Rightarrow>
          if c = 48 then Some ([48], r)
          else if is_digit c then Some (takeWhile is_digit s, dropWhile is_digit s)
          else None)"

definition lex_frac :: "ustr \<Rightarrow> ustr \<times> ustr" where
  "lex_frac s =
     (case s of
        c # d # r \<Rightarrow>
          if c = 46 \<and> is_digit d then (takeWhile is_digit (d # r), dropWhile is_digit (d # r))
          else ([], s)
      | _ \<Rightarrow> ([], s))"

definition lex_exp :: "ustr \<Rightarrow> (bool \<times> ustr) option \<times> ustr" where
  "lex_exp s =
     (case s of
        [] \<Rightarrow> (None, s)
      | c # r \<Rightarrow>
          if c = 101 \<or> c = 69 then
            (let neg = (r \<noteq> [] \<and> hd r = 45);
                 r1 = (if r \<noteq> [] \<and> (hd r = 45 \<or> hd r = 43) then tl r else r);
                 ds = takeWhile is_digit r1
             in if ds = [] then (None, s) else (Some (neg, ds), dropWhile is_digit r1))
          else (None, s))"

definition lex_number :: "ustr \<Rightarrow> (number \<times> ustr) option" where
  "lex_number s =
     (let neg = (s \<noteq> [] \<and> hd s = 45); s1 = (if neg then tl s else s)
      in case lex_int s1 of
           None \<Rightarrow> None
         | Some (ip, s2) \<Rightarrow>
             (case lex_frac s2 of (fp, s3) \<Rightarrow>
               (case lex_exp s3 of (ex, s4) \<Rightarrow>
                 Some (\<lparr>num_neg = neg, num_int = ip, num_frac = fp, num_exp = ex\<rparr>, s4))))"

definition is_float_lexeme :: "number \<Rightarrow> bool" where
  "is_float_lexeme n \<longleftrightarrow> num_frac n \<noteq> [] \<or> num_exp n \<noteq> None"

definition MAX_STR_DIGITS :: nat where
  "MAX_STR_DIGITS = 4300"

text \<open>\<open>int(s)\<close> of an integer lexeme.\<close>

definition int_lexeme :: "number \<Rightarrow> json res" where
  "int_lexeme n =
     (if MAX_STR_DIGITS < length (num_int n) then Inl ValueError
      else Inr (JInt ((if num_neg n then -1 else 1) * int (digits_value 0 (num_int n)))))"

section \<open>Values\<close>

text \<open>\<open>object_pairs_hook\<close> and \<open>parse_float\<close>.\<close>

record hooks =
  pairs_hook :: "(ustr \<times> json) list \<Rightarrow> json res"
  float_hook :: "number \<Rightarrow> json res"

definition scan_number :: "hooks \<Rightarrow> ustr \<Rightarrow> (json \<times> ustr) res" where
  "scan_number h s =
     (case lex_number s of
        None \<Rightarrow> Inl ValueError
      | Some (n, r) \<Rightarrow>
          bindr (if is_float_lexeme n then float_hook h n else int_lexeme n) (\<lambda>v. Inr (v, r)))"

definition starts :: "ustr \<Rightarrow> ustr \<Rightarrow> bool" where
  "starts p s \<longleftrightarrow> take (length p) s = p"

text \<open>The literal names, and the three constants \<open>parse_constant\<close> maps to floats.\<close>

definition scan_constant :: "ustr \<Rightarrow> (json \<times> ustr) option" where
  "scan_constant s =
     (if starts (u ''null'') s then Some (JNull, drop 4 s)
      else if starts (u ''true'') s then Some (JBool True, drop 4 s)
      else if starts (u ''false'') s then Some (JBool False, drop 5 s)
      else if starts (u ''NaN'') s then Some (JFloat NaN, drop 3 s)
      else if starts (u ''Infinity'') s then Some (JFloat PInf, drop 8 s)
      else if starts (u ''-Infinity'') s then Some (JFloat NInf, drop 9 s)
      else None)"

lemma starts_char [simp]: "starts [c] (d # r) \<longleftrightarrow> d = c" "\<not> starts [c] []"
  by (auto simp: starts_def)

fun pv :: "hooks \<Rightarrow> nat \<Rightarrow> ustr \<Rightarrow> (json \<times> ustr) res"
  and pelems :: "hooks \<Rightarrow> nat \<Rightarrow> ustr \<Rightarrow> (json list \<times> ustr) res"
  and pmembers :: "hooks \<Rightarrow> nat \<Rightarrow> ustr \<Rightarrow> ((ustr \<times> json) list \<times> ustr) res" where
  "pv h 0 s = Inl RecursionError"
| "pv h (Suc n) s =
     (if starts [34] s then bindr (scan_string (tl s)) (\<lambda>(t, z). Inr (JStr t, z))
      else if starts [123] s then
        (if starts [125] (skip_ws (tl s)) then
           bindr (pairs_hook h []) (\<lambda>v. Inr (v, tl (skip_ws (tl s))))
         else
           bindr (pmembers h n (skip_ws (tl s))) (\<lambda>(ps, z).
             bindr (pairs_hook h ps) (\<lambda>v. Inr (v, z))))
      else if starts [91] s then
        (if starts [93] (skip_ws (tl s)) then Inr (JArr [], tl (skip_ws (tl s)))
         else bindr (pelems h n (skip_ws (tl s))) (\<lambda>(vs, z). Inr (JArr vs, z)))
      else (case scan_constant s of
              Some vz \<Rightarrow> Inr vz
            | None \<Rightarrow> scan_number h s))"
| "pelems h 0 s = Inl RecursionError"
| "pelems h (Suc n) s =
     bindr (pv h n s) (\<lambda>(v, r).
       if starts [93] (skip_ws r) then Inr ([v], tl (skip_ws r))
       else if starts [44] (skip_ws r) then
         bindr (pelems h n (skip_ws (tl (skip_ws r)))) (\<lambda>(vs, z). Inr (v # vs, z))
       else Inl ValueError)"
| "pmembers h 0 s = Inl RecursionError"
| "pmembers h (Suc n) s =
     (if \<not> starts [34] s then Inl ValueError
      else bindr (scan_string (tl s)) (\<lambda>(k, r1).
        if \<not> starts [58] (skip_ws r1) then Inl ValueError
        else bindr (pv h n (skip_ws (tl (skip_ws r1)))) (\<lambda>(v, r).
          if starts [125] (skip_ws r) then Inr ([(k, v)], tl (skip_ws r))
          else if starts [44] (skip_ws r) then
            bindr (pmembers h n (skip_ws (tl (skip_ws r)))) (\<lambda>(ps, z). Inr ((k, v) # ps, z))
          else Inl ValueError)))"

text \<open>\<open>json.loads\<close>: a leading byte order mark and anything but white space after the value are
  syntax errors.\<close>

definition loads :: "hooks \<Rightarrow> ustr \<Rightarrow> json res" where
  "loads h s =
     (if s \<noteq> [] \<and> hd s = 65279 then Inl ValueError
      else bindr (pv h (2 * length s + 2) (skip_ws s)) (\<lambda>(v, r).
             if skip_ws r = [] then Inr v else Inl ValueError))"

end
