(* ===== verification/Timestamp.thy ===== *)
theory Timestamp
  imports JsonText
begin

text \<open>
  The two carried timestamps and the lowercase digests of \<open>packaging/run_vectors.py\<close>: \<open>HEX64_RE\<close>,
  \<open>RFC3339_RE\<close>, \<open>_rfc3339_key\<close> and \<open>_timestamp_ok\<close>.
\<close>

section \<open>Lowercase hex digests\<close>

definition is_lower_hex :: "nat \<Rightarrow> bool" where
  "is_lower_hex c \<longleftrightarrow> is_digit c \<or> 97 \<le> c \<and> c \<le> 102"

text \<open>\<open>$\<close> matches at the end of the string and before a newline that ends it.\<close>

definition at_end :: "ustr \<Rightarrow> bool" where
  "at_end s \<longleftrightarrow> s = [] \<or> s = [10]"

definition hex64_match :: "ustr \<Rightarrow> bool" where
  "hex64_match s \<longleftrightarrow> 64 \<le> length s \<and> list_all is_lower_hex (take 64 s) \<and> at_end (drop 64 s)"

fun is_hex64_lower :: "json \<Rightarrow> bool" where
  "is_hex64_lower (JStr s) = hex64_match s"
| "is_hex64_lower _ = False"

section \<open>RFC 3339\<close>

text \<open>
  The pattern, as its parts: the date and time digits, the fraction digits and the zone. A character
  class \<open>\d\<close> of the pattern admits any Unicode digit; \<open>fromisoformat\<close> refuses all but the ASCII ones,
  and no caller uses the pattern without it.
\<close>

record stamp =
  ts_year :: nat
  ts_month :: nat
  ts_day :: nat
  ts_hour :: nat
  ts_min :: nat
  ts_sec :: nat
  ts_frac :: ustr
  ts_zone :: "(bool \<times> nat \<times> nat) option"

definition two_digits :: "ustr \<Rightarrow> nat option" where
  "two_digits s =
     (if length s = 2 \<and> list_all is_digit s then Some (digits_value 0 s) else None)"

definition four_digits :: "ustr \<Rightarrow> nat option" where
  "four_digits s =
     (if length s = 4 \<and> list_all is_digit s then Some (digits_value 0 s) else None)"

text \<open>\<open>(Z|[+-]\d{2}:\d{2})$\<close>: the sign is \<open>True\<close> for a minus.\<close>

definition match_zone :: "ustr \<Rightarrow> (bool \<times> nat \<times> nat) option option" where
  "match_zone s =
     (if starts [90] s \<and> at_end (tl s) then Some None
      else if (starts [43] s \<or> starts [45] s) \<and> take 1 (drop 3 s) = [58] \<and> at_end (drop 6 s) then
        (case (two_digits (take 2 (drop 1 s)), two_digits (take 2 (drop 4 s))) of
           (Some h, Some m) \<Rightarrow> Some (Some (starts [45] s, h, m))
         | _ \<Rightarrow> None)
      else None)"

definition match_tail :: "ustr \<Rightarrow> (ustr \<times> (bool \<times> nat \<times> nat) option) option" where
  "match_tail s =
     (if starts [46] s then
        (let ds = takeWhile is_digit (tl s)
         in if ds = [] then None else map_option (Pair ds) (match_zone (dropWhile is_digit (tl s))))
      else map_option (Pair []) (match_zone s))"

definition rfc3339_match :: "ustr \<Rightarrow> stamp option" where
  "rfc3339_match s =
     (if [s ! i. i \<leftarrow> [4, 7, 10, 13, 16], i < length s] \<noteq> [45, 45, 84, 58, 58] then None
      else
        (case (four_digits (take 4 s), two_digits (take 2 (drop 5 s)), two_digits (take 2 (drop 8 s))) of
           (Some y, Some mo, Some d) \<Rightarrow>
             (case (two_digits (take 2 (drop 11 s)), two_digits (take 2 (drop 14 s)),
                    two_digits (take 2 (drop 17 s)), match_tail (drop 19 s)) of
                (Some h, Some mi, Some se, Some (fr, z)) \<Rightarrow>
                  Some \<lparr>ts_year = y, ts_month = mo, ts_day = d, ts_hour = h, ts_min = mi,
                        ts_sec = se, ts_frac = fr, ts_zone = z\<rparr>
              | _ \<Rightarrow> None)
         | _ \<Rightarrow> None))"

definition leap_year :: "nat \<Rightarrow> bool" where
  "leap_year y \<longleftrightarrow> y mod 4 = 0 \<and> (y mod 100 \<noteq> 0 \<or> y mod 400 = 0)"

definition days_in_month :: "nat \<Rightarrow> nat \<Rightarrow> nat" where
  "days_in_month y m =
     (if m = 2 then (if leap_year y then 29 else 28)
      else if m \<in> {4, 6, 9, 11} then 30 else 31)"

text \<open>\<open>datetime\<close>'s microseconds: the first six fraction digits, padded on the right.\<close>

definition microseconds :: "ustr \<Rightarrow> nat" where
  "microseconds fr = digits_value 0 (take 6 (fr @ replicate 6 48))"

definition zone_offset :: "(bool \<times> nat \<times> nat) option \<Rightarrow> int" where
  "zone_offset z =
     (case z of None \<Rightarrow> 0 | Some (neg, h, m) \<Rightarrow> (if neg then -1 else 1) * int (60 * h + m))"

text \<open>The calendar fields of an aware \<open>datetime\<close>, most significant first, with its offset in
  minutes.\<close>

record moment =
  mo_fields :: "nat list"
  mo_offset :: int

text \<open>
  \<open>_rfc3339_key\<close> of a string the pattern matched: \<open>strip\<close> drops the newline the pattern admits,
  \<open>fromisoformat\<close> refuses a field outside its range and an offset of a day or more.
\<close>

definition rfc3339_key :: "ustr \<Rightarrow> moment option" where
  "rfc3339_key v =
     (case rfc3339_match v of
        None \<Rightarrow> None
      | Some t \<Rightarrow>
          if 1 \<le> ts_year t \<and> 1 \<le> ts_month t \<and> ts_month t \<le> 12 \<and> 1 \<le> ts_day t \<and>
             ts_day t \<le> days_in_month (ts_year t) (ts_month t) \<and>
             ts_hour t \<le> 23 \<and> ts_min t \<le> 59 \<and> ts_sec t \<le> 59 \<and> \<bar>zone_offset (ts_zone t)\<bar> < 1440
          then Some \<lparr>mo_fields = [ts_year t, ts_month t, ts_day t, ts_hour t, ts_min t, ts_sec t,
                                 microseconds (ts_frac t)],
                     mo_offset = zone_offset (ts_zone t)\<rparr>
          else None)"

fun timestamp_ok :: "json \<Rightarrow> bool" where
  "timestamp_ok (JStr v) =
     (rfc3339_match v \<noteq> None \<and>
      (case rfc3339_key v of None \<Rightarrow> False | Some k \<Rightarrow> mo_offset k = 0))"
| "timestamp_ok _ = False"

text \<open>\<open>a > b\<close> of two aware datetimes whose offsets are zero.\<close>

definition later :: "ustr \<Rightarrow> ustr \<Rightarrow> bool" where
  "later a b =
     (case (rfc3339_key a, rfc3339_key b) of
        (Some x, Some y) \<Rightarrow> mo_fields x > mo_fields y
      | _ \<Rightarrow> False)"

lemma hex64_length: "hex64_match s \<Longrightarrow> length s = 64 \<or> length s = 65 \<and> last s = 10"
proof -
  assume s: "hex64_match s"
  then have l: "64 \<le> length s" and e: "drop 64 s = [] \<or> drop 64 s = [10]"
    by (auto simp: hex64_match_def at_end_def)
  from e show ?thesis
  proof
    assume d: "drop 64 s = [10]"
    then have "length (drop 64 s) = 1" "last (drop 64 s) = 10" by simp_all
    with l show ?thesis by (cases "64 < length s") (auto simp: last_drop)
  qed (use l in simp)
qed

lemma later_irrefl [simp]: "\<not> later a a"
  by (simp add: later_def split: option.splits)

lemma later_trans: "later a b \<Longrightarrow> later b c \<Longrightarrow> later a c"
  by (auto simp: later_def split: option.splits)

lemma timestamp_ok_date:
  assumes "timestamp_ok v"
  shows "\<exists>s t. v = JStr s \<and> rfc3339_match s = Some t \<and> zone_offset (ts_zone t) = 0 \<and>
    1 \<le> ts_month t \<and> ts_month t \<le> 12 \<and> 1 \<le> ts_day t \<and>
    ts_day t \<le> days_in_month (ts_year t) (ts_month t) \<and> ts_hour t \<le> 23 \<and> ts_sec t \<le> 59"
  using assms
  by (cases v) (auto simp: rfc3339_key_def split: option.splits if_splits)

text \<open>Both patterns admit a trailing newline.\<close>

lemma hex64_trailing_newline: "hex64_match s \<Longrightarrow> length s = 64 \<Longrightarrow> hex64_match (s @ [10])"
  by (simp add: hex64_match_def at_end_def)

lemma timestamp_trailing_newline: "timestamp_ok (JStr (u ''2026-01-02T03:04:05Z'' @ [10]))"
  by code_simp

end
