(* ===== verification/StrictParse.thy ===== *)
theory StrictParse
  imports JsonText
begin

text \<open>
  The strict payload parse of \<open>packaging/run_vectors.py\<close>: the I-JSON profile
  (\<open>parse_json_value\<close>: size, UTF-8, depth, no duplicate member, integers in the safe range, strings
  that denote scalar values) and the canonical form on top of it (\<open>strict_payload_parse\<close>).
\<close>

section \<open>Hooks\<close>

abbreviation ijson_error :: "'a res" where
  "ijson_error \<equiv> Inl (IJsonError ''payload-not-ijson'')"

abbreviation canonical_error :: "'a res" where
  "canonical_error \<equiv> Inl (IJsonError ''payload-not-canonical'')"

text \<open>
  \<open>decimal.Decimal(s)\<close> of a float lexeme is \<open>c * 10 ^ e\<close>. The constructor is exact: it raises
  \<open>InvalidOperation\<close> when the exponent of the value is above \<open>MAX_EMAX\<close> or the exponent of its last
  digit is below \<open>MIN_ETINY\<close>.
\<close>

definition dec_coeff :: "number \<Rightarrow> nat" where
  "dec_coeff n = digits_value 0 (num_int n @ num_frac n)"

definition dec_exp :: "number \<Rightarrow> int" where
  "dec_exp n =
     (case num_exp n of
        None \<Rightarrow> 0
      | Some (neg, ds) \<Rightarrow> (if neg then -1 else 1) * int (digits_value 0 ds))
     - int (length (num_frac n))"

definition MAX_EMAX :: int where
  "MAX_EMAX = 999999999999999999"

definition MIN_ETINY :: int where
  "MIN_ETINY = -1999999999999999997"

definition dec_representable :: "nat \<Rightarrow> int \<Rightarrow> bool" where
  "dec_representable c e \<longleftrightarrow> MIN_ETINY \<le> e \<and> e + int (length (nat_str c)) - 1 \<le> MAX_EMAX"

text \<open>
  \<open>d == d.to_integral_value()\<close> and \<open>-2^53 < d < 2^53\<close>, neither of which expands the exponent: a
  nonzero \<open>c\<close> with fewer digits than \<open>-e\<close> is not integral, and one with \<open>e > 16\<close> is not below
  \<open>2 ^ 53\<close>.
\<close>

definition dec_integral :: "nat \<Rightarrow> int \<Rightarrow> bool" where
  "dec_integral c e \<longleftrightarrow>
     0 \<le> e \<or> c = 0 \<or> (nat (- e) \<le> length (nat_str c) \<and> 10 ^ nat (- e) dvd c)"

definition dec_int :: "nat \<Rightarrow> int \<Rightarrow> int" where
  "dec_int c e =
     (if c = 0 then 0 else if 0 \<le> e then int c * 10 ^ nat e else int c div 10 ^ nat (- e))"

definition dec_safe :: "nat \<Rightarrow> int \<Rightarrow> bool" where
  "dec_safe c e \<longleftrightarrow> c = 0 \<or> (e \<le> 16 \<and> dec_int c e < SAFE_INT_LIMIT)"

definition safe_integer_literal :: "number \<Rightarrow> json res" where
  "safe_integer_literal n =
     (let c = dec_coeff n; e = dec_exp n
      in if \<not> dec_representable c e then Inl DecimalInvalidOperation
         else if \<not> dec_integral c e then ijson_error
         else if \<not> dec_safe c e then ijson_error
         else Inr (JInt ((if num_neg n then -1 else 1) * dec_int c e)))"

fun reject_dup_pairs :: "jdict \<Rightarrow> (ustr \<times> json) list \<Rightarrow> json res" where
  "reject_dup_pairs d [] = Inr (JObj d)"
| "reject_dup_pairs d ((k, v) # ps) =
     (if has_key d k then ijson_error else reject_dup_pairs (dset d k v) ps)"

definition strict_hooks :: hooks where
  "strict_hooks = \<lparr>pairs_hook = reject_dup_pairs [], float_hook = safe_integer_literal\<rparr>"

section \<open>Checks on the parsed value and on the text\<close>

fun walk_check_ints :: "json \<Rightarrow> unit res" where
  "walk_check_ints (JInt i) = (if SAFE_INT_LIMIT \<le> \<bar>i\<bar> then ijson_error else Inr ())"
| "walk_check_ints (JFloat f) = ijson_error"
| "walk_check_ints (JArr xs) = bindr (mapr walk_check_ints xs) (\<lambda>_. Inr ())"
| "walk_check_ints (JObj d) = bindr (mapr (\<lambda>(k, v). walk_check_ints v) d) (\<lambda>_. Inr ())"
| "walk_check_ints _ = Inr ()"

definition MAX_PARSE_DEPTH :: int where
  "MAX_PARSE_DEPTH = 128"

definition MAX_PARSE_BYTES :: nat where
  "MAX_PARSE_BYTES = 20 * 2 ^ 20"

record depth_state =
  ds_depth :: int
  ds_max :: int
  ds_in_str :: bool
  ds_esc :: bool

definition depth_step :: "depth_state \<Rightarrow> nat \<Rightarrow> depth_state" where
  "depth_step st ch =
     (if ds_in_str st then
        (if ds_esc st then st\<lparr>ds_esc := False\<rparr>
         else if ch = 92 then st\<lparr>ds_esc := True\<rparr>
         else if ch = 34 then st\<lparr>ds_in_str := False\<rparr>
         else st)
      else if ch = 34 then st\<lparr>ds_in_str := True\<rparr>
      else if ch = 91 \<or> ch = 123 then
        st\<lparr>ds_depth := ds_depth st + 1, ds_max := max (ds_max st) (ds_depth st + 1)\<rparr>
      else if ch = 93 \<or> ch = 125 then st\<lparr>ds_depth := ds_depth st - 1\<rparr>
      else st)"

definition max_json_depth :: "ustr \<Rightarrow> int" where
  "max_json_depth text =
     ds_max (foldl depth_step \<lparr>ds_depth = 0, ds_max = 0, ds_in_str = False, ds_esc = False\<rparr> text)"

section \<open>The parse\<close>

definition parse_json_value :: "bytes \<Rightarrow> json res" where
  "parse_json_value raw =
     (if MAX_PARSE_BYTES < length raw then ijson_error
      else case utf8_decode raw of
        None \<Rightarrow> ijson_error
      | Some text \<Rightarrow>
          if MAX_PARSE_DEPTH < max_json_depth text then ijson_error
          else
            bindr (exceptr (loads strict_hooks text)
                     (\<lambda>e. (is_value_error e \<or> e = RecursionError) \<and> \<not> is_ijson_error e)
                     ijson_error)
              (\<lambda>obj. bindr (exceptr (check_string_scalars raw) (\<lambda>e. e = StringNotScalarError)
                              ijson_error)
                (\<lambda>_. Inr obj)))"

definition strict_payload_parse :: "bytes \<Rightarrow> jdict res" where
  "strict_payload_parse raw =
     bindr (parse_json_value raw) (\<lambda>obj.
       if \<not> is_dict obj then canonical_error
       else if \<not> member_names_bmp obj then canonical_error
       else bindr (walk_check_ints obj) (\<lambda>_.
         bindr (exceptr (jcs_dumps obj) (\<lambda>e. e = JcsError) ijson_error) (\<lambda>canon.
           if canon \<noteq> raw then canonical_error else Inr (as_dict obj))))"

section \<open>Soundness\<close>

text \<open>What the strict parse accepts is the canonical serialization of what it returns.\<close>

lemma strict_payload_parse_canonical:
  "strict_payload_parse raw = Inr d \<Longrightarrow> jcs_dumps (JObj d) = Inr raw"
  by (auto simp: strict_payload_parse_def res_iff is_dict_iff split: if_splits)

lemma strict_payload_parse_names:
  "strict_payload_parse raw = Inr d \<Longrightarrow>
   member_names_bmp (JObj d) \<and> walk_check_ints (JObj d) = Inr () \<and>
   parse_json_value raw = Inr (JObj d)"
  by (auto simp: strict_payload_parse_def bindr_Inr_iff is_dict_iff split: if_splits)

lemma reject_dup_pairs_distinct:
  "reject_dup_pairs d ps = Inr v \<Longrightarrow> distinct (map fst d) \<Longrightarrow>
   \<exists>e. v = JObj e \<and> distinct (map fst e)"
  by (induction d ps arbitrary: v rule: reject_dup_pairs.induct)
     (auto split: if_splits simp: distinct_dset)

lemma dset_new: "\<not> has_key d k \<Longrightarrow> dset d k v = d @ [(k, v)]"
  by (induction d k v rule: dset.induct) auto

lemma has_key_append [simp]: "has_key (d @ e) k \<longleftrightarrow> has_key d k \<or> has_key e k"
  by (auto simp: has_key_iff image_Un)

lemma reject_dup_pairs_ok:
  "distinct (map fst ps) \<Longrightarrow> (\<And>k. has_key d k \<Longrightarrow> k \<notin> fst ` set ps) \<Longrightarrow>
   reject_dup_pairs d ps = Inr (JObj (d @ ps))"
proof (induction d ps rule: reject_dup_pairs.induct)
  case (2 d k v ps)
  then have "\<not> has_key d k" by auto
  with 2 show ?case by (auto simp: dset_new)
qed auto

text \<open>Every number of an accepted payload is an integer in the safe range.\<close>

fun safe_numbers :: "json \<Rightarrow> bool" where
  "safe_numbers (JInt i) = (\<bar>i\<bar> < SAFE_INT_LIMIT)"
| "safe_numbers (JFloat f) = False"
| "safe_numbers (JArr xs) = list_all safe_numbers xs"
| "safe_numbers (JObj d) = list_all (\<lambda>(k, v). safe_numbers v) d"
| "safe_numbers _ = True"

lemma mapr_unit_iff: "(\<exists>ys. mapr f xs = Inr ys) \<longleftrightarrow> list_all (\<lambda>x. \<exists>y. f x = Inr y) xs"
  by (induction xs) (auto simp: bindr_Inr_iff)

lemma walk_check_ints_iff: "walk_check_ints v = Inr () \<longleftrightarrow> safe_numbers v"
proof (induction v)
  case (JArr xs)
  then show ?case by (auto simp: bindr_Inr_iff mapr_unit_iff list_all_iff)
next
  case (JObj d)
  have "walk_check_ints v = Inr () \<longleftrightarrow> safe_numbers v" if "(k, v) \<in> set d" for k v
    using JObj [OF that, of v] by simp
  then show ?case by (fastforce simp: bindr_Inr_iff mapr_unit_iff list_all_iff)
qed auto

end
