(* ===== verification/Encoding.thy ===== *)
theory Encoding
  imports Unicode
begin

text \<open>
  The byte encodings of \<open>packaging/run_vectors.py\<close>: canonical base64 (\<open>strict_b64decode\<close>), the DSSE
  pre-authentication encoding (\<open>pae\<close>) and the domain-separated batch root (\<open>merkle_root_hex\<close>).
  SHA-256 is a parameter \<open>H\<close>. The lemmas say that a decoded string is the encoding of what it decodes
  to, that the pre-authentication encoding determines type and payload, and that two batches with one
  root are the same batch unless \<open>H\<close> collides on a string that was hashed for them.
\<close>

section \<open>Base64\<close>

definition b64_char :: "nat \<Rightarrow> nat" where
  "b64_char n =
     (if n < 26 then 65 + n else if n < 52 then 71 + n else if n < 62 then n - 4
      else if n = 62 then 43 else 47)"

definition b64_val :: "nat \<Rightarrow> nat option" where
  "b64_val c =
     (if 65 \<le> c \<and> c \<le> 90 then Some (c - 65)
      else if 97 \<le> c \<and> c \<le> 122 then Some (c - 71)
      else if 48 \<le> c \<and> c \<le> 57 then Some (c + 4)
      else if c = 43 then Some 62
      else if c = 47 then Some 63
      else None)"

fun b64encode :: "bytes \<Rightarrow> ustr" where
  "b64encode [] = []"
| "b64encode [a] = [b64_char (a div 4), b64_char (a mod 4 * 16), 61, 61]"
| "b64encode [a, b] =
     [b64_char (a div 4), b64_char (a mod 4 * 16 + b div 16), b64_char (b mod 16 * 4), 61]"
| "b64encode (a # b # c # r) =
     [b64_char (a div 4), b64_char (a mod 4 * 16 + b div 16),
      b64_char (b mod 16 * 4 + c div 64), b64_char (c mod 64)] @ b64encode r"

text \<open>
  \<open>base64.b64decode(s, validate=True)\<close>: whole quanta of the alphabet, the last of which may be
  padded. Trailing bits of a padded quantum are dropped here, as the library does; the re-encoding
  below is what rejects them.
\<close>

definition b64_quad :: "nat \<Rightarrow> nat \<Rightarrow> nat \<Rightarrow> nat \<Rightarrow> bytes option" where
  "b64_quad p q r s =
     (case (b64_val p, b64_val q, b64_val r, b64_val s) of
        (Some w, Some x, Some y, Some z) \<Rightarrow>
          Some [w * 4 + x div 16, x mod 16 * 16 + y div 4, y mod 4 * 64 + z]
      | _ \<Rightarrow> None)"

definition b64_last :: "nat \<Rightarrow> nat \<Rightarrow> nat \<Rightarrow> nat \<Rightarrow> bytes option" where
  "b64_last p q r s =
     (if r = 61 \<and> s = 61 then
        (case (b64_val p, b64_val q) of
           (Some w, Some x) \<Rightarrow> Some [w * 4 + x div 16] | _ \<Rightarrow> None)
      else if s = 61 then
        (case (b64_val p, b64_val q, b64_val r) of
           (Some w, Some x, Some y) \<Rightarrow> Some [w * 4 + x div 16, x mod 16 * 16 + y div 4]
         | _ \<Rightarrow> None)
      else b64_quad p q r s)"

fun b64decode :: "ustr \<Rightarrow> bytes option" where
  "b64decode [] = Some []"
| "b64decode [p, q, r, s] = b64_last p q r s"
| "b64decode (p # q # r # s # t) =
     (case b64_quad p q r s of
        None \<Rightarrow> None
      | Some bs \<Rightarrow> map_option (\<lambda>rest. bs @ rest) (b64decode t))"
| "b64decode _ = None"

text \<open>Both rejections are \<open>ValueError\<close>s, and every caller catches that class.\<close>

definition strict_b64decode :: "ustr \<Rightarrow> bytes res" where
  "strict_b64decode s =
     (case b64decode s of
        None \<Rightarrow> Inl BinasciiError
      | Some raw \<Rightarrow> if b64encode raw \<noteq> s then Inl ValueError else Inr raw)"

lemma b64_val_char [simp]: "n < 64 \<Longrightarrow> b64_val (b64_char n) = Some n"
  by (auto simp: b64_val_def b64_char_def)

lemma b64_char_pad [simp]: "n < 64 \<Longrightarrow> b64_char n \<noteq> 61"
  by (auto simp: b64_char_def)

lemma b64_val_range: "b64_val c = Some n \<Longrightarrow> n < 64 \<and> c = b64_char n"
  by (auto simp: b64_val_def b64_char_def split: if_splits)

lemma quad_bits:
  fixes a b c :: nat
  assumes "a < 256" "b < 256" "c < 256"
  shows "a div 4 < 64" "a mod 4 * 16 + b div 16 < 64" "b mod 16 * 4 + c div 64 < 64" "c mod 64 < 64"
    "a div 4 * 4 + (a mod 4 * 16 + b div 16) div 16 = a"
    "(a mod 4 * 16 + b div 16) mod 16 * 16 + (b mod 16 * 4 + c div 64) div 4 = b"
    "(b mod 16 * 4 + c div 64) mod 4 * 64 + c mod 64 = c"
proof -
  have a: "a mod 4 \<le> 3" and b: "b mod 16 \<le> 15" "b div 16 \<le> 15" and c: "c div 64 \<le> 3"
    using assms by (auto simp: less_Suc_eq_le [symmetric] less_mult_imp_div_less)
  show "a div 4 < 64" "c mod 64 < 64" using assms by auto
  show "a mod 4 * 16 + b div 16 < 64" "b mod 16 * 4 + c div 64 < 64" using a b c by linarith+
  have "(a mod 4 * 16 + b div 16) div 16 = a mod 4" "(a mod 4 * 16 + b div 16) mod 16 = b div 16"
    "(b mod 16 * 4 + c div 64) div 4 = b mod 16" "(b mod 16 * 4 + c div 64) mod 4 = c div 64"
    using a b c by auto
  then show "a div 4 * 4 + (a mod 4 * 16 + b div 16) div 16 = a"
    "(a mod 4 * 16 + b div 16) mod 16 * 16 + (b mod 16 * 4 + c div 64) div 4 = b"
    "(b mod 16 * 4 + c div 64) mod 4 * 64 + c mod 64 = c"
    by simp_all
qed

lemma b64_quad_encode:
  assumes "a < 256" "b < 256" "c < 256"
  shows "b64_quad (b64_char (a div 4)) (b64_char (a mod 4 * 16 + b div 16))
    (b64_char (b mod 16 * 4 + c div 64)) (b64_char (c mod 64)) = Some [a, b, c]"
  using quad_bits [OF assms] by (simp add: b64_quad_def)

lemma b64decode_encode: "is_bytes bs \<Longrightarrow> b64decode (b64encode bs) = Some bs"
proof (induction bs rule: b64encode.induct)
  case (2 a)
  then show ?case using quad_bits [of a 0 0] by (simp add: b64_last_def)
next
  case (3 a b)
  then show ?case using quad_bits [of a b 0] by (simp add: b64_last_def)
next
  case (4 a b c r)
  then have abc: "a < 256" "b < 256" "c < 256" by auto
  note q = b64_quad_encode [OF abc] quad_bits [OF abc]
  show ?case
  proof (cases "b64encode r")
    case Nil
    then have "r = []" by (cases r rule: b64encode.cases) auto
    with q show ?thesis by (simp add: b64_last_def)
  next
    case (Cons x xs)
    with 4 q show ?thesis by simp
  qed
qed simp

lemma b64_quad_bytes: "b64_quad p q r s = Some bs \<Longrightarrow> is_bytes bs"
  by (auto simp: b64_quad_def split: option.splits dest!: b64_val_range)

lemma b64_last_bytes: "b64_last p q r s = Some bs \<Longrightarrow> is_bytes bs"
  by (auto simp: b64_last_def split: option.splits if_splits dest!: b64_val_range b64_quad_bytes)

lemma b64decode_bytes: "b64decode s = Some bs \<Longrightarrow> is_bytes bs"
  by (induction s arbitrary: bs rule: b64decode.induct)
     (auto split: option.splits dest: b64_quad_bytes b64_last_bytes)

lemma strict_b64decode_iff:
  "strict_b64decode s = Inr raw \<longleftrightarrow> is_bytes raw \<and> s = b64encode raw"
  by (auto simp: strict_b64decode_def b64decode_encode dest: b64decode_bytes
      split: option.splits if_splits)

lemma strict_b64decode_error: "strict_b64decode s = Inl e \<Longrightarrow> is_value_error e"
  by (auto simp: strict_b64decode_def split: option.splits if_splits)

section \<open>DSSE pre-authentication encoding\<close>

definition pae :: "ustr \<Rightarrow> bytes \<Rightarrow> bytes res" where
  "pae payload_type payload =
     bindr (utf8_encode payload_type) (\<lambda>pt.
       Inr (u ''DSSEv1 '' @ nat_str (length pt) @ u '' '' @ pt @ u '' ''
            @ nat_str (length payload) @ u '' '' @ payload))"

lemma u_space: "u '' '' = [32]"
  by (simp add: u_def)

lemma pae_inj:
  assumes "pae t p = Inr x" "pae t' p' = Inr x"
    and "list_all scalar t" "list_all scalar t'"
  shows "t = t' \<and> p = p'"
proof -
  obtain e e' where e: "utf8_encode t = Inr e" "utf8_encode t' = Inr e'"
    and x: "nat_str (length e) @ 32 # e @ 32 # nat_str (length p) @ 32 # p
          = nat_str (length e') @ 32 # e' @ 32 # nat_str (length p') @ 32 # p'"
    using assms(1,2) by (auto simp: pae_def bindr_Inr_iff u_space)
  from nat_str_sep [OF x] have len: "length e = length e'"
    and r: "e @ 32 # nat_str (length p) @ 32 # p = e' @ 32 # nat_str (length p') @ 32 # p'"
    by auto
  from r len have "e = e'" and s: "nat_str (length p) @ 32 # p = nat_str (length p') @ 32 # p'"
    by auto
  with e assms(3,4) nat_str_sep [OF s] show ?thesis using utf8_encode_inj by blast
qed

section \<open>The batch root\<close>

text \<open>\<open>k = 1; while k * 2 < n: k *= 2\<close>.\<close>

function split_from :: "nat \<Rightarrow> nat \<Rightarrow> nat" where
  "split_from k n = (if 0 < k \<and> k * 2 < n then split_from (k * 2) n else k)"
  by pat_completeness auto
termination
  by (relation "measure (\<lambda>(k, n). n - k)") auto

declare split_from.simps [simp del]

lemma split_from_bounds: "0 < k \<Longrightarrow> k < n \<Longrightarrow> k \<le> split_from k n \<and> split_from k n < n"
  by (induction k n rule: split_from.induct) (subst (1 2) split_from.simps, auto)

lemma split_from_half: "0 < k \<Longrightarrow> n \<le> 2 * split_from k n"
  by (induction k n rule: split_from.induct) (subst split_from.simps, auto)

lemma split_from_power: "\<exists>j. split_from k n = k * 2 ^ j"
proof (induction k n rule: split_from.induct)
  case (1 k n)
  show ?case
  proof (cases "0 < k \<and> k * 2 < n")
    case True
    with 1 obtain j where "split_from (k * 2) n = k * 2 * 2 ^ j" by blast
    with True have "split_from k n = k * 2 ^ Suc j" by (subst split_from.simps) simp
    then show ?thesis by blast
  next
    case False
    then have "split_from k n = k * 2 ^ 0" by (subst split_from.simps) auto
    then show ?thesis by blast
  qed
qed

definition split_point :: "nat \<Rightarrow> nat" where
  "split_point n = split_from 1 n"

lemma split_point_bounds: "1 < n \<Longrightarrow> 0 < split_point n \<and> split_point n < n"
  using split_from_bounds [of 1 n] by (simp add: split_point_def)

lemma split_point_less: "split_point (Suc (Suc n)) < Suc (Suc n)" "0 < split_point (Suc (Suc n))"
  using split_point_bounds [of "Suc (Suc n)"] by auto

text \<open>\<open>node(lo, hi)\<close> on the slice \<open>leaves[lo:hi]\<close>; the empty slice is never asked for.\<close>

function merkle_node :: "(bytes \<Rightarrow> bytes) \<Rightarrow> bytes list \<Rightarrow> bytes" where
  "merkle_node H ls =
     (case ls of
        [] \<Rightarrow> []
      | [l] \<Rightarrow> H (0 # l)
      | _ \<Rightarrow> (let k = split_point (length ls)
              in H (1 # merkle_node H (take k ls) @ merkle_node H (drop k ls))))"
  by pat_completeness auto
termination
  by (relation "measure (\<lambda>(H, ls). length ls)")
     (auto simp: min_def split_point_less not_le)

declare merkle_node.simps [simp del]

definition merkle_root_hex :: "(bytes \<Rightarrow> bytes) \<Rightarrow> bytes list \<Rightarrow> ustr res" where
  "merkle_root_hex H leaves =
     (if leaves = [] then Inl ValueError else Inr (hex_of (merkle_node H leaves)))"

text \<open>The strings a root computation hashes.\<close>

function merkle_inputs :: "(bytes \<Rightarrow> bytes) \<Rightarrow> bytes list \<Rightarrow> bytes list" where
  "merkle_inputs H ls =
     (case ls of
        [] \<Rightarrow> []
      | [l] \<Rightarrow> [0 # l]
      | _ \<Rightarrow> (let k = split_point (length ls)
              in (1 # merkle_node H (take k ls) @ merkle_node H (drop k ls))
                 # merkle_inputs H (take k ls) @ merkle_inputs H (drop k ls)))"
  by pat_completeness auto
termination
  by (relation "measure (\<lambda>(H, ls). length ls)")
     (auto simp: min_def split_point_less not_le)

declare merkle_inputs.simps [simp del]

lemma merkle_simps:
  "merkle_node H [l] = H (0 # l)"
  "merkle_inputs H [l] = [0 # l]"
  "1 < length ls \<Longrightarrow> k = split_point (length ls) \<Longrightarrow>
   merkle_node H ls = H (1 # merkle_node H (take k ls) @ merkle_node H (drop k ls))"
  "1 < length ls \<Longrightarrow> k = split_point (length ls) \<Longrightarrow>
   merkle_inputs H ls = (1 # merkle_node H (take k ls) @ merkle_node H (drop k ls))
     # merkle_inputs H (take k ls) @ merkle_inputs H (drop k ls)"
  by (auto simp: merkle_node.simps [of H "[_]"] merkle_inputs.simps [of H "[_]"]
      merkle_node.simps [of H ls] merkle_inputs.simps [of H ls] Let_def split: list.splits)

lemma inj_on_left: "inj_on f (A \<union> B) \<Longrightarrow> C \<subseteq> A \<Longrightarrow> D \<subseteq> B \<Longrightarrow> inj_on f (C \<union> D)"
  by (erule inj_on_subset) blast

lemma length_merkle_node:
  "(\<And>x. length (H x) = n) \<Longrightarrow> ls \<noteq> [] \<Longrightarrow> length (merkle_node H ls) = n"
  by (subst merkle_node.simps) (simp add: Let_def split: list.splits)

lemma merkle_node_inj:
  assumes H: "\<And>x. length (H x) = n"
    and "inj_on H (set (merkle_inputs H ls) \<union> set (merkle_inputs H ms))"
    and "ls \<noteq> []" "ms \<noteq> []" "merkle_node H ls = merkle_node H ms"
  shows "ls = ms"
  using assms(2-)
proof (induction ls arbitrary: ms rule: measure_induct_rule [of length])
  case (less ls)
  have one: "\<exists>l. xs = [l]" if "\<not> 1 < length xs" "xs \<noteq> []" for xs :: "bytes list"
    using that by (cases xs) auto
  show ?case
  proof (cases "1 < length ls")
    case ls: True
    define k where "k = split_point (length ls)"
    note k = merkle_simps(3,4) [OF ls k_def, of H]
    show ?thesis
    proof (cases "1 < length ms")
      case ms: True
      define j where "j = split_point (length ms)"
      note j = merkle_simps(3,4) [OF ms j_def, of H]
      have bounds: "0 < k" "k < length ls" "0 < j" "j < length ms"
        using split_point_bounds ls ms k_def j_def by auto
      have "1 # merkle_node H (take k ls) @ merkle_node H (drop k ls)
          = 1 # merkle_node H (take j ms) @ merkle_node H (drop j ms)"
        by (rule inj_onD [OF less.prems(1)]) (use less.prems(4) k j in simp_all)
      moreover have "length (merkle_node H (take k ls)) = length (merkle_node H (take j ms))"
        using bounds by (subst (1 2) length_merkle_node [OF H]) auto
      ultimately have n: "merkle_node H (take k ls) = merkle_node H (take j ms)"
        "merkle_node H (drop k ls) = merkle_node H (drop j ms)" by auto
      have "take k ls = take j ms"
      proof (rule less.IH)
        show "inj_on H (set (merkle_inputs H (take k ls)) \<union> set (merkle_inputs H (take j ms)))"
          by (rule inj_on_left [OF less.prems(1)]) (auto simp only: k(2) j(2) list.set set_append)
      qed (use bounds n(1) in auto)
      moreover have "drop k ls = drop j ms"
      proof (rule less.IH)
        show "inj_on H (set (merkle_inputs H (drop k ls)) \<union> set (merkle_inputs H (drop j ms)))"
          by (rule inj_on_left [OF less.prems(1)]) (auto simp only: k(2) j(2) list.set set_append)
      qed (use bounds n(2) in auto)
      ultimately show ?thesis by (metis append_take_drop_id)
    next
      case False
      then obtain m where m: "ms = [m]" using one less.prems(3) by blast
      have "1 # merkle_node H (take k ls) @ merkle_node H (drop k ls) = 0 # m"
        by (rule inj_onD [OF less.prems(1)]) (use less.prems(4) k m in \<open>simp_all add: merkle_simps(1,2)\<close>)
      then show ?thesis by simp
    qed
  next
    case False
    then obtain l where l: "ls = [l]" using one less.prems(2) by blast
    show ?thesis
    proof (cases "1 < length ms")
      case True
      define j where "j = split_point (length ms)"
      note j = merkle_simps(3,4) [OF True j_def, of H]
      have "1 # merkle_node H (take j ms) @ merkle_node H (drop j ms) = 0 # l"
        by (rule inj_onD [OF less.prems(1)]) (use less.prems(4) j l in \<open>simp_all add: merkle_simps(1,2)\<close>)
      then show ?thesis by simp
    next
      case False
      then obtain m where "ms = [m]" using one less.prems(3) by blast
      with less.prems(1,4) l show ?thesis by (auto simp: merkle_simps(1,2) dest: inj_onD)
    qed
  qed
qed

lemma is_bytes_merkle_node:
  "(\<And>x. is_bytes (H x)) \<Longrightarrow> is_bytes (merkle_node H ls)"
  by (subst merkle_node.simps) (simp add: Let_def split: list.splits)

lemma merkle_root_inj:
  assumes H: "\<And>x. length (H x) = n \<and> is_bytes (H x)"
    and inj: "inj_on H (set (merkle_inputs H ls) \<union> set (merkle_inputs H ms))"
    and ne: "ls \<noteq> []" "ms \<noteq> []"
    and eq: "merkle_root_hex H ls = merkle_root_hex H ms"
  shows "ls = ms"
proof (rule merkle_node_inj [OF _ inj ne])
  show "length (H x) = n" for x using H by simp
  have "is_bytes (merkle_node H xs)" for xs using H by (intro is_bytes_merkle_node) simp
  with eq ne show "merkle_node H ls = merkle_node H ms"
    by (auto simp: merkle_root_hex_def intro: hex_of_inj)
qed

end
