(* ===== verification/Ed25519.thy ===== *)
theory Ed25519
  imports Encoding
begin

text \<open>
  The pure-Python Ed25519 of \<open>packaging/run_vectors.py\<close>, on \<open>int\<close> with the reductions the code
  writes out; SHA-512 is a parameter \<open>H512\<close>. The lemmas say that \<open>pow(b, e, m)\<close> is \<open>b ^ e mod m\<close>,
  that a point is decoded from one encoding only (the compression of the decoded point is the
  encoding), and which signatures can be accepted at all.
\<close>

section \<open>Field arithmetic\<close>

definition ed_P :: int where
  "ed_P = 2 ^ 255 - 19"

definition ed_L :: int where
  "ed_L = 2 ^ 252 + 27742317777372353535851937790883648493"

text \<open>\<open>pow(b, e, m)\<close>.\<close>

fun powm :: "int \<Rightarrow> nat \<Rightarrow> int \<Rightarrow> int" where
  "powm b e m =
     (if e = 0 then 1 mod m
      else if even e then powm (b * b mod m) (e div 2) m
      else b * powm (b * b mod m) (e div 2) m mod m)"

declare powm.simps [simp del]

lemma powm_eq: "powm b e m = b ^ e mod m"
proof (induction b e m rule: powm.induct)
  case (1 b e m)
  show ?case
  proof (cases "e = 0")
    case False
    have "powm (b * b mod m) (e div 2) m = (b * b) ^ (e div 2) mod m"
      using 1 False by (cases "even e") (simp_all add: power_mod)
    also have "(b * b) ^ (e div 2) = b ^ (2 * (e div 2))"
      by (metis power2_eq_square power_mult)
    finally have half: "powm (b * b mod m) (e div 2) m = b ^ (2 * (e div 2)) mod m" .
    have "powm b e m = (if even e then b ^ (2 * (e div 2)) mod m
        else b * (b ^ (2 * (e div 2)) mod m) mod m)"
      using False by (subst powm.simps) (simp only: half if_False)
    also have "\<dots> = b ^ e mod m"
    proof (cases "even e")
      case False
      then have "b ^ e = b * b ^ (2 * (e div 2))"
        by (metis odd_two_times_div_two_succ power_Suc Suc_eq_plus1)
      with False show ?thesis by (simp add: mod_mult_right_eq)
    qed simp
    finally show ?thesis .
  qed (simp add: powm.simps)
qed

definition ed_inv :: "int \<Rightarrow> int" where
  "ed_inv x = powm x (nat (ed_P - 2)) ed_P"

definition ed_D :: int where
  "ed_D = - 121665 * ed_inv 121666 mod ed_P"

definition ed_I :: int where
  "ed_I = powm 2 (nat ((ed_P - 1) div 4)) ed_P"

section \<open>Points\<close>

type_synonym point = "int \<times> int \<times> int \<times> int"

definition ed_IDENT :: point where
  "ed_IDENT = (0, 1, 1, 0)"

definition pt_add :: "point \<Rightarrow> point \<Rightarrow> point" where
  "pt_add p q =
     (let (x1, y1, z1, t1) = p; (x2, y2, z2, t2) = q;
          a = (y1 - x1) * (y2 - x2) mod ed_P;
          b = (y1 + x1) * (y2 + x2) mod ed_P;
          c = t1 * 2 * ed_D * t2 mod ed_P;
          d = z1 * 2 * z2 mod ed_P;
          e = b - a; f = d - c; g = d + c; h = b + a
      in (e * f mod ed_P, g * h mod ed_P, f * g mod ed_P, e * h mod ed_P))"

text \<open>The loop of \<open>_pt_mul\<close>, with its three variables.\<close>

fun pt_mul_loop :: "nat \<Rightarrow> point \<Rightarrow> point \<Rightarrow> point" where
  "pt_mul_loop s p q =
     (if s = 0 then q
      else pt_mul_loop (s div 2) (pt_add p p) (if odd s then pt_add q p else q))"

declare pt_mul_loop.simps [simp del]

definition pt_mul :: "int \<Rightarrow> point \<Rightarrow> point" where
  "pt_mul s p = pt_mul_loop (nat s) p ed_IDENT"

fun pt_eq :: "point \<Rightarrow> point \<Rightarrow> bool" where
  "pt_eq (x1, y1, z1, _) (x2, y2, z2, _) \<longleftrightarrow>
     (x1 * z2 - x2 * z1) mod ed_P = 0 \<and> (y1 * z2 - y2 * z1) mod ed_P = 0"

definition ed_BY :: int where
  "ed_BY = 4 * ed_inv 5 mod ed_P"

definition xx_of :: "int \<Rightarrow> int" where
  "xx_of y = (y * y - 1) * ed_inv (ed_D * y * y + 1)"

definition root_of :: "int \<Rightarrow> int" where
  "root_of xx =
     (let x = powm xx (nat ((ed_P + 3) div 8)) ed_P
      in if (x * x - xx) mod ed_P \<noteq> 0 then x * ed_I mod ed_P else x)"

definition xrecover :: "int \<Rightarrow> int" where
  "xrecover y = (let x = root_of (xx_of y) in if x mod 2 \<noteq> 0 then ed_P - x else x)"

definition ed_BX :: int where
  "ed_BX = xrecover ed_BY"

definition ed_B :: point where
  "ed_B = (ed_BX, ed_BY, 1, ed_BX * ed_BY mod ed_P)"

section \<open>Encodings\<close>

text \<open>\<open>int.from_bytes(b, "little")\<close> and \<open>n.to_bytes(k, "little")\<close>.\<close>

fun le_int :: "bytes \<Rightarrow> int" where
  "le_int [] = 0"
| "le_int (b # bs) = int b + 256 * le_int bs"

fun le_bytes :: "nat \<Rightarrow> int \<Rightarrow> bytes" where
  "le_bytes 0 n = []"
| "le_bytes (Suc k) n = nat (n mod 256) # le_bytes k (n div 256)"

text \<open>\<open>y | ((x & 1) << 255)\<close>: \<open>y\<close> is below \<open>2 ^ 255\<close>, so the bits do not overlap.\<close>

fun pt_compress :: "point \<Rightarrow> bytes" where
  "pt_compress (x, y, z, _) =
     (let zi = ed_inv z; x' = x * zi mod ed_P; y' = y * zi mod ed_P
      in le_bytes 32 (y' + x' mod 2 * 2 ^ 255))"

text \<open>\<open>_pt_decompress\<close>: the checks of the two halves \<open>sign\<close> and \<open>y\<close> of the encoded integer.\<close>

definition pt_recover :: "int \<Rightarrow> int \<Rightarrow> point option" where
  "pt_recover sign y =
     (if ed_P \<le> y then None
      else
        (let xx = xx_of y; x = root_of xx
         in if (x * x - xx) mod ed_P \<noteq> 0 then None
            else if x = 0 \<and> sign \<noteq> 0 then None
            else
              (let x' = (if x mod 2 \<noteq> sign then ed_P - x else x)
               in Some (x', y, 1, x' * y mod ed_P))))"

definition pt_decompress :: "bytes \<Rightarrow> point option" where
  "pt_decompress s =
     (if length s \<noteq> 32 then None
      else pt_recover (le_int s div 2 ^ 255) (le_int s mod 2 ^ 255))"

section \<open>Keys, signatures\<close>

text \<open>The clamping \<open>a &= (1 << 254) - 8; a |= 1 << 254\<close>.\<close>

definition clamp :: "int \<Rightarrow> int" where
  "clamp a = a mod 2 ^ 254 div 8 * 8 + 2 ^ 254"

definition ed25519_public_key :: "(bytes \<Rightarrow> bytes) \<Rightarrow> bytes \<Rightarrow> bytes" where
  "ed25519_public_key H512 seed =
     pt_compress (pt_mul (clamp (le_int (take 32 (H512 seed)))) ed_B)"

definition ed25519_sign :: "(bytes \<Rightarrow> bytes) \<Rightarrow> bytes \<Rightarrow> bytes \<Rightarrow> bytes" where
  "ed25519_sign H512 seed msg =
     (let h = H512 seed;
          a = clamp (le_int (take 32 h));
          prefix = drop 32 h;
          pub = pt_compress (pt_mul a ed_B);
          r = le_int (H512 (prefix @ msg)) mod ed_L;
          rp = pt_compress (pt_mul r ed_B);
          k = le_int (H512 (rp @ pub @ msg)) mod ed_L;
          s = (r + k * a) mod ed_L
      in rp @ le_bytes 32 s)"

definition ed25519_verify :: "(bytes \<Rightarrow> bytes) \<Rightarrow> bytes \<Rightarrow> bytes \<Rightarrow> bytes \<Rightarrow> bool" where
  "ed25519_verify H512 pub msg sig =
     (if length sig \<noteq> 64 then False
      else (case pt_decompress pub of
              None \<Rightarrow> False
            | Some a \<Rightarrow>
                (case pt_decompress (take 32 sig) of
                   None \<Rightarrow> False
                 | Some rp \<Rightarrow>
                     (let s = le_int (drop 32 sig)
                      in if ed_L \<le> s then False
                         else
                           (let k = le_int (H512 (take 32 sig @ pub @ msg)) mod ed_L
                            in pt_eq (pt_mul s ed_B) (pt_add rp (pt_mul k a)))))))"

section \<open>Lemmas\<close>

lemma ed_P_pos: "0 < ed_P" "1 < ed_P" "ed_P < 2 ^ 255" "odd ed_P"
  by (simp_all add: ed_P_def)

lemma le_int_range: "is_bytes bs \<Longrightarrow> 0 \<le> le_int bs \<and> le_int bs < 256 ^ length bs"
  by (induction bs) auto

lemma le_bytes_int: "is_bytes bs \<Longrightarrow> le_bytes (length bs) (le_int bs) = bs"
  by (induction bs) auto

lemma le_int_bytes: "0 \<le> n \<Longrightarrow> n < 256 ^ k \<Longrightarrow> le_int (le_bytes k n) = n"
  by (induction k arbitrary: n) auto

lemma length_le_bytes [simp]: "length (le_bytes k n) = k"
  by (induction k arbitrary: n) auto

lemma is_bytes_le_bytes: "is_bytes (le_bytes k n)"
  by (induction k arbitrary: n) (auto simp: nat_less_iff)

lemma ed_inv_1 [simp]: "ed_inv 1 = 1"
  using ed_P_pos by (simp add: ed_inv_def powm_eq)

lemma root_of_range: "0 \<le> root_of xx \<and> root_of xx < ed_P"
  using ed_P_pos by (simp add: root_of_def Let_def powm_eq)

text \<open>\<open>pt_decompress\<close> inverts one encoding only, and its point satisfies the curve equation the code
  checks.\<close>

lemma neg_square: "((m - x) * (m - x) - k) mod m = (x * x - k) mod (m :: int)"
proof -
  have "(m - x) * (m - x) - k = (x * x - k) + m * (m - 2 * x)" by (simp add: algebra_simps)
  then show ?thesis by (simp only: mod_mult_self2)
qed

lemma pt_recover_facts:
  assumes "pt_recover sign y = Some (x, y', z, t)" and sign: "sign = 0 \<or> sign = 1"
  shows "y' = y \<and> y < ed_P \<and> z = 1 \<and> t = x * y mod ed_P \<and> 0 \<le> x \<and> x < ed_P \<and>
    (x * x - xx_of y) mod ed_P = 0 \<and> x mod 2 = sign"
proof -
  define x0 where "x0 = root_of (xx_of y)"
  have r: "0 \<le> x0" "x0 < ed_P" using root_of_range by (simp_all add: x0_def)
  from assms(1) have y: "y' = y" "y < ed_P" "z = 1" "t = x * y mod ed_P"
    and root: "(x0 * x0 - xx_of y) mod ed_P = 0" and zero: "\<not> (x0 = 0 \<and> sign \<noteq> 0)"
    and x: "x = (if x0 mod 2 \<noteq> sign then ed_P - x0 else x0)"
    unfolding pt_recover_def Let_def x0_def [symmetric]
    by (simp_all split: if_split_asm) auto
  show ?thesis
  proof (cases "x0 mod 2 = sign")
    case False
    then have "x0 \<noteq> 0" using zero by auto
    moreover have "(ed_P - x0) mod 2 = sign"
      using False sign ed_P_pos(4) unfolding odd_iff_mod_2_eq_one by presburger
    ultimately show ?thesis using False x y r root neg_square [of ed_P x0 "xx_of y"] by simp
  qed (use x y r root in simp)
qed

lemma pt_decompress_facts:
  assumes "pt_decompress s = Some (x, y, z, t)" and "is_bytes s"
  shows "length s = 32 \<and> z = 1 \<and> t = x * y mod ed_P \<and> 0 \<le> y \<and> y < ed_P \<and>
    0 \<le> x \<and> x < ed_P \<and> (x * x - xx_of y) mod ed_P = 0 \<and>
    le_int s = y + x mod 2 * 2 ^ 255"
proof -
  define m where "m = (2 :: int) ^ 255"
  have m: "0 < m" "256 ^ 32 = 2 * m" by (simp_all add: m_def)
  have len: "length s = 32" and rec: "pt_recover (le_int s div m) (le_int s mod m) = Some (x, y, z, t)"
    using assms(1) by (simp_all only: pt_decompress_def m_def split: if_split_asm) auto
  have n: "0 \<le> le_int s" "le_int s < 2 * m"
    using le_int_range [OF assms(2)] m(2) unfolding len by simp_all
  then have sign: "le_int s div m = 0 \<or> le_int s div m = 1"
    using m(1) by (cases "le_int s < m") (auto simp: div_pos_geq)
  have "0 \<le> le_int s mod m" using m(1) by simp
  moreover have "le_int s = le_int s mod m + le_int s div m * m" by simp
  ultimately show ?thesis
    using pt_recover_facts [OF rec sign] len unfolding m_def [symmetric] by auto
qed

lemma pt_compress_decompress:
  assumes "pt_decompress s = Some p" and "is_bytes s"
  shows "pt_compress p = s"
proof -
  obtain x y z t where p: "p = (x, y, z, t)" by (cases p)
  note f = pt_decompress_facts [OF assms(1) [unfolded p] assms(2)]
  then have "pt_compress p = le_bytes 32 (le_int s)" by (simp add: p Let_def)
  with f le_bytes_int [OF assms(2)] show ?thesis by metis
qed

lemma pt_decompress_inj:
  "pt_decompress s = Some p \<Longrightarrow> pt_decompress s' = Some p \<Longrightarrow> is_bytes s \<Longrightarrow> is_bytes s' \<Longrightarrow> s = s'"
  using pt_compress_decompress by metis

lemma ed25519_verify_bounds:
  assumes "ed25519_verify H512 pub msg sig"
  shows "length sig = 64 \<and> length pub = 32 \<and> le_int (drop 32 sig) < ed_L \<and>
    (\<exists>a rp. pt_decompress pub = Some a \<and> pt_decompress (take 32 sig) = Some rp \<and>
      pt_eq (pt_mul (le_int (drop 32 sig)) ed_B)
        (pt_add rp (pt_mul (le_int (H512 (take 32 sig @ pub @ msg)) mod ed_L) a)))"
proof -
  have "length pub = 32" if "pt_decompress pub = Some a" for a
    using that by (simp add: pt_decompress_def split: if_splits)
  with assms show ?thesis
    by (auto simp: ed25519_verify_def Let_def split: if_splits option.splits)
qed

text \<open>Adding a multiple of the group order to the scalar of an accepted signature gives one that is
  refused.\<close>

lemma ed25519_no_malleated_scalar:
  assumes "ed25519_verify H512 pub msg (r @ le_bytes 32 s)" and "length r = 32"
    and "0 \<le> s" and "s + ed_L < 2 ^ 256"
  shows "\<not> ed25519_verify H512' pub' msg' (r @ le_bytes 32 (s + ed_L))"
proof
  assume "ed25519_verify H512' pub' msg' (r @ le_bytes 32 (s + ed_L))"
  from ed25519_verify_bounds [OF this] assms(2) have "le_int (le_bytes 32 (s + ed_L)) < ed_L" by simp
  moreover have "le_int (le_bytes 32 (s + ed_L)) = s + ed_L"
    using assms(3,4) by (intro le_int_bytes) (simp_all add: ed_L_def)
  ultimately show False using assms(3) by simp
qed

end
