(* ===== verification/VerifierState.thy ===== *)
theory VerifierState
  imports Timestamp StrictParse Ed25519
begin

text \<open>
  The state of the reference verifier of \<open>packaging/run_vectors.py\<close>: the whole-statement strict pass,
  the helpers on carried digests and arrays, the decoded record (\<open>RecordView\<close>), the fields the ordered
  checks share (\<open>_VerifyState\<close>), and the digests derived from the environment and the records.
\<close>

section \<open>What the code takes from the libraries\<close>

text \<open>
  SHA-256, SHA-512, \<open>repr(v).encode("utf-8")\<close> of a carried value, and the public keys the consumer
  pinned.
\<close>

record ctx =
  cx_sha256 :: "bytes \<Rightarrow> bytes"
  cx_sha512 :: "bytes \<Rightarrow> bytes"
  cx_repr :: "json \<Rightarrow> bytes"
  cx_pins :: "bytes list"

definition sha256_hex :: "ctx \<Rightarrow> bytes \<Rightarrow> ustr" where
  "sha256_hex cx b = hex_of (cx_sha256 cx b)"

section \<open>The strict pass over the whole statement\<close>

text \<open>
  The hook sets a flag on a repeated member; the flag and a failed parse have one answer, so the
  model's hook fails at once.
\<close>

definition dup_hook :: "(ustr \<times> json) list \<Rightarrow> json res" where
  "dup_hook ps = (if distinct (map fst ps) then Inr (JObj ps) else Inl ValueError)"

text \<open>\<open>float(s)\<close> never fails on a JSON number, and this pass drops the value.\<close>

definition lax_hooks :: hooks where
  "lax_hooks = \<lparr>pairs_hook = dup_hook, float_hook = (\<lambda>n. Inr (JFloat (Fin 0 0)))\<rparr>"

definition statement_strict_fault :: "bytes \<Rightarrow> bool" where
  "statement_strict_fault raw =
     (if MAX_PARSE_BYTES < length raw then True
      else case utf8_decode raw of
        None \<Rightarrow> True
      | Some text \<Rightarrow>
          if MAX_PARSE_DEPTH < max_json_depth text then True
          else case loads lax_hooks text of
            Inl e \<Rightarrow> True
          | Inr v \<Rightarrow> check_string_scalars raw \<noteq> Inr ())"

section \<open>Digests and arrays\<close>

fun digest_of :: "json \<Rightarrow> json" where
  "digest_of (JObj d) =
     (case dget d (u ''digest'') of JObj e \<Rightarrow> dget e (u ''sha256'') | _ \<Rightarrow> JNull)"
| "digest_of _ = JNull"

fun str_sort_key :: "json \<Rightarrow> bytes res" where
  "str_sort_key (JStr s) = utf16_sort_key s"
| "str_sort_key _ = Inl AttributeError"

definition ascending :: "bytes list \<Rightarrow> bool" where
  "ascending ks \<longleftrightarrow> list_all (\<lambda>(a, b). a < b) (zip ks (tl ks))"

definition sorted_no_dupes :: "json list \<Rightarrow> bool res" where
  "sorted_no_dupes values = bindr (mapr str_sort_key values) (\<lambda>ks. Inr (ascending ks))"

definition attack_id_array_ok :: "json \<Rightarrow> ustr list \<Rightarrow> bool res" where
  "attack_id_array_ok values declared =
     (if \<not> (is_list values \<and> list_all is_str (as_list values)) then Inr False
      else bindr (sorted_no_dupes (as_list values)) (\<lambda>b.
        if \<not> b then Inr False
        else Inr (list_all (\<lambda>v. v \<in> JStr ` set declared) (as_list values))))"

definition commitment_array_ok :: "json \<Rightarrow> bool res" where
  "commitment_array_ok values =
     (if \<not> (is_list values \<and> as_list values \<noteq> []) then Inr False
      else if \<not> list_all is_hex64_lower (as_list values) then Inr False
      else sorted_no_dupes (as_list values))"

definition expected_payloads_ok :: "json \<Rightarrow> ustr list \<Rightarrow> bool res" where
  "expected_payloads_ok expected declared =
     (if \<not> is_dict expected then Inr False
      else bindr (anyr (\<lambda>(attack, values).
              if attack \<notin> set declared then Inr True
              else bindr (commitment_array_ok values) (\<lambda>ok. Inr (\<not> ok))) (as_dict expected))
             (\<lambda>bad. Inr (\<not> bad)))"

section \<open>Records\<close>

record view =
  rv_idx :: nat
  rv_raw :: json
  rv_type :: json
  rv_bytes :: "bytes option"
  rv_pae :: "bytes option"
  rv_payload :: "jdict option"
  rv_error :: "string option"
  rv_decode_err :: bool
  rv_media_ok :: bool
  rv_sigs :: nat

text \<open>\<open>rec.get(k) if isinstance(rec, dict) else None\<close>.\<close>

fun member :: "json \<Rightarrow> string \<Rightarrow> json" where
  "member (JObj d) k = dget d (u k)"
| "member _ k = JNull"

fun decoded_payload :: "json \<Rightarrow> bytes option \<times> bool" where
  "decoded_payload (JStr s) =
     (case strict_b64decode s of Inl e \<Rightarrow> (None, True) | Inr b \<Rightarrow> (Some b, False))"
| "decoded_payload _ = (None, False)"

definition view_pae :: "json \<Rightarrow> bytes option \<Rightarrow> bytes option res" where
  "view_pae ptype payload =
     (case (ptype, payload) of
        (JStr t, Some b) \<Rightarrow> bindr (pae t b) (\<lambda>x. Inr (Some x))
      | _ \<Rightarrow> Inr None)"

definition view_payload :: "bytes option \<Rightarrow> (jdict option \<times> string option) res" where
  "view_payload payload =
     (case payload of
        None \<Rightarrow> Inr (None, None)
      | Some b \<Rightarrow>
          (case strict_payload_parse b of
             Inr d \<Rightarrow> Inr (Some d, None)
           | Inl (IJsonError code) \<Rightarrow> Inr (None, Some code)
           | Inl e \<Rightarrow> Inl e))"

fun media_type_ok :: "json \<Rightarrow> bool" where
  "media_type_ok (JStr t) = ends_with t (u ''+json'')"
| "media_type_ok _ = False"

definition record_view :: "nat \<Rightarrow> json \<Rightarrow> view res" where
  "record_view idx rec =
     (let ptype = member rec ''payloadType'';
          (payload, err) = decoded_payload (member rec ''payload'')
      in bindr (view_pae ptype payload) (\<lambda>p.
         bindr (view_payload payload) (\<lambda>(obj, code).
           Inr \<lparr>rv_idx = idx, rv_raw = rec, rv_type = ptype, rv_bytes = payload, rv_pae = p,
                rv_payload = obj, rv_error = code, rv_decode_err = err,
                rv_media_ok = media_type_ok ptype,
                rv_sigs = length (as_list (member rec ''signatures''))\<rparr>)))"

text \<open>\<open>p.get(k)\<close> for \<open>p = rv.payload or {}\<close>; \<open>kind\<close> and \<open>method\<close> read through it as well.\<close>

definition payload_get :: "view \<Rightarrow> string \<Rightarrow> json" where
  "payload_get rv k = (case rv_payload rv of None \<Rightarrow> JNull | Some p \<Rightarrow> dget p (u k))"

definition payload_has :: "view \<Rightarrow> string \<Rightarrow> bool" where
  "payload_has rv k = (case rv_payload rv of None \<Rightarrow> False | Some p \<Rightarrow> has_key p (u k))"

definition rv_kind :: "view \<Rightarrow> json" where
  "rv_kind rv = payload_get rv ''aeeKind''"

definition rv_method :: "view \<Rightarrow> json" where
  "rv_method rv = payload_get rv ''aeeMethod''"

section \<open>The state of one verification\<close>

record vstate =
  st_stmt :: jdict
  st_pred :: jdict
  st_result :: json
  st_issued_at :: json
  st_env :: jdict
  st_vocab :: "jdict option"
  st_labels :: "json list option"
  st_caught :: "json list option"
  st_classes :: "jdict option"
  st_rows :: "jdict list"
  st_has_substrate :: bool
  st_coverage :: json
  st_fail_closed :: "nat list"
  st_has_records :: bool
  st_views :: "view list"
  st_binding :: json
  st_posture :: json
  st_covering :: "(nat \<times> view list) list"
  st_declared :: "ustr list"
  st_expected :: json

text \<open>\<open>_VerifyState(stmt=stmt)\<close>.\<close>

definition init_state :: "jdict \<Rightarrow> vstate" where
  "init_state stmt =
     \<lparr>st_stmt = stmt, st_pred = [], st_result = JNull, st_issued_at = JNull, st_env = [],
      st_vocab = None, st_labels = None, st_caught = None, st_classes = None, st_rows = [],
      st_has_substrate = False, st_coverage = JNull, st_fail_closed = [], st_has_records = False,
      st_views = [], st_binding = JNull, st_posture = JNull, st_covering = [], st_declared = [],
      st_expected = JNull\<rparr>"

type_synonym check = "vstate \<Rightarrow> codes \<Rightarrow> (vstate \<times> codes) res"

section \<open>Derived digests\<close>

text \<open>\<open>rv.kind in ("interception", "examination")\<close> and the other tests of a value against literals.\<close>

definition one_of :: "json \<Rightarrow> string list \<Rightarrow> bool" where
  "one_of v ks \<longleftrightarrow> list_ex (\<lambda>k. v = js k) ks"

text \<open>\<open>sorted\<close> of a set of hex strings.\<close>

definition observed_leaves :: "ctx \<Rightarrow> view list \<Rightarrow> ustr list" where
  "observed_leaves cx views =
     sort (remdups (concat (map (\<lambda>rv.
       case rv_pae rv of
         None \<Rightarrow> []
       | Some p \<Rightarrow>
           if one_of (rv_kind rv) [''interception'', ''examination'']
           then [hex_of (cx_sha256 cx (0 # p))] else []) views)))"

definition observed_set_digest :: "ctx \<Rightarrow> view list \<Rightarrow> ustr res" where
  "observed_set_digest cx views =
     bindr (jcs_dumps (JArr (map JStr (observed_leaves cx views)))) (\<lambda>b. Inr (sha256_hex cx b))"

definition BINDING_VERSION :: string where
  "BINDING_VERSION = ''2''"

definition EGRESS_POSTURES :: "string list" where
  "EGRESS_POSTURES = [''no_network'', ''allowlist'', ''sinkhole'', ''unsafe_bypass_egress'']"

definition posture_preimage_digest :: "ctx \<Rightarrow> jdict \<Rightarrow> json res" where
  "posture_preimage_digest cx env =
     (let raw = dget env (u ''networkPosture'')
      in if \<not> is_dict raw then Inr (JStr [])
         else exceptr (bindr (jcs_dumps raw) (\<lambda>b. Inr (JStr (sha256_hex cx b))))
                (\<lambda>e. is_value_error e \<or> e = TypeError) (Inr (JStr [])))"

text \<open>\<open>env[k]["digest"]["sha256"]\<close>.\<close>

definition pinned_digest :: "jdict \<Rightarrow> string \<Rightarrow> json res" where
  "pinned_digest env k =
     bindr (item (JObj env) (u k)) (\<lambda>v. bindr (item v (u ''digest'')) (\<lambda>d. item d (u ''sha256'')))"

definition binding_preimage :: "ctx \<Rightarrow> jdict \<Rightarrow> json \<Rightarrow> jdict option res" where
  "binding_preimage cx env subject_sha =
     exceptr
       (bindr (pinned_digest env ''catchPolicy'') (\<lambda>policy.
        bindr (pinned_digest env ''corpus'') (\<lambda>corpus.
        bindr (posture_preimage_digest cx env) (\<lambda>posture.
        bindr (pinned_digest env ''observationVocabulary'') (\<lambda>vocab.
        bindr (pinned_digest env ''runEntropy'') (\<lambda>entropy.
        bindr (pinned_digest env ''substrate'') (\<lambda>substrate.
          Inr (Some
            [(u ''aeeBindingVersion'', js BINDING_VERSION),
             (u ''catchPolicy'', policy),
             (u ''corpus'', corpus),
             (u ''networkPosture'', posture),
             (u ''observationVocabulary'', vocab),
             (u ''runEntropy'', entropy),
             (u ''subject'', subject_sha),
             (u ''substrate'', substrate)])))))))) is_lookup_error (Inr None)"

definition METHOD_ORDER :: "(string \<times> nat) list" where
  "METHOD_ORDER = [(''reconstructed'', 0), (''intercepted'', 1)]"

definition RESULT_ORDER :: "(string \<times> nat) list" where
  "RESULT_ORDER = [(''fail'', 0), (''degraded'', 1), (''pass_indirect'', 2), (''pass'', 3)]"

text \<open>\<open>v in RESULT_ORDER\<close>, a dictionary with string keys.\<close>

definition in_keys :: "json \<Rightarrow> (string \<times> nat) list \<Rightarrow> bool res" where
  "in_keys v table = in_set v (map (\<lambda>(k, _). js k) table)"

text \<open>\<open>table[v]\<close> for a value that is a key.\<close>

definition rank :: "(string \<times> nat) list \<Rightarrow> json \<Rightarrow> nat" where
  "rank table v = (case filter (\<lambda>(k, _). v = js k) table of [] \<Rightarrow> 0 | (_, n) # _ \<Rightarrow> n)"

section \<open>Lemmas\<close>

lemma one_of_simps [simp]:
  "one_of v [] \<longleftrightarrow> False" "one_of v (k # ks) \<longleftrightarrow> v = js k \<or> one_of v ks"
  by (simp_all add: one_of_def)

lemma in_keys_Inr [res_iff]:
  "in_keys v table = Inr b \<longleftrightarrow> hashable v \<and> b = (\<exists>k \<in> fst ` set table. v = js k)"
proof -
  have "list_all is_str (map (\<lambda>(k, _). js k) table)" by (auto simp: list_all_iff)
  then show ?thesis
    by (auto simp: in_keys_def in_set_Inr py_in_strs image_iff split_beta)
qed

lemma view_payload_bytes:
  "view_payload p = Inr (Some d, e) \<Longrightarrow> \<exists>b. p = Some b \<and> strict_payload_parse b = Inr d"
  by (auto simp: view_payload_def split: option.splits sum.splits exn.splits)

text \<open>The payload of a decoded record is the value of its base64 member, whose bytes are that value's
  canonical serialization.\<close>

lemma record_view_payload:
  assumes "record_view i rec = Inr rv" and "rv_payload rv = Some d"
  shows "\<exists>s b. member rec ''payload'' = JStr s \<and> strict_b64decode s = Inr b \<and>
    rv_bytes rv = Some b \<and> strict_payload_parse b = Inr d \<and> jcs_dumps (JObj d) = Inr b"
proof -
  obtain payload err where p: "decoded_payload (member rec ''payload'') = (payload, err)"
    by (cases "decoded_payload (member rec ''payload'')")
  from assms p obtain code where v: "view_payload payload = Inr (Some d, code)" "rv_bytes rv = payload"
    by (auto simp: record_view_def bindr_Inr_iff Let_def)
  then obtain b where b: "payload = Some b" "strict_payload_parse b = Inr d"
    using view_payload_bytes by blast
  with p v strict_payload_parse_canonical [OF b(2)] show ?thesis
    by (cases "member rec ''payload''") (auto split: sum.splits)
qed

lemma mapr_Inr_length: "mapr f xs = Inr ys \<Longrightarrow> length ys = length xs"
  by (auto simp: mapr_Inr_iff)

lemma mapr_nth: "mapr f xs = Inr ys \<Longrightarrow> i < length xs \<Longrightarrow> f (xs ! i) = Inr (ys ! i)"
  unfolding mapr_Inr_iff using list_all2_nthD by blast

text \<open>An accepted array of attack identifiers: strings of the declared set, strictly ascending, so
  without a repetition.\<close>

lemma ascending_distinct: "ascending ks \<Longrightarrow> distinct ks"
proof -
  have *: "ascending ks \<Longrightarrow> sorted_wrt (<) ks"
  proof (induction ks)
    case (Cons a ks)
    then have "sorted_wrt (<) ks" by (cases ks) (auto simp: ascending_def)
    with Cons.prems show ?case by (cases ks) (auto simp: ascending_def intro: less_trans)
  qed simp
  then show "ascending ks \<Longrightarrow> distinct ks" using * strict_sorted_iff by blast
qed

lemma attack_id_array_ok_True:
  assumes "attack_id_array_ok values declared = Inr True"
  shows "\<exists>ids. values = JArr (map JStr ids) \<and> set ids \<subseteq> set declared \<and> distinct ids"
proof -
  from assms obtain xs ks where v: "values = JArr xs" "list_all is_str xs"
    and k: "mapr str_sort_key xs = Inr ks" "ascending ks" and d: "set xs \<subseteq> JStr ` set declared"
    by (fastforce simp: attack_id_array_ok_def sorted_no_dupes_def is_list_iff bindr_Inr_iff
        list_all_iff split: if_splits)
  obtain ids where ids: "xs = map JStr ids"
    using v(2) by (metis ex_map_conv is_str_iff list_all_iff)
  have "distinct xs"
  proof (rule ccontr)
    assume "\<not> distinct xs"
    then obtain i j where ij: "i < length xs" "j < length xs" "i \<noteq> j" "xs ! i = xs ! j"
      by (auto simp: distinct_conv_nth)
    then have "ks ! i = ks ! j" using mapr_nth [OF k(1) ij(1)] mapr_nth [OF k(1) ij(2)] by simp
    with ascending_distinct [OF k(2)] ij mapr_Inr_length [OF k(1)] show False
      by (simp add: nth_eq_iff_index_eq)
  qed
  with v(1) ids d show ?thesis by (auto simp: distinct_map)
qed

end
