(* ===== verification/Gate0.thy ===== *)
theory Gate0
  imports VerifierState
begin

text \<open>
  GATE 0 of the reference verifier (\<open>packaging/run_vectors.py\<close>): the statement's and the predicate's
  type, the well-formedness of its members, the observation vocabulary, the corpus manifest, the rows
  and the inputs of the run binding. Each check maps the state and the failure codes so far to those
  after it, and may raise.
\<close>

section \<open>The statement and its predicate\<close>

definition AEE_PREDICATE_TYPE :: string where
  "AEE_PREDICATE_TYPE = ''https://in-toto.io/attestation/adversarial-execution-evidence/v0.7''"

definition STATEMENT_TYPE :: string where
  "STATEMENT_TYPE = ''https://in-toto.io/Statement/v1''"

text \<open>\<open>None\<close> is the check's \<open>return True\<close>: the verification stops here.\<close>

definition check_statement_type :: "json \<Rightarrow> codes \<Rightarrow> vstate option \<times> codes" where
  "check_statement_type stmt c =
     (if \<not> is_dict stmt then (None, add_code ''statement-type-unsupported'' c)
      else
        (let d = as_dict stmt;
             c1 = add_if (dget d (u ''_type'') \<noteq> js STATEMENT_TYPE) ''statement-type-unsupported'' c;
             c2 = add_if (dget d (u ''predicateType'') \<noteq> js AEE_PREDICATE_TYPE)
                    ''predicate-type-unsupported'' c1;
             pred = dget d (u ''predicate'')
         in if pred \<noteq> JNull \<and> \<not> is_dict pred
            then (None, add_code ''predicate-type-unsupported'' c2)
            else (Some ((init_state d)\<lparr>st_pred := as_dict pred\<rparr>), c2)))"

text \<open>The codes of the optional \<open>issuedAt\<close> and of the egress posture.\<close>

definition issued_at_codes :: "json \<Rightarrow> codes \<Rightarrow> codes" where
  "issued_at_codes issued_at c =
     (if issued_at = JNull then add_code ''issued-at-missing'' c
      else add_if (\<not> timestamp_ok issued_at) ''issued-at-malformed'' c)"

definition environment_codes :: "jdict \<Rightarrow> codes \<Rightarrow> codes" where
  "environment_codes env c =
     fold (\<lambda>member. add_if (\<not> has_key env (u member)) ''environment-incomplete'')
       [''substrate'', ''corpus'', ''catchPolicy'', ''networkPosture''] c"

definition posture_codes :: "jdict \<Rightarrow> codes \<Rightarrow> codes" where
  "posture_codes env c =
     (let posture = dget env (u ''networkPosture'')
      in add_if (is_dict posture \<and> \<not> one_of (member posture ''posture'') EGRESS_POSTURES)
           ''posture-vocabulary'' c)"

definition check_gate0_wellformed :: check where
  "check_gate0_wellformed st c =
     (let pred = st_pred st;
          c1 = add_if (has_key pred (u ''does_not_assert'')) ''member-spelling'' c;
          result = dget pred (u ''result'')
      in bindr (in_keys result RESULT_ORDER) (\<lambda>known.
        (let c2 = add_if (\<not> known) ''result-vocabulary'' c1;
             issued_at = dget pred (u ''issuedAt'');
             c3 = issued_at_codes issued_at c2;
             env = as_dict (dget pred (u ''observationEnvironment''));
             c4 = environment_codes env c3;
             vocab = dget env (u ''observationVocabulary'');
             c5 = add_if (\<not> is_dict vocab) ''vocabulary-missing'' c4;
             c6 = posture_codes env c5
         in Inr (st\<lparr>st_result := result, st_issued_at := issued_at, st_env := env,
                    st_vocab := (if is_dict vocab then Some (as_dict vocab) else None)\<rparr>, c6))))"

section \<open>The observation vocabulary\<close>

text \<open>One iteration of \<open>_vocab_shape_ok\<close>.\<close>

definition vocab_array_ok :: "json \<Rightarrow> bool res" where
  "vocab_array_ok arr =
     (if \<not> (is_list arr \<and> list_all is_str (as_list arr)) then Inr False
      else bindr (mapr str_sort_key (as_list arr)) (\<lambda>ks.
        Inr (sorted ks \<and> distinct (as_list arr) \<and>
             list_all (\<lambda>v. case v of JStr s \<Rightarrow> all_bmp [s] | _ \<Rightarrow> False) (as_list arr))))"

definition vocab_shape_ok :: "json \<Rightarrow> json \<Rightarrow> bool res" where
  "vocab_shape_ok labels caught =
     bindr (vocab_array_ok labels) (\<lambda>ok. if ok then vocab_array_ok caught else Inr False)"

definition py_subset :: "json list \<Rightarrow> json list \<Rightarrow> bool res" where
  "py_subset xs ys =
     bindr (py_set xs) (\<lambda>a. bindr (py_set ys) (\<lambda>b. Inr (list_all (\<lambda>x. py_in x b) a)))"

definition vocab_check_pairs :: "ctx \<Rightarrow> jdict \<Rightarrow> json \<Rightarrow> json \<Rightarrow> codes \<Rightarrow> codes res" where
  "vocab_check_pairs cx vocab labels caught c =
     (if \<not> (is_list labels \<and> is_list caught) then Inr c
      else bindr (py_subset (as_list caught) (as_list labels)) (\<lambda>sub.
        bindr (jcs_dumps (JObj [(u ''caught'', caught), (u ''labels'', labels)])) (\<lambda>b.
          Inr (add_if (digest_of (JObj vocab) \<noteq> JStr (sha256_hex cx b)) ''vocabulary-digest-mismatch''
                 (add_if (\<not> sub) ''vocabulary-caught-not-subset'' c)))))"

definition check_vocabulary :: "ctx \<Rightarrow> check" where
  "check_vocabulary cx st c =
     (case st_vocab st of
        None \<Rightarrow> Inr (st\<lparr>st_labels := None, st_caught := None\<rparr>, c)
      | Some vocab \<Rightarrow>
          (let labels = dget vocab (u ''labels''); caught = dget vocab (u ''caught'');
               both = (is_list labels \<and> is_list caught)
           in bindr (vocab_shape_ok labels caught) (\<lambda>ok.
             bindr (vocab_check_pairs cx vocab labels caught
                      (add_if (\<not> ok) ''vocabulary-not-canonical'' c)) (\<lambda>c'.
               Inr (st\<lparr>st_labels := (if both then Some (as_list labels) else None),
                       st_caught := (if both then Some (as_list caught) else None)\<rparr>, c')))))"

section \<open>The corpus manifest\<close>

definition corpus_digest :: "ctx \<Rightarrow> json \<Rightarrow> json \<Rightarrow> codes \<Rightarrow> codes res" where
  "corpus_digest cx corpus manifest c =
     exceptr (bindr (jcs_dumps manifest) (\<lambda>b.
         Inr (add_if (digest_of corpus \<noteq> JStr (sha256_hex cx b)) ''corpus-digest-mismatch'' c)))
       (\<lambda>e. e = JcsError) (Inr (add_code ''corpus-digest-mismatch'' c))"

text \<open>The number of attack identifiers over all classes; a value that is not a list declares none.\<close>

definition declared_count :: "json \<Rightarrow> nat" where
  "declared_count classes = sum_list (map (\<lambda>(_, ids). length (as_list ids)) (as_dict classes))"

definition corpus_declares_attack :: "json \<Rightarrow> codes \<Rightarrow> codes" where
  "corpus_declares_attack classes c =
     add_if (declared_count classes = 0) ''corpus-manifest-no-attacks'' c"

text \<open>All attack identifiers of the manifest, in the order its classes list them.\<close>

definition manifest_ids :: "jdict \<Rightarrow> json list" where
  "manifest_ids classes = concat (map (\<lambda>(_, ids). as_list ids) classes)"

fun corpus_dupes :: "json list \<Rightarrow> json list \<Rightarrow> codes \<Rightarrow> codes res" where
  "corpus_dupes seen [] c = Inr c"
| "corpus_dupes seen (aid # ids) c =
     bindr (in_set aid seen) (\<lambda>dup.
       corpus_dupes (aid # seen) ids (add_if dup ''manifest-duplicate-attack'' c))"

definition str_values :: "json list \<Rightarrow> ustr list" where
  "str_values vs = concat (map (\<lambda>v. case v of JStr s \<Rightarrow> [s] | _ \<Rightarrow> []) vs)"

definition corpus_expected :: "json \<Rightarrow> ustr list \<Rightarrow> codes \<Rightarrow> (json \<times> codes) res" where
  "corpus_expected manifest declared c =
     (if is_dict manifest \<and> has_key (as_dict manifest) (u ''expectedPayloads'') then
        (let expected = member manifest ''expectedPayloads''
         in bindr (expected_payloads_ok expected declared) (\<lambda>ok.
              Inr (if ok then (expected, c)
                   else (JNull, add_code ''manifest-expected-payloads-malformed'' c))))
      else Inr (JNull, c))"

definition check_corpus :: "ctx \<Rightarrow> check" where
  "check_corpus cx st c =
     (let corpus = dget (st_env st) (u ''corpus'')
      in if \<not> is_dict corpus then Inr (st\<lparr>st_classes := None\<rparr>, c)
         else
           (let manifest = member corpus ''manifest'';
                classes = member manifest ''classes'';
                c1 = add_if (manifest = JNull) ''environment-incomplete'' c
            in bindr (if is_dict manifest then
                        bindr (corpus_digest cx corpus manifest c1) (\<lambda>c2.
                          Inr (corpus_declares_attack classes c2))
                      else Inr c1) (\<lambda>c3.
               bindr (if is_dict classes then corpus_dupes [] (manifest_ids (as_dict classes)) c3
                      else Inr c3) (\<lambda>c4.
               let declared = (if is_dict classes then str_values (manifest_ids (as_dict classes))
                               else st_declared st)
               in bindr (corpus_expected manifest declared c4) (\<lambda>(expected, c5).
                    Inr (st\<lparr>st_classes := (if is_dict classes then Some (as_dict classes) else None),
                            st_declared := declared, st_expected := expected\<rparr>, c5))))))"

section \<open>Rows and binding inputs\<close>

definition check_rows_setup :: check where
  "check_rows_setup st c =
     (let c1 = add_if (\<not> has_key (st_pred st) (u ''attackResults'')) ''statement-malformed'' c;
          rows = map as_dict (filter is_dict (as_list (dget (st_pred st) (u ''attackResults''))))
      in Inr (st\<lparr>st_rows := rows,
                 st_has_substrate := list_ex (\<lambda>r. dget r (u ''basis'') = js ''substrate'') rows\<rparr>, c1))"

definition check_subject_cardinality :: check where
  "check_subject_cardinality st c =
     Inr (st, add_if (length (as_list (dget (st_stmt st) (u ''subject''))) \<noteq> 1)
                ''subject-cardinality'' c)"

definition binding_digest_canonical :: "jdict \<Rightarrow> json \<Rightarrow> codes \<Rightarrow> codes" where
  "binding_digest_canonical env subj_digest c =
     fold (\<lambda>val. add_if (val \<noteq> JNull \<and> \<not> is_hex64_lower val) ''digest-not-canonical'')
       (subj_digest # map (\<lambda>k. digest_of (dget env (u k)))
          [''substrate'', ''corpus'', ''catchPolicy'', ''networkPosture'', ''runEntropy'']) c"

definition check_substrate_binding_inputs :: check where
  "check_substrate_binding_inputs st c =
     (if \<not> st_has_substrate st then Inr (st, c)
      else
        (let subject = as_list (dget (st_stmt st) (u ''subject''));
             subj_digest = (case subject of [] \<Rightarrow> JNull | s # _ \<Rightarrow> digest_of s);
             c1 = add_if (subject \<noteq> [] \<and> subj_digest = JNull) ''subject-sha256-missing'' c;
             c2 = add_if (\<not> has_key (st_env st) (u ''runEntropy'')) ''run-entropy-missing'' c1
         in Inr (st, binding_digest_canonical (st_env st) subj_digest c2)))"

text \<open>Per-row members: strictly typed, the layer present, and \<open>none\<close> on a clean row.\<close>

definition row_type_codes :: "jdict \<Rightarrow> codes \<Rightarrow> codes" where
  "row_type_codes r c =
     fold (\<lambda>m. add_if (has_key r (u m) \<and> \<not> is_str (dget r (u m))) ''statement-malformed'')
       [''attackId'', ''containmentObserved'', ''basis'', ''method'', ''actualLayer''] c"

definition clean_layer_bad :: "json list \<Rightarrow> json list \<Rightarrow> jdict \<Rightarrow> bool" where
  "clean_layer_bad labels caught r \<longleftrightarrow>
     (let lab = dget r (u ''containmentObserved'')
      in py_in lab labels \<and> \<not> py_in lab caught \<and> has_key r (u ''actualLayer'') \<and>
         dget r (u ''actualLayer'') \<noteq> js ''none'')"

definition check_per_row_statements :: check where
  "check_per_row_statements st c =
     (let c1 = fold row_type_codes (st_rows st) c;
          c2 = fold (\<lambda>r. add_if (\<not> has_key r (u ''actualLayer'')) ''malformed-missing-actual-layer'')
                 (st_rows st) c1
      in Inr (st, (case (st_labels st, st_caught st) of
                     (Some labels, Some caught) \<Rightarrow>
                       fold (\<lambda>r. add_if (clean_layer_bad labels caught r) ''clean-row-layer-not-none'')
                         (st_rows st) c2
                   | _ \<Rightarrow> c2)))"

text \<open>A row whose label, basis, method or attribution is outside its closed vocabulary.\<close>

definition row_fail_closed :: "json list option \<Rightarrow> jdict \<Rightarrow> bool" where
  "row_fail_closed labels r \<longleftrightarrow>
     (case labels of None \<Rightarrow> False | Some ls \<Rightarrow> \<not> py_in (dget r (u ''containmentObserved'')) ls) \<or>
     \<not> one_of (dget r (u ''basis'')) [''substrate'', ''artifact''] \<or>
     \<not> one_of (dget r (u ''method'')) [''intercepted'', ''reconstructed''] \<or>
     \<not> one_of (dget r (u ''attribution'')) [''pinned'', ''paired'']"

definition check_fail_closed_rows :: check where
  "check_fail_closed_rows st c =
     (let bad = filter (\<lambda>(i, r). row_fail_closed (st_labels st) r) (enumerate 0 (st_rows st))
      in Inr (st\<lparr>st_fail_closed := map fst bad\<rparr>,
              fold (\<lambda>(i, r). add_if (dget r (u ''basis'') = js ''substrate'') ''fail-closed-substrate-row'')
                bad c))"

end
