(* ===== verification/Coverage.thy ===== *)
theory Coverage
  imports Gate0
begin

text \<open>
  Coverage integrity of the reference verifier (\<open>_check_coverage\<close> of \<open>packaging/run_vectors.py\<close>): the
  coverage member partitions the manifest's classes, and the rows carry the attack identifiers of the
  assessed classes. A Python dictionary keyed by carried values is an association list whose keys
  compare with \<open>py_eq\<close>.
\<close>

section \<open>Dictionaries keyed by carried values\<close>

fun lookup :: "(json \<times> 'a) list \<Rightarrow> json \<Rightarrow> 'a option" where
  "lookup [] k = None"
| "lookup ((k', v) # d) k = (if py_eq k k' then Some v else lookup d k)"

fun store :: "(json \<times> 'a) list \<Rightarrow> json \<Rightarrow> 'a \<Rightarrow> (json \<times> 'a) list" where
  "store [] k v = [(k, v)]"
| "store ((k', v') # d) k v = (if py_eq k k' then (k', v) # d else (k', v') # store d k v)"

text \<open>\<open>acct[c] = acct.get(c, 0) + 1\<close> over the three members.\<close>

definition count_class :: "json \<Rightarrow> (json \<times> nat) list \<Rightarrow> (json \<times> nat) list res" where
  "count_class c acct =
     bindr (hash_check c) (\<lambda>_.
       Inr (store acct c (case lookup acct c of None \<Rightarrow> 1 | Some n \<Rightarrow> n + 1)))"

definition str_keys :: "jdict \<Rightarrow> json list" where
  "str_keys d = map (\<lambda>(k, _). JStr k) d"

definition coverage_partition_ok :: "jdict \<Rightarrow> json list \<Rightarrow> jdict \<Rightarrow> jdict \<Rightarrow> bool res" where
  "coverage_partition_ok classes assessed oos routed =
     bindr (loopr count_class (assessed @ str_keys oos @ str_keys routed) []) (\<lambda>acct.
       Inr (list_all (\<lambda>(c, n). n = 1 \<and> c \<in> set (str_keys classes)) acct \<and>
            list_all (\<lambda>c. lookup acct c = Some 1) (str_keys classes)))"

section \<open>The attack index\<close>

text \<open>\<open>attack_class.setdefault(aid, cls)\<close>: the first class that lists an identifier owns it.\<close>

definition index_attack :: "(ustr \<times> json) \<Rightarrow> (json \<times> ustr) list \<Rightarrow> (json \<times> ustr) list res" where
  "index_attack p idx =
     (case p of (cls, aid) \<Rightarrow>
       bindr (hash_check aid) (\<lambda>_.
         Inr (if lookup idx aid = None then idx @ [(aid, cls)] else idx)))"

definition class_attacks :: "jdict \<Rightarrow> (ustr \<times> json) list" where
  "class_attacks classes =
     concat (map (\<lambda>(cls, ids). map (Pair cls) (as_list ids)) classes)"

text \<open>\<open>manifest_classes.get(cls)\<close> of a carried value; only a string can be a member.\<close>

definition class_ids :: "jdict \<Rightarrow> json \<Rightarrow> json list res" where
  "class_ids classes cls =
     bindr (hash_check cls) (\<lambda>_. Inr (case cls of JStr s \<Rightarrow> as_list (dget classes s) | _ \<Rightarrow> []))"

definition coverage_index :: "jdict \<Rightarrow> json list \<Rightarrow> ((json \<times> ustr) list \<times> json list) res" where
  "coverage_index classes assessed =
     bindr (loopr index_attack (class_attacks classes) []) (\<lambda>idx.
     bindr (mapr (class_ids classes) assessed) (\<lambda>ids.
     bindr (mapr hash_check (concat ids)) (\<lambda>_. Inr (idx, concat ids))))"

section \<open>Rows against the index\<close>

text \<open>One iteration over the rows: the identifiers seen so far and the codes.\<close>

definition coverage_row ::
  "(json \<times> ustr) list \<Rightarrow> json list \<Rightarrow> jdict \<Rightarrow> json list \<times> codes \<Rightarrow> (json list \<times> codes) res" where
  "coverage_row idx assessed r s =
     (case s of (row_ids, c) \<Rightarrow>
       (let aid = dget r (u ''attackId'')
        in bindr (in_set aid row_ids) (\<lambda>dup.
          (let c1 = add_if dup ''statement-malformed'' c
           in Inr (aid # row_ids,
                   (case lookup idx aid of
                      None \<Rightarrow> add_code ''row-attack-unknown'' c1
                    | Some cls \<Rightarrow> add_if (\<not> py_in (JStr cls) assessed) ''coverage-incomplete'' c1))))))"

definition coverage_check_rows :: "jdict list \<Rightarrow> jdict \<Rightarrow> json list \<Rightarrow> codes \<Rightarrow> codes res" where
  "coverage_check_rows rows classes assessed c =
     bindr (coverage_index classes assessed) (\<lambda>(idx, expected).
     bindr (loopr (coverage_row idx assessed) rows ([], c)) (\<lambda>(row_ids, c').
       Inr (add_if (list_ex (\<lambda>e. \<not> (py_in e row_ids \<and> lookup idx e \<noteq> None)) expected)
              ''coverage-incomplete'' c')))"

definition check_coverage :: check where
  "check_coverage st c =
     (let coverage = dget (st_pred st) (u ''coverage'');
          st' = st\<lparr>st_coverage := coverage\<rparr>
      in if \<not> is_dict coverage then Inr (st', add_code ''coverage-missing'' c)
         else (case st_classes st of
                 None \<Rightarrow> Inr (st', c)
               | Some classes \<Rightarrow>
                   (let assessed = as_list (member coverage ''assessedClasses'');
                        oos = as_dict (member coverage ''outOfScope'');
                        routed = as_dict (member coverage ''routedElsewhere'')
                    in bindr (coverage_partition_ok classes assessed oos routed) (\<lambda>ok.
                       bindr (coverage_check_rows (st_rows st) classes assessed
                                (add_if (\<not> ok) ''coverage-incomplete'' c)) (\<lambda>c'.
                         Inr (st', c'))))))"

section \<open>The partition\<close>

lemma lookup_store_str: "lookup (store d (JStr s) v) (JStr s) = Some v"
  by (induction d) auto

lemma lookup_store_str_other: "s \<noteq> t \<Longrightarrow> lookup (store d (JStr s) v) (JStr t) = lookup d (JStr t)"
  by (induction d) auto

lemma lookup_store_nonstr: "\<not> is_str k \<Longrightarrow> lookup (store d k v) (JStr t) = lookup d (JStr t)"
  by (induction d) auto

definition occurrences :: "ustr \<Rightarrow> json list \<Rightarrow> nat" where
  "occurrences s vs = count_list vs (JStr s)"

definition as_count :: "nat \<Rightarrow> nat option" where
  "as_count n = (if n = 0 then None else Some n)"

lemma count_class_str:
  assumes "count_class c acct = Inr acct'"
  shows "lookup acct' (JStr s) =
    (if c = JStr s then Some (case lookup acct (JStr s) of None \<Rightarrow> 1 | Some n \<Rightarrow> n + 1)
     else lookup acct (JStr s))"
proof (cases "c = JStr s")
  case True
  with assms show ?thesis by (auto simp: count_class_def bindr_Inr_iff lookup_store_str)
next
  case False
  have "lookup (store acct c n) (JStr s) = lookup acct (JStr s)" for n
  proof (cases "is_str c")
    case True
    then obtain t where "c = JStr t" by (auto simp: is_str_iff)
    with False lookup_store_str_other [of t s acct n] show ?thesis by simp
  qed (rule lookup_store_nonstr)
  with False assms show ?thesis by (auto simp: count_class_def bindr_Inr_iff)
qed

lemma count_class_loop:
  assumes "loopr count_class vs acct = Inr acct'" and "lookup acct (JStr s) = as_count n"
  shows "lookup acct' (JStr s) = as_count (n + occurrences s vs)"
  using assms
proof (induction vs arbitrary: acct n)
  case (Cons c vs)
  then obtain a where a: "count_class c acct = Inr a" "loopr count_class vs a = Inr acct'"
    by (auto simp: bindr_Inr_iff)
  have "lookup a (JStr s) = as_count (if c = JStr s then n + 1 else n)"
    using count_class_str [OF a(1), of s] Cons.prems(2) by (auto simp: as_count_def)
  from Cons.IH [OF a(2) this] show ?case by (auto simp: occurrences_def)
qed (simp add: occurrences_def)

lemma store_keys:
  "fst ` set d \<subseteq> fst ` set (store d k v)"
  "\<exists>k' \<in> fst ` set (store d k v). py_eq k k' \<or> k' = k"
  by (induction d k v rule: store.induct) auto

lemma loop_count_Cons:
  assumes "loopr count_class (c # vs) acct = Inr acct'"
  obtains n where "loopr count_class vs (store acct c n) = Inr acct'"
proof -
  from assms obtain a where "count_class c acct = Inr a" "loopr count_class vs a = Inr acct'"
    by (auto simp: bindr_Inr_iff)
  moreover from this obtain n where "a = store acct c n"
    by (auto simp: count_class_def bindr_Inr_iff)
  ultimately show thesis using that by blast
qed

lemma count_class_mono:
  "loopr count_class vs acct = Inr acct' \<Longrightarrow> fst ` set acct \<subseteq> fst ` set acct'"
proof (induction vs arbitrary: acct)
  case (Cons c vs)
  from loop_count_Cons [OF Cons.prems] obtain n where "loopr count_class vs (store acct c n) = Inr acct'" .
  from Cons.IH [OF this] store_keys(1) show ?case by (meson subset_trans)
qed simp

lemma count_class_keys:
  "loopr count_class vs acct = Inr acct' \<Longrightarrow> v \<in> set vs \<Longrightarrow>
   \<exists>k \<in> fst ` set acct'. py_eq v k \<or> k = v"
proof (induction vs arbitrary: acct)
  case (Cons c vs)
  from loop_count_Cons [OF Cons.prems(1)] obtain n
    where l: "loopr count_class vs (store acct c n) = Inr acct'" .
  show ?case
  proof (cases "v \<in> set vs")
    case False
    with Cons.prems(2) have "v = c" by simp
    with store_keys(2) count_class_mono [OF l] show ?thesis by (meson subsetD)
  qed (rule Cons.IH [OF l])
qed simp

text \<open>
  What an accepted coverage means: every entry of the three members is the name of a manifest class,
  and every manifest class is named exactly once.
\<close>

lemma coverage_partition_ok_True:
  assumes "coverage_partition_ok classes assessed oos routed = Inr True"
  shows "(\<forall>v \<in> set (assessed @ str_keys oos @ str_keys routed). \<exists>c \<in> fst ` set classes. v = JStr c) \<and>
    (\<forall>c \<in> fst ` set classes. occurrences c (assessed @ str_keys oos @ str_keys routed) = 1)"
proof -
  let ?vs = "assessed @ str_keys oos @ str_keys routed"
  from assms obtain acct where acct: "loopr count_class ?vs [] = Inr acct"
    and keys: "\<forall>(c, n) \<in> set acct. n = 1 \<and> c \<in> set (str_keys classes)"
    and one: "\<forall>c \<in> set (str_keys classes). lookup acct c = Some 1"
    by (auto simp: coverage_partition_ok_def bindr_Inr_iff list_all_iff)
  have "occurrences c ?vs = 1" if "c \<in> fst ` set classes" for c
  proof -
    have "JStr c \<in> set (str_keys classes)" using that by (force simp: str_keys_def)
    with one count_class_loop [OF acct, of c 0] show ?thesis
      by (auto simp: as_count_def split: if_splits)
  qed
  moreover have "\<exists>c \<in> fst ` set classes. v = JStr c" if v: "v \<in> set ?vs" for v
  proof -
    from count_class_keys [OF acct v] obtain k n where k: "(k, n) \<in> set acct" "py_eq v k \<or> k = v"
      by fastforce
    with keys have "k \<in> set (str_keys classes)" by auto
    with k(2) show ?thesis by (force simp: str_keys_def)
  qed
  ultimately show ?thesis by blast
qed

end
