(* ===== verification/Records.thy ===== *)
theory Records
  imports Coverage
begin

text \<open>
  The statement-level record checks of the reference verifier (\<open>packaging/run_vectors.py\<close>): envelope
  shape, the batch root over the records' pre-authentication encodings, repeated records, the run
  binding, and the verification of a record's signatures against the pinned keys.
\<close>

section \<open>Batch root and repeated records\<close>

abbreviation pae_of :: "view \<Rightarrow> bytes" where
  "pae_of v \<equiv> the (rv_pae v)"

definition pae_leaves :: "view list \<Rightarrow> bytes list" where
  "pae_leaves views = concat (map (\<lambda>v. case rv_pae v of None \<Rightarrow> [] | Some p \<Rightarrow> [p]) views)"

definition records_batch_root :: "ctx \<Rightarrow> jdict \<Rightarrow> view list \<Rightarrow> codes \<Rightarrow> codes res" where
  "records_batch_root cx pred views c =
     (let root = dget pred (u ''batchRoot'')
      in if root = JNull then Inr (add_code ''batch-root-missing'' c)
         else if list_all (\<lambda>v. rv_pae v \<noteq> None) views then
           bindr (merkle_root_hex (cx_sha256 cx) (pae_leaves views)) (\<lambda>r.
             Inr (add_if (JStr r \<noteq> root) ''batch-root-mismatch'' c))
         else Inr (add_code ''batch-root-mismatch'' c))"

definition jcs_dumps_safe :: "ctx \<Rightarrow> json \<Rightarrow> bytes res" where
  "jcs_dumps_safe cx obj = exceptr (jcs_dumps obj) (\<lambda>e. e = JcsError) (Inr (cx_repr cx obj))"

definition record_key :: "ctx \<Rightarrow> view \<Rightarrow> bytes res" where
  "record_key cx v = (case rv_pae v of Some p \<Rightarrow> Inr p | None \<Rightarrow> jcs_dumps_safe cx (rv_raw v))"

text \<open>One iteration of \<open>_records_duplicates\<close>: the keys seen and the codes.\<close>

definition record_duplicate :: "ctx \<Rightarrow> view \<Rightarrow> bytes list \<times> codes \<Rightarrow> (bytes list \<times> codes) res" where
  "record_duplicate cx v s =
     (case s of (seen, c) \<Rightarrow>
       if rv_decode_err v then Inr (seen, c)
       else bindr (record_key cx v) (\<lambda>k.
         Inr (k # seen, add_if (k \<in> set seen) ''duplicate-record'' c)))"

definition records_duplicates :: "ctx \<Rightarrow> view list \<Rightarrow> codes \<Rightarrow> codes res" where
  "records_duplicates cx views c =
     bindr (loopr (record_duplicate cx) views ([], c)) (\<lambda>(_, c'). Inr c')"

text \<open>The codes of the decoded records: an undecodable one takes the place of the batch root.\<close>

definition records_codes :: "ctx \<Rightarrow> jdict \<Rightarrow> view list \<Rightarrow> codes \<Rightarrow> codes res" where
  "records_codes cx pred views c =
     (let c1 = add_if (list_ex (\<lambda>v. rv_sigs v = 0) views) ''record-signatures-empty'' c
      in bindr (if list_ex rv_decode_err views then Inr (add_code ''record-undecodable'' c1)
                else records_batch_root cx pred views c1)
           (records_duplicates cx views))"

definition check_records :: "ctx \<Rightarrow> check" where
  "check_records cx st c =
     (let records = as_list (dget (st_pred st) (u ''observationRecords''))
      in if records = [] then
           Inr (st\<lparr>st_has_records := False, st_views := []\<rparr>,
                add_if (dget (st_pred st) (u ''batchRoot'') \<noteq> JNull) ''batch-root-orphaned'' c)
         else
           bindr (mapr (\<lambda>(i, rec). record_view i rec) (enumerate 0 records)) (\<lambda>views.
             bindr (records_codes cx (st_pred st) views c) (\<lambda>c'.
               Inr (st\<lparr>st_has_records := True, st_views := views\<rparr>, c'))))"

section \<open>The run binding\<close>

text \<open>The guarded expression: lookups that fail leave the binding undefined.\<close>

definition derive_binding :: "ctx \<Rightarrow> jdict \<Rightarrow> jdict \<Rightarrow> json res" where
  "derive_binding cx stmt env =
     exceptr
       (bindr (item (JObj stmt) (u ''subject'')) (\<lambda>subject.
        bindr (item0 subject) (\<lambda>subject0.
        bindr (item subject0 (u ''digest'')) (\<lambda>digest.
        bindr (item digest (u ''sha256'')) (\<lambda>sha.
        bindr (binding_preimage cx env sha) (\<lambda>vals.
          case vals of
            None \<Rightarrow> Inr JNull
          | Some d \<Rightarrow>
              if list_all (\<lambda>(_, v). is_str v) d
              then bindr (jcs_dumps (JObj d)) (\<lambda>b. Inr (JStr (sha256_hex cx b)))
              else Inr JNull)))))) is_lookup_error (Inr JNull)"

definition check_run_binding :: "ctx \<Rightarrow> check" where
  "check_run_binding cx st c =
     (if \<not> st_has_substrate st then Inr (st\<lparr>st_binding := JNull\<rparr>, c)
      else bindr (derive_binding cx (st_stmt st) (st_env st)) (\<lambda>b. Inr (st\<lparr>st_binding := b\<rparr>, c)))"

section \<open>Signatures\<close>

text \<open>One entry of the \<open>signatures\<close> member verifies under one of the pinned keys.\<close>

definition signature_verifies :: "ctx \<Rightarrow> bytes \<Rightarrow> json \<Rightarrow> bool" where
  "signature_verifies cx p sig =
     (case fst (decoded_payload (member sig ''sig'')) of
        None \<Rightarrow> False
      | Some b \<Rightarrow> list_ex (\<lambda>pub. ed25519_verify (cx_sha512 cx) pub p b) (cx_pins cx))"

definition record_verifies :: "ctx \<Rightarrow> view \<Rightarrow> bool" where
  "record_verifies cx rv =
     (case rv_pae rv of
        None \<Rightarrow> False
      | Some p \<Rightarrow> list_ex (signature_verifies cx p) (as_list (member (rv_raw rv) ''signatures'')))"

section \<open>What the record checks establish\<close>

lemma record_verifies_key:
  assumes "record_verifies cx rv"
  shows "\<exists>p pub sig. rv_pae rv = Some p \<and> pub \<in> set (cx_pins cx) \<and>
    ed25519_verify (cx_sha512 cx) pub p sig"
  using assms
  by (fastforce simp: record_verifies_def signature_verifies_def list_ex_iff split: option.splits)

lemma pae_leaves_all:
  "list_all (\<lambda>v. rv_pae v \<noteq> None) views \<Longrightarrow> pae_leaves views = map (pae_of) views"
  by (induction views) (auto simp: pae_leaves_def)

lemma records_batch_root_clean:
  assumes "records_batch_root cx pred views c = Inr []"
  shows "c = [] \<and> list_all (\<lambda>v. rv_pae v \<noteq> None) views \<and>
    (\<exists>r. dget pred (u ''batchRoot'') = JStr r \<and>
      merkle_root_hex (cx_sha256 cx) (map pae_of views) = Inr r)"
  using assms
  by (auto simp: records_batch_root_def Let_def bindr_Inr_iff pae_leaves_all split: if_splits)

lemma record_duplicate_extends:
  "record_duplicate cx v (seen, c) = Inr (seen', c') \<Longrightarrow> extends c c' \<and> set seen \<subseteq> set seen'"
  by (auto simp: record_duplicate_def bindr_Inr_iff extends_add_if split: if_splits)

lemma duplicates_loop:
  assumes "loopr (record_duplicate cx) views (seen, c) = Inr (seen', [])"
  shows "c = [] \<and> set seen \<subseteq> set seen' \<and>
    (list_all (\<lambda>v. \<not> rv_decode_err v \<and> rv_pae v \<noteq> None) views \<longrightarrow>
      distinct (map (pae_of) views) \<and> set (map (pae_of) views) \<inter> set seen = {})"
  using assms
proof (induction views arbitrary: seen c)
  case (Cons v views)
  then obtain s d where s: "record_duplicate cx v (seen, c) = Inr (s, d)"
    "loopr (record_duplicate cx) views (s, d) = Inr (seen', [])"
    by (auto simp: bindr_Inr_iff)
  from Cons.IH [OF s(2)] record_duplicate_extends [OF s(1)] have d: "d = []" "c = []"
    "set seen \<subseteq> set seen'" by auto
  moreover have "distinct (map (pae_of) (v # views)) \<and>
      set (map (pae_of) (v # views)) \<inter> set seen = {}"
    if all: "list_all (\<lambda>v. \<not> rv_decode_err v \<and> rv_pae v \<noteq> None) (v # views)"
  proof -
    from all obtain p where p: "rv_pae v = Some p" "\<not> rv_decode_err v" by auto
    with s(1) d have "s = p # seen" "p \<notin> set seen"
      by (auto simp: record_duplicate_def record_key_def add_if_def split: if_splits)
    with Cons.IH [OF s(2)] all p show ?thesis by auto
  qed
  ultimately show ?case by blast
qed simp

text \<open>A clean statement-level check of records: every record decodes, carries a signature entry, the
  batch root is the root of their encodings, and no two records are the same.\<close>

lemma records_codes_clean:
  assumes "records_codes cx pred views c = Inr []"
  shows "c = [] \<and> list_all (\<lambda>v. rv_pae v \<noteq> None \<and> rv_sigs v \<noteq> 0 \<and> \<not> rv_decode_err v) views \<and>
    distinct (map pae_of views) \<and>
    (\<exists>r. dget pred (u ''batchRoot'') = JStr r \<and>
      merkle_root_hex (cx_sha256 cx) (map pae_of views) = Inr r)"
proof -
  define c1 where "c1 = add_if (list_ex (\<lambda>v. rv_sigs v = 0) views) ''record-signatures-empty'' c"
  from assms obtain c2 s where
    root: "(if list_ex rv_decode_err views then Inr (add_code ''record-undecodable'' c1)
       else records_batch_root cx pred views c1) = Inr c2"
    and dup: "loopr (record_duplicate cx) views ([], c2) = Inr (s, [])"
    unfolding records_codes_def Let_def c1_def [symmetric]
    by (auto simp: records_duplicates_def bindr_Inr_iff)
  note d = duplicates_loop [OF dup]
  with root have err: "\<not> list_ex rv_decode_err views" and "records_batch_root cx pred views c1 = Inr []"
    by (auto split: if_splits)
  note r = records_batch_root_clean [OF this(2)]
  then have "c = []" "\<not> list_ex (\<lambda>v. rv_sigs v = 0) views" by (auto simp: c1_def)
  with r d err show ?thesis by (auto simp: list_all_iff list_ex_iff)
qed

end
