(* ===== verification/Gate1.thy ===== *)
theory Gate1
  imports Records
begin

text \<open>
  GATE 1 of the reference verifier (\<open>packaging/run_vectors.py\<close>): the constraints of the record kinds
  (\<open>_arming_ok\<close>, \<open>_sealed_ok\<close>, \<open>_examination_ok\<close>) and the coverage of each \<open>basis: substrate\<close> row
  by the records it references.
\<close>

section \<open>Record kinds\<close>

definition CHAIN_SCOPE_VOCAB :: "string list" where
  "CHAIN_SCOPE_VOCAB = [''subject'', ''corpus'', ''networkPosture'']"

definition scope_ok :: "json list \<Rightarrow> bool res" where
  "scope_ok scope =
     bindr (anyr (\<lambda>tok. bindr (in_set tok (map js CHAIN_SCOPE_VOCAB)) (\<lambda>b. Inr (\<not> b))) scope) (\<lambda>bad.
       if bad then Inr False
       else bindr (mapr str_sort_key scope) (\<lambda>ks. Inr (sorted ks \<and> distinct scope)))"

definition arming_chain_ok :: "jdict \<Rightarrow> bool res" where
  "arming_chain_ok p =
     (let has_prev = has_key p (u ''aeePrevRunBinding''); has_scope = has_key p (u ''aeeChainScope'');
          seq = dget p (u ''aeeRunSeq''); scope = dget p (u ''aeeChainScope'')
      in if \<not> has_key p (u ''aeeRunSeq'') then Inr (\<not> has_prev \<and> \<not> has_scope)
         else case seq of
           JInt n \<Rightarrow>
             if n < 1 then Inr False
             else if \<not> is_list scope then Inr False
             else bindr (scope_ok (as_list scope)) (\<lambda>ok.
               if \<not> ok then Inr False
               else if n = 1 then Inr (\<not> has_prev)
               else Inr (is_hex64_lower (dget p (u ''aeePrevRunBinding''))))
         | _ \<Rightarrow> Inr False)"

text \<open>The order of two timestamps is read only when both are well formed.\<close>

fun armed_after :: "json \<Rightarrow> json \<Rightarrow> bool" where
  "armed_after (JStr a) (JStr b) = later a b"
| "armed_after _ _ = False"

definition payload_of :: "view \<Rightarrow> jdict" where
  "payload_of rv = (case rv_payload rv of None \<Rightarrow> [] | Some p \<Rightarrow> p)"

definition arming_ok :: "view \<Rightarrow> json \<Rightarrow> json \<Rightarrow> ustr list \<Rightarrow> bool res" where
  "arming_ok rv pinned_posture issued_at declared =
     (let armed = payload_get rv ''armedAt''; bv = payload_get rv ''aeeBindingVersion''
      in if \<not> timestamp_ok armed then Inr False
         else if timestamp_ok issued_at \<and> armed_after armed issued_at then Inr False
         else if \<not> py_eq (payload_get rv ''aeePostureDigest'') pinned_posture then Inr False
         else if payload_get rv ''aeeMethod'' \<noteq> js ''intercepted'' then Inr False
         else if bv \<noteq> JNull \<and> bv \<noteq> js BINDING_VERSION then Inr False
         else bindr (arming_chain_ok (payload_of rv)) (\<lambda>ok.
           if \<not> ok then Inr False
           else attack_id_array_ok (payload_get rv ''aeeAssessedAttacks'') declared))"

definition sealed_commitments_ok :: "view \<Rightarrow> ustr list \<Rightarrow> bool res" where
  "sealed_commitments_ok rv declared =
     (if \<not> is_hex64_lower (payload_get rv ''aeeObservedSet'') then Inr False
      else attack_id_array_ok (payload_get rv ''aeeObservedAttacks'') declared)"

text \<open>A drop count is a non-negative integer, and a positive one needs a bound that holds it.\<close>

definition drops_ok :: "json \<Rightarrow> json \<Rightarrow> bool" where
  "drops_ok drops bound =
     (case drops of
        JInt n \<Rightarrow> 0 \<le> n \<and> (0 < n \<longrightarrow> (case bound of JInt b \<Rightarrow> n \<le> b | _ \<Rightarrow> False))
      | _ \<Rightarrow> False)"

definition sealed_ok :: "view \<Rightarrow> json \<Rightarrow> json list \<Rightarrow> ustr list \<Rightarrow> bool res" where
  "sealed_ok rv pinned_posture arming_postures declared =
     (let posture = payload_get rv ''aeePostureDigest''
      in if payload_get rv ''aeeStillArmed'' \<noteq> JBool True then Inr False
         else if \<not> drops_ok (payload_get rv ''aeeDropCount'') (payload_get rv ''aeeDropBound'') then Inr False
         else if \<not> py_eq posture pinned_posture then Inr False
         else if list_ex (\<lambda>a. \<not> py_eq posture a) arming_postures then Inr False
         else if payload_get rv ''aeeMethod'' \<noteq> js ''intercepted'' then Inr False
         else sealed_commitments_ok rv declared)"

definition examination_ok :: "view \<Rightarrow> bool" where
  "examination_ok rv \<longleftrightarrow> payload_get rv ''aeeMethod'' = js ''reconstructed''"

section \<open>References\<close>

text \<open>\<open>ref\<close> is an \<open>int\<close> at or past the number of records.\<close>

definition ref_beyond :: "nat \<Rightarrow> json \<Rightarrow> bool" where
  "ref_beyond n ref = (case ref of JInt i \<Rightarrow> int n \<le> i | _ \<Rightarrow> False)"

definition refs_of :: "jdict \<Rightarrow> json" where
  "refs_of r = dget r (u ''observationRefs'')"

definition check_refs_in_range :: "vstate \<Rightarrow> codes \<Rightarrow> codes" where
  "check_refs_in_range st c =
     add_if (list_ex (\<lambda>r. list_ex (ref_beyond (length (st_views st))) (as_list (refs_of r))) (st_rows st))
       ''ref-out-of-range'' c"

text \<open>\<open>_gate1_resolve_refs\<close>: the code of one index, if it is not good; the resolved views, the codes
  after the loop, and \<open>refs_ok\<close>.\<close>

definition ref_fault :: "nat \<Rightarrow> json \<Rightarrow> string option" where
  "ref_fault n ref =
     (case ref of
        JInt i \<Rightarrow>
          if i < 0 then Some ''ref-malformed''
          else if int n \<le> i then Some ''ref-out-of-range'' else None
      | _ \<Rightarrow> Some ''ref-malformed'')"

definition add_fault :: "string option \<Rightarrow> codes \<Rightarrow> codes" where
  "add_fault fault c = (case fault of None \<Rightarrow> c | Some code \<Rightarrow> add_code code c)"

fun ref_index :: "json \<Rightarrow> nat" where
  "ref_index (JInt i) = nat i"
| "ref_index _ = 0"

definition resolve_refs :: "view list \<Rightarrow> json list \<Rightarrow> codes \<Rightarrow> view list \<times> codes \<times> bool" where
  "resolve_refs views refs c =
     (let fault = ref_fault (length views)
      in (map (\<lambda>ref. views ! ref_index ref) (filter (\<lambda>ref. fault ref = None) refs),
          fold (\<lambda>ref. add_fault (fault ref)) refs c,
          list_all (\<lambda>ref. fault ref = None) refs))"

definition RESERVED_MEMBERS :: "string list" where
  "RESERVED_MEMBERS = [''aeeRunBinding'', ''aeeKind'', ''aeeMethod'']"

definition gate1_check_payload :: "json \<Rightarrow> view \<Rightarrow> codes \<Rightarrow> codes" where
  "gate1_check_payload binding rv c =
     (let c1 = add_if (\<not> rv_media_ok rv) ''payload-media-type'' c
      in case rv_error rv of
           Some code \<Rightarrow> add_code code c1
         | None \<Rightarrow>
             if rv_payload rv = None then add_code ''payload-not-canonical'' c1
             else
               add_if (binding \<noteq> JNull \<and> payload_has rv ''aeeRunBinding'' \<and>
                       \<not> py_eq (payload_get rv ''aeeRunBinding'') binding) ''run-binding-mismatch''
                 (add_if (list_ex (\<lambda>m. \<not> payload_has rv m) RESERVED_MEMBERS)
                    ''payload-missing-reserved'' c1))"

section \<open>Class match\<close>

definition REGISTERED_NONCOVERING :: "(string \<times> string) list" where
  "REGISTERED_NONCOVERING =
     [(''moat-drop'', ''moat-drop-covers-nothing''),
      (''uncommitted-observation'', ''uncommitted-observation-covers-nothing'')]"

definition COVERING_KINDS :: "string list" where
  "COVERING_KINDS = [''interception'', ''arming'', ''sealed'', ''examination'']"

text \<open>\<open>_REGISTERED_NONCOVERING.get(rv.kind or "")\<close> hashes a kind that is not falsy.\<close>

definition view_covers_nothing :: "view \<Rightarrow> string option res" where
  "view_covers_nothing rv =
     (let kind = rv_kind rv; key = (if truthy kind then kind else JStr [])
      in bindr (hash_check key) (\<lambda>_.
           Inr (case filter (\<lambda>(k, _). key = js k) REGISTERED_NONCOVERING of
                  (_, code) # _ \<Rightarrow> Some code
                | [] \<Rightarrow> if one_of kind COVERING_KINDS then None
                        else Some ''record-kind-unknown-covers-nothing'')))"

definition covers_nothing :: "view list \<Rightarrow> string option res" where
  "covers_nothing usable = firstr view_covers_nothing usable"

definition uncovered_code :: "string option \<Rightarrow> string \<Rightarrow> string" where
  "uncovered_code cn specific = (case cn of None \<Rightarrow> specific | Some code \<Rightarrow> code)"

definition of_kind :: "string \<Rightarrow> view list \<Rightarrow> view list" where
  "of_kind k views = filter (\<lambda>rv. rv_kind rv = js k) views"

definition cover_reconstructed :: "view list \<Rightarrow> string option \<Rightarrow> codes \<Rightarrow> view list \<times> codes" where
  "cover_reconstructed usable cn c =
     (let exams = of_kind ''examination'' usable; good = filter examination_ok exams
      in (good,
          if exams = [] then add_code (uncovered_code cn ''reconstructed-row-uncovered'') c
          else add_if (good = []) ''examination-covers-nothing'' c))"

text \<open>The loop over the interception records of a caught row.\<close>

fun commitments_loop :: "view list \<Rightarrow> codes \<Rightarrow> (view list \<times> codes) res" where
  "commitments_loop [] c = Inr ([], c)"
| "commitments_loop (rv # rvs) c =
     (let values = payload_get rv ''aeePayloadCommitment''
      in if values = JNull then commitments_loop rvs (add_code ''payload-missing-reserved'' c)
         else bindr (commitment_array_ok values) (\<lambda>ok.
           if \<not> ok then commitments_loop rvs (add_code ''payload-commitment-malformed'' c)
           else bindr (commitments_loop rvs c) (\<lambda>(good, c'). Inr (rv # good, c'))))"

definition cover_caught :: "view list \<Rightarrow> string option \<Rightarrow> codes \<Rightarrow> (view list \<times> codes) res" where
  "cover_caught usable cn c =
     (let inters = of_kind ''interception'' usable
      in if inters = [] then Inr ([], add_code (uncovered_code cn ''caught-row-uncovered'') c)
         else commitments_loop inters c)"

definition clean_arm ::
  "vstate \<Rightarrow> view list \<Rightarrow> string option \<Rightarrow> json \<Rightarrow> codes \<Rightarrow> (view list \<times> codes) res" where
  "clean_arm st usable cn posture c =
     (let armings = of_kind ''arming'' usable
      in bindr (filterr (\<lambda>rv. arming_ok rv posture (st_issued_at st) (st_declared st)) armings) (\<lambda>good.
           Inr (good,
                if armings = [] then add_code (uncovered_code cn ''clean-row-uncovered'') c
                else add_if (good = []) ''arming-covers-nothing'' c)))"

text \<open>The string posture claims of every arming record of a list.\<close>

definition arming_postures :: "view list \<Rightarrow> json list" where
  "arming_postures views =
     filter is_str (map (\<lambda>rv. payload_get rv ''aeePostureDigest'') (of_kind ''arming'' views))"

definition clean_seal ::
  "vstate \<Rightarrow> view list \<Rightarrow> string option \<Rightarrow> json \<Rightarrow> codes \<Rightarrow> (view list \<times> codes) res" where
  "clean_seal st usable cn posture c =
     (let sealeds = of_kind ''sealed'' usable
      in bindr (filterr (\<lambda>rv. sealed_ok rv posture (arming_postures usable) (st_declared st)) sealeds)
           (\<lambda>good.
             Inr (good,
                  if sealeds = [] then add_code (uncovered_code cn ''clean-row-uncovered'') c
                  else add_if (good = []) ''sealed-covers-nothing'' c)))"

definition cover_clean ::
  "vstate \<Rightarrow> view list \<Rightarrow> string option \<Rightarrow> json \<Rightarrow> codes \<Rightarrow> (view list \<times> codes) res" where
  "cover_clean st usable cn posture c =
     bindr (clean_arm st usable cn posture c) (\<lambda>(arm, c1).
     bindr (clean_seal st usable cn posture c1) (\<lambda>(seal, c2). Inr (arm @ seal, c2)))"

definition is_caught :: "vstate \<Rightarrow> jdict \<Rightarrow> bool" where
  "is_caught st r \<longleftrightarrow>
     (case st_caught st of None \<Rightarrow> False | Some caught \<Rightarrow> py_in (dget r (u ''containmentObserved'')) caught)"

definition gate1_class_match ::
  "vstate \<Rightarrow> jdict \<Rightarrow> view list \<Rightarrow> json \<Rightarrow> codes \<Rightarrow> (view list \<times> codes) res" where
  "gate1_class_match st r ref_views posture c =
     (let usable = filter (\<lambda>rv. rv_payload rv \<noteq> None \<and> rv_media_ok rv) ref_views
      in bindr (covers_nothing usable) (\<lambda>cn.
           if dget r (u ''method'') = js ''reconstructed'' then Inr (cover_reconstructed usable cn c)
           else if is_caught st r then cover_caught usable cn c
           else cover_clean st usable cn posture c))"

text \<open>A row's method is at most the weakest signed method that covers it.\<close>

definition gate1_method_cap :: "jdict \<Rightarrow> view list \<Rightarrow> codes \<Rightarrow> codes res" where
  "gate1_method_cap r covering c =
     bindr (filterr (\<lambda>rv. in_keys (rv_method rv) METHOD_ORDER) covering) (\<lambda>known.
       if known = [] then Inr c
       else bindr (in_keys (dget r (u ''method'')) METHOD_ORDER) (\<lambda>ok.
         Inr (add_if (ok \<and> Min (set (map (\<lambda>rv. rank METHOD_ORDER (rv_method rv)) known))
                            < rank METHOD_ORDER (dget r (u ''method''))) ''method-cap-exceeded'' c)))"

section \<open>One row, all rows\<close>

text \<open>The result is the covering records of the row when it was matched.\<close>

definition gate1_row ::
  "vstate \<Rightarrow> nat \<Rightarrow> jdict \<Rightarrow> json \<Rightarrow> codes \<Rightarrow> (view list option \<times> codes) res" where
  "gate1_row st i r posture c =
     (if dget r (u ''basis'') \<noteq> js ''substrate'' \<or> i \<in> set (st_fail_closed st) then Inr (None, c)
      else if \<not> st_has_records st then Inr (None, add_code ''records-absent'' c)
      else if as_list (refs_of r) = [] then
        Inr (None, add_if (is_caught st r) ''caught-row-uncovered'' (add_code ''refs-empty'' c))
      else
        (case resolve_refs (st_views st) (as_list (refs_of r)) c of (ref_views, c1, ok) \<Rightarrow>
           if \<not> ok \<and> ref_views = [] then Inr (None, c1)
           else
             bindr (gate1_class_match st r ref_views posture
                      (fold (gate1_check_payload (st_binding st)) ref_views c1)) (\<lambda>(covering, c2).
             bindr (gate1_method_cap r covering c2) (\<lambda>c3. Inr (Some covering, c3)))))"

definition gate1_step ::
  "vstate \<Rightarrow> json \<Rightarrow> nat \<times> jdict \<Rightarrow> (nat \<times> view list) list \<times> codes
   \<Rightarrow> ((nat \<times> view list) list \<times> codes) res" where
  "gate1_step st posture ir s =
     (case (ir, s) of ((i, r), (cov, c)) \<Rightarrow>
       bindr (gate1_row st i r posture c) (\<lambda>(covering, c').
         Inr (case covering of None \<Rightarrow> cov | Some vs \<Rightarrow> cov @ [(i, vs)], c')))"

definition check_gate1_coverage :: check where
  "check_gate1_coverage st c =
     (let posture = digest_of (dget (st_env st) (u ''networkPosture''));
          c1 = (if st_has_records st then check_refs_in_range st c else c)
      in bindr (loopr (gate1_step st posture) (enumerate 0 (st_rows st)) ([], c1)) (\<lambda>(cov, c2).
           Inr (st\<lparr>st_posture := posture, st_covering := cov\<rparr>, c2)))"

end
