(* ===== verification/Commitments.thy ===== *)
theory Commitments
  imports Gate1
begin

text \<open>
  The statement-level coverage requirements of the reference verifier (\<open>_check_commitments\<close> of
  \<open>packaging/run_vectors.py\<close>): clean rows, orphaned interceptions, attribution, and what the sealed and
  arming records commit to. A loop that reports once and returns is \<open>anyr\<close> or \<open>firstr\<close>.
\<close>

section \<open>Rows and interception records\<close>

text \<open>\<open>_resolved_views\<close>: the in-range records one row resolves; its test of an index is the one
  \<open>ref_fault\<close> makes.\<close>

definition resolved_views :: "vstate \<Rightarrow> jdict \<Rightarrow> view list" where
  "resolved_views st r =
     map (\<lambda>ref. st_views st ! ref_index ref)
       (filter (\<lambda>ref. ref_fault (length (st_views st)) ref = None) (as_list (refs_of r)))"

definition is_interception :: "view \<Rightarrow> bool" where
  "is_interception rv \<longleftrightarrow> rv_kind rv = js ''interception''"

definition clean_row_contradicted :: "vstate \<Rightarrow> json list \<Rightarrow> json list \<Rightarrow> jdict \<Rightarrow> bool" where
  "clean_row_contradicted st labels caught r \<longleftrightarrow>
     (let lab = dget r (u ''containmentObserved'')
      in py_in lab labels \<and> \<not> py_in lab caught \<and> list_ex is_interception (resolved_views st r))"

definition commit_clean_row_contradicted :: "vstate \<Rightarrow> codes \<Rightarrow> codes" where
  "commit_clean_row_contradicted st c =
     (case (st_labels st, st_caught st) of
        (Some labels, Some caught) \<Rightarrow>
          add_if (list_ex (clean_row_contradicted st labels caught) (st_rows st))
            ''clean-row-contradicted'' c
      | _ \<Rightarrow> c)"

text \<open>The indices of the records that caught rows resolve.\<close>

definition resolved_by_caught :: "vstate \<Rightarrow> nat list" where
  "resolved_by_caught st =
     concat (map (\<lambda>r. map rv_idx (resolved_views st r)) (filter (is_caught st) (st_rows st)))"

definition commit_interception_orphaned :: "vstate \<Rightarrow> codes \<Rightarrow> codes" where
  "commit_interception_orphaned st c =
     (if st_caught st = None \<or> \<not> st_has_records st then c
      else add_if (list_ex (\<lambda>rv. is_interception rv \<and> rv_idx rv \<notin> set (resolved_by_caught st))
                    (st_views st)) ''interception-record-orphaned'' c)"

section \<open>Seals\<close>

definition bound_kind :: "vstate \<Rightarrow> string \<Rightarrow> view \<Rightarrow> bool" where
  "bound_kind st k rv \<longleftrightarrow>
     rv_kind rv = js k \<and> rv_payload rv \<noteq> None \<and>
     py_eq (payload_get rv ''aeeRunBinding'') (st_binding st)"

text \<open>The recompute does not change from one seal to the next, so the model asks for it where the code
  first needs it and again where the code reuses it.\<close>

definition observed_set_bad :: "ctx \<Rightarrow> vstate \<Rightarrow> view \<Rightarrow> bool res" where
  "observed_set_bad cx st rv =
     (let got = payload_get rv ''aeeObservedSet''
      in if \<not> bound_kind st ''sealed'' rv \<or> \<not> is_hex64_lower got then Inr False
         else bindr (observed_set_digest cx (st_views st)) (\<lambda>want. Inr (got \<noteq> JStr want)))"

definition commit_observed_set :: "ctx \<Rightarrow> vstate \<Rightarrow> codes \<Rightarrow> codes res" where
  "commit_observed_set cx st c =
     bindr (anyr (observed_set_bad cx st) (st_views st)) (\<lambda>bad.
       Inr (add_if bad ''observed-set-mismatch'' c))"

definition seal_present :: "vstate \<Rightarrow> view \<Rightarrow> bool res" where
  "seal_present st rv =
     (if \<not> bound_kind st ''sealed'' rv \<or> \<not> rv_media_ok rv then Inr False
      else sealed_ok rv (st_posture st) (arming_postures (st_views st)) (st_declared st))"

definition commit_sealed_present :: "vstate \<Rightarrow> codes \<Rightarrow> codes res" where
  "commit_sealed_present st c =
     bindr (anyr (seal_present st) (st_views st)) (\<lambda>ok.
       Inr (add_if (\<not> ok) ''sealed-record-absent'' c))"

section \<open>Carried records\<close>

definition carried_interception_fault :: "view \<Rightarrow> string option res" where
  "carried_interception_fault rv =
     bindr (if payload_has rv ''aeePayloadCommitment''
            then bindr (commitment_array_ok (payload_get rv ''aeePayloadCommitment'')) (\<lambda>ok. Inr (\<not> ok))
            else Inr False) (\<lambda>bad.
       if bad then Inr (Some ''payload-commitment-malformed'')
       else bindr (in_keys (rv_method rv) METHOD_ORDER) (\<lambda>known.
         Inr (if \<not> known \<or> \<not> payload_has rv ''aeePayloadCommitment''
              then Some ''payload-missing-reserved'' else None)))"

definition fault_unless :: "bool \<Rightarrow> string \<Rightarrow> string option" where
  "fault_unless ok code = (if ok then None else Some code)"

definition carried_record_fault :: "vstate \<Rightarrow> view \<Rightarrow> string option res" where
  "carried_record_fault st rv =
     (if rv_kind rv = js ''sealed'' then
        bindr (sealed_ok rv (st_posture st) [] (st_declared st)) (\<lambda>ok.
          Inr (fault_unless ok ''sealed-covers-nothing''))
      else if rv_kind rv = js ''arming'' then
        bindr (arming_ok rv (st_posture st) (st_issued_at st) (st_declared st)) (\<lambda>ok.
          Inr (fault_unless ok ''arming-covers-nothing''))
      else if rv_kind rv = js ''examination'' then
        Inr (fault_unless (examination_ok rv) ''examination-covers-nothing'')
      else carried_interception_fault rv)"

text \<open>The records the rule reads: decoded, bound to this run, of a covering kind.\<close>

definition carried_candidate :: "vstate \<Rightarrow> view \<Rightarrow> bool" where
  "carried_candidate st rv \<longleftrightarrow>
     rv_payload rv \<noteq> None \<and> rv_media_ok rv \<and> list_all (payload_has rv) RESERVED_MEMBERS \<and>
     py_eq (payload_get rv ''aeeRunBinding'') (st_binding st) \<and> one_of (rv_kind rv) COVERING_KINDS"

definition carried_step :: "vstate \<Rightarrow> view \<Rightarrow> codes \<Rightarrow> codes res" where
  "carried_step st rv c =
     (if \<not> carried_candidate st rv then Inr c
      else bindr (carried_record_fault st rv) (\<lambda>fault.
        Inr (add_fault fault c)))"

definition commit_carried_cover :: "vstate \<Rightarrow> codes \<Rightarrow> codes res" where
  "commit_carried_cover st c = loopr (carried_step st) (st_views st) c"

section \<open>Attack identifiers\<close>

definition seal_uncaught :: "vstate \<Rightarrow> json list \<Rightarrow> view \<Rightarrow> bool res" where
  "seal_uncaught st caught_ids rv =
     (let attacks = payload_get rv ''aeeObservedAttacks''
      in if \<not> bound_kind st ''sealed'' rv then Inr False
         else bindr (attack_id_array_ok attacks (st_declared st)) (\<lambda>ok.
           if \<not> ok then Inr False
           else Inr (list_ex (\<lambda>a. \<not> py_in a caught_ids) (as_list attacks))))"

definition commit_seal_attacks :: "vstate \<Rightarrow> codes \<Rightarrow> codes res" where
  "commit_seal_attacks st c =
     (if st_caught st = None then Inr c
      else bindr (py_set (map (\<lambda>r. dget r (u ''attackId'')) (filter (is_caught st) (st_rows st)))) (\<lambda>ids.
           bindr (anyr (seal_uncaught st ids) (st_views st)) (\<lambda>bad.
             Inr (add_if bad ''observed-attack-uncaught'' c))))"

definition arming_exceeded :: "vstate \<Rightarrow> ustr list \<Rightarrow> view \<Rightarrow> bool res" where
  "arming_exceeded st assessed rv =
     (let declared = payload_get rv ''aeeAssessedAttacks''
      in if \<not> bound_kind st ''arming'' rv then Inr False
         else bindr (attack_id_array_ok declared (st_declared st)) (\<lambda>ok.
           if \<not> ok then Inr False
           else Inr (list_ex (\<lambda>a. JStr a \<notin> set (as_list declared)) assessed)))"

definition commit_assessed_subset :: "vstate \<Rightarrow> codes \<Rightarrow> codes res" where
  "commit_assessed_subset st c =
     (let assessed_classes = member (st_coverage st) ''assessedClasses''
      in case st_classes st of
           None \<Rightarrow> Inr c
         | Some classes \<Rightarrow>
             if \<not> is_list assessed_classes then Inr c
             else bindr (mapr (class_ids classes) (as_list assessed_classes)) (\<lambda>ids.
                  bindr (anyr (arming_exceeded st (str_values (concat ids))) (st_views st)) (\<lambda>bad.
                    Inr (add_if bad ''assessed-set-exceeds-declaration'' c))))"

section \<open>Attribution\<close>

text \<open>\<open>expected_map.get(r.get("attackId"))\<close>.\<close>

definition expected_for :: "vstate \<Rightarrow> jdict \<Rightarrow> json res" where
  "expected_for st r =
     (let aid = dget r (u ''attackId'')
      in bindr (hash_check aid) (\<lambda>_.
           Inr (case aid of JStr a \<Rightarrow> dget (as_dict (st_expected st)) a | _ \<Rightarrow> JNull)))"

definition pin_unmatched :: "json list \<Rightarrow> view \<Rightarrow> bool" where
  "pin_unmatched expected rv \<longleftrightarrow>
     (let values = payload_get rv ''aeePayloadCommitment''
      in is_list values \<and> \<not> list_ex (\<lambda>v. py_in v expected) (as_list values))"

definition row_attribution :: "vstate \<Rightarrow> jdict \<Rightarrow> string option res" where
  "row_attribution st r =
     (let inters = filter is_interception (resolved_views st r)
      in if dget r (u ''attribution'') \<noteq> js ''pinned'' then Inr None
         else if inters = [] then Inr (Some ''attribution-pinned-recordless'')
         else bindr (expected_for st r) (\<lambda>expected.
           Inr (if as_list expected = [] then Some ''attribution-unpinnable''
                else if list_ex (pin_unmatched (as_list expected)) inters
                then Some ''attribution-pin-unmatched'' else None)))"

definition commit_attribution :: "vstate \<Rightarrow> codes \<Rightarrow> codes res" where
  "commit_attribution st c =
     bindr (firstr (row_attribution st) (st_rows st)) (\<lambda>fault.
       Inr (add_fault fault c))"

section \<open>All of them\<close>

definition check_commitments :: "ctx \<Rightarrow> check" where
  "check_commitments cx st c =
     bindr (commit_attribution st
              (commit_interception_orphaned st (commit_clean_row_contradicted st c))) (\<lambda>c1.
       if \<not> st_has_substrate st \<or> \<not> st_has_records st then Inr (st, c1)
       else
         bindr (commit_observed_set cx st c1) (\<lambda>c2.
         bindr (commit_sealed_present st c2) (\<lambda>c3.
         bindr (commit_carried_cover st c3) (\<lambda>c4.
         bindr (commit_seal_attacks st c4) (\<lambda>c5.
         bindr (commit_assessed_subset st c5) (\<lambda>c6. Inr (st, c6)))))))"

end
