(* ===== verification/Result.thy ===== *)
theory Result
  imports Commitments
begin

text \<open>
  The pure recompute of \<open>result\<close> and the evidence tiers of the reference verifier
  (\<open>_recompute\<close>, \<open>_check_result_recompute\<close>, \<open>_tiers\<close> of \<open>packaging/run_vectors.py\<close>). The lemmas give
  the recompute its specification: the minimum of three independent conditions.
\<close>

section \<open>The recompute\<close>

datatype row_effect = Forces_Fail | Indirect | Direct

text \<open>The chain of conditions of the loop's body.\<close>

definition row_effect :: "json list \<Rightarrow> json list \<Rightarrow> jdict \<Rightarrow> row_effect" where
  "row_effect labels caught r =
     (let lab = dget r (u ''containmentObserved''); basis = dget r (u ''basis'');
          method = dget r (u ''method'')
      in if \<not> py_in lab labels \<or> py_in lab caught then Forces_Fail
         else if \<not> one_of basis [''substrate'', ''artifact''] then Forces_Fail
         else if \<not> one_of method [''intercepted'', ''reconstructed''] then Forces_Fail
         else if \<not> one_of (dget r (u ''attribution'')) [''pinned'', ''paired''] then Forces_Fail
         else if basis \<noteq> js ''substrate'' \<or> method \<noteq> js ''intercepted'' then Indirect
         else Direct)"

definition result_rank :: "string \<Rightarrow> nat" where
  "result_rank s = (case map_of RESULT_ORDER s of None \<Rightarrow> 0 | Some n \<Rightarrow> n)"

definition min_result :: "string list \<Rightarrow> string" where
  "min_result cs = foldl (\<lambda>best s. if result_rank s < result_rank best then s else best) (hd cs) (tl cs)"

definition coverage_partial :: "json \<Rightarrow> bool" where
  "coverage_partial coverage \<longleftrightarrow>
     truthy (member coverage ''outOfScope'') \<or> truthy (member coverage ''routedElsewhere'')"

definition recompute :: "jdict list \<Rightarrow> json list \<Rightarrow> json list \<Rightarrow> json \<Rightarrow> string" where
  "recompute rows labels caught coverage =
     (let effects = map (row_effect labels caught) rows
      in min_result
           [if Forces_Fail \<in> set effects then ''fail'' else ''pass'',
            if coverage_partial coverage then ''degraded'' else ''pass'',
            if Indirect \<in> set effects then ''pass_indirect'' else ''pass''])"

definition carried :: "json list option \<Rightarrow> json list" where
  "carried vs = (case vs of None \<Rightarrow> [] | Some xs \<Rightarrow> xs)"

definition check_result_recompute :: check where
  "check_result_recompute st c =
     (if \<not> has_key (st_pred st) (u ''result'') then Inr (st, c)
      else
        (let r = recompute (st_rows st) (carried (st_labels st)) (carried (st_caught st)) (st_coverage st)
         in bindr (in_keys (st_result st) RESULT_ORDER) (\<lambda>known.
              Inr (st, add_if (\<not> known \<or> js r \<noteq> st_result st) ''result-recompute-mismatch'' c))))"

section \<open>Tiers\<close>

datatype tier = Declared | Unattested | Attested

definition row_tier :: "ctx \<Rightarrow> (nat \<times> view list) list \<Rightarrow> bool \<Rightarrow> nat \<Rightarrow> jdict \<Rightarrow> tier" where
  "row_tier cx row_covering with_keys i r =
     (if dget r (u ''basis'') = js ''artifact'' then Declared
      else if \<not> with_keys \<or> cx_pins cx = [] then Unattested
      else
        (let covering = (case map_of row_covering i of None \<Rightarrow> [] | Some vs \<Rightarrow> vs)
         in if covering \<noteq> [] \<and> list_all (record_verifies cx) covering then Attested else Unattested))"

definition tiers :: "ctx \<Rightarrow> jdict list \<Rightarrow> (nat \<times> view list) list \<Rightarrow> bool \<Rightarrow> tier list" where
  "tiers cx rows row_covering with_keys =
     map (\<lambda>(i, r). row_tier cx row_covering with_keys i r) (enumerate 0 rows)"

fun tier_name :: "tier \<Rightarrow> string" where
  "tier_name Declared = ''declared''"
| "tier_name Unattested = ''unattested''"
| "tier_name Attested = ''attested''"

section \<open>The recompute is the minimum of three conditions\<close>

lemma recompute_eq:
  "recompute rows labels caught coverage =
     (if Forces_Fail \<in> set (map (row_effect labels caught) rows) then ''fail''
      else if coverage_partial coverage then ''degraded''
      else if Indirect \<in> set (map (row_effect labels caught) rows) then ''pass_indirect''
      else ''pass'')"
  by (simp add: recompute_def Let_def min_result_def result_rank_def RESULT_ORDER_def)

lemma recompute_in_vocabulary:
  "recompute rows labels caught coverage \<in> fst ` set RESULT_ORDER"
  by (simp add: recompute_eq RESULT_ORDER_def)

text \<open>One more row never improves the result.\<close>

lemma recompute_antimono:
  assumes "set rows \<subseteq> set rows'"
  shows "result_rank (recompute rows' labels caught coverage)
    \<le> result_rank (recompute rows labels caught coverage)"
  using assms by (auto simp: recompute_eq result_rank_def RESULT_ORDER_def)

lemma row_effect_Direct:
  assumes "row_effect labels caught r = Direct"
  shows "py_in (dget r (u ''containmentObserved'')) labels \<and>
    \<not> py_in (dget r (u ''containmentObserved'')) caught \<and>
    dget r (u ''basis'') = js ''substrate'' \<and> dget r (u ''method'') = js ''intercepted''"
  using assms by (auto simp: row_effect_def Let_def split: if_splits)

lemma row_effect_Direct_iff:
  "row_effect labels caught r = Direct \<longleftrightarrow>
     py_in (dget r (u ''containmentObserved'')) labels \<and> \<not> py_in (dget r (u ''containmentObserved'')) caught \<and>
     dget r (u ''basis'') = js ''substrate'' \<and> dget r (u ''method'') = js ''intercepted'' \<and>
     one_of (dget r (u ''attribution'')) [''pinned'', ''paired'']"
  by (auto simp: row_effect_def Let_def)

lemma all_Direct:
  "list_all (\<lambda>r. f r = Direct) rs \<longleftrightarrow> Forces_Fail \<notin> f ` set rs \<and> Indirect \<notin> f ` set rs"
proof (induction rs)
  case (Cons r rs)
  then show ?case by (cases "f r") auto
qed simp

lemma recompute_pass:
  "recompute rows labels caught coverage = ''pass'' \<longleftrightarrow>
     list_all (\<lambda>r. row_effect labels caught r = Direct) rows \<and> \<not> coverage_partial coverage"
  by (simp add: recompute_eq all_Direct)

lemma check_result_recompute_clean:
  assumes "check_result_recompute st [] = Inr (st', [])" and "has_key (st_pred st) (u ''result'')"
  shows "st' = st \<and> st_result st =
    js (recompute (st_rows st) (carried (st_labels st)) (carried (st_caught st)) (st_coverage st))"
  using assms by (auto simp: check_result_recompute_def bindr_Inr_iff Let_def)

lemma length_tiers [simp]: "length (tiers cx rows cov k) = length rows"
  by (simp add: tiers_def)

lemma nth_tiers:
  "i < length rows \<Longrightarrow> tiers cx rows cov k ! i = row_tier cx cov k i (rows ! i)"
  by (simp add: tiers_def nth_enumerate_eq)

lemma row_tier_Attested:
  assumes "row_tier cx cov k i r = Attested"
  shows "k \<and> cx_pins cx \<noteq> [] \<and> dget r (u ''basis'') \<noteq> js ''artifact'' \<and>
    (\<exists>vs. map_of cov i = Some vs \<and> vs \<noteq> [] \<and> list_all (record_verifies cx) vs)"
  using assms by (auto simp: row_tier_def Let_def split: if_splits option.splits)

end
