(* ===== verification/Verifier.thy ===== *)
theory Verifier
  imports Result
begin

text \<open>
  \<open>ReferenceVerifier.verify\<close> of \<open>packaging/run_vectors.py\<close>: the ordered checks composed, the outcome,
  and what a valid verdict means. Every check is an interpretation of the pass contract of the
  prelude, and the composition's lemmas rest on it.
\<close>

section \<open>The composition\<close>

record outcome =
  out_codes :: codes
  out_result :: json
  out_with_key :: "tier list option"
  out_without_key :: "tier list option"

definition verdict_valid :: "outcome \<Rightarrow> bool" where
  "verdict_valid out \<longleftrightarrow> out_codes out = []"

definition refused :: "codes \<Rightarrow> outcome" where
  "refused c = \<lparr>out_codes = c, out_result = JNull, out_with_key = None, out_without_key = None\<rparr>"

text \<open>The ordered checks between the statement's type and the tiers.\<close>

definition checks :: "ctx \<Rightarrow> check list" where
  "checks cx =
     [check_gate0_wellformed,
      check_vocabulary cx,
      check_corpus cx,
      check_rows_setup,
      check_subject_cardinality,
      check_coverage,
      check_per_row_statements,
      check_substrate_binding_inputs,
      check_fail_closed_rows,
      check_records cx,
      check_run_binding cx,
      check_gate1_coverage,
      check_commitments cx,
      check_result_recompute]"

fun run_checks :: "check list \<Rightarrow> check" where
  "run_checks [] st c = Inr (st, c)"
| "run_checks (p # ps) st c = bindr (p st c) (\<lambda>(st', c'). run_checks ps st' c')"

definition check_gate2_tiers :: "ctx \<Rightarrow> vstate \<Rightarrow> outcome" where
  "check_gate2_tiers cx st =
     \<lparr>out_codes = [], out_result = st_result st,
      out_with_key = Some (tiers cx (st_rows st) (st_covering st) True),
      out_without_key = Some (tiers cx (st_rows st) (st_covering st) False)\<rparr>"

definition verify :: "ctx \<Rightarrow> json \<Rightarrow> bytes option \<Rightarrow> outcome res" where
  "verify cx stmt raw =
     (if (case raw of None \<Rightarrow> False | Some b \<Rightarrow> statement_strict_fault b)
      then Inr (refused [''statement-malformed''])
      else (case check_statement_type stmt [] of
              (None, c) \<Rightarrow> Inr (refused c)
            | (Some st, c) \<Rightarrow>
                bindr (run_checks (checks cx) st c) (\<lambda>(st', c').
                  Inr (if c' \<noteq> [] then refused c' else check_gate2_tiers cx st'))))"

section \<open>Every check only appends codes\<close>

text \<open>The interpretations below discharge the law of \<open>code_pass\<close>, check by check.\<close>

lemma issued_at_extends [extends_intros]: "extends c d \<Longrightarrow> extends c (issued_at_codes v d)"
  by (simp add: issued_at_codes_def)

lemma environment_extends [extends_intros]: "extends c d \<Longrightarrow> extends c (environment_codes env d)"
  unfolding environment_codes_def by (intro extends_intros)

lemma posture_extends [extends_intros]: "extends c d \<Longrightarrow> extends c (posture_codes env d)"
  by (simp add: posture_codes_def Let_def)

lemma declares_extends [extends_intros]: "extends c d \<Longrightarrow> extends c (corpus_declares_attack k d)"
  by (simp add: corpus_declares_attack_def)

lemma binding_canonical_extends [extends_intros]:
  "extends c d \<Longrightarrow> extends c (binding_digest_canonical env v d)"
  unfolding binding_digest_canonical_def by (intro extends_intros)

lemma row_type_extends [extends_intros]: "extends c d \<Longrightarrow> extends c (row_type_codes r d)"
  unfolding row_type_codes_def by (intro extends_intros)

interpretation gate0: code_pass check_gate0_wellformed
proof
  fix st c st' c'
  assume "check_gate0_wellformed st c = Inr (st', c')"
  then obtain b env v where
    "c' = posture_codes env (add_if v ''vocabulary-missing'' (environment_codes env
      (issued_at_codes (dget (st_pred st) (u ''issuedAt'')) (add_if b ''result-vocabulary''
      (add_if (has_key (st_pred st) (u ''does_not_assert'')) ''member-spelling'' c)))))"
    unfolding check_gate0_wellformed_def Let_def by (auto simp: bindr_Inr_iff)
  then show "extends c c'" by (simp only:) (intro extends_intros)
qed

interpretation subject: code_pass check_subject_cardinality
  by unfold_locales (auto simp: check_subject_cardinality_def)

interpretation rows_setup: code_pass check_rows_setup
  by unfold_locales (auto simp: check_rows_setup_def Let_def)

lemma vocab_pairs_extends: "vocab_check_pairs cx v l k c = Inr c' \<Longrightarrow> extends c c'"
  by (auto simp: vocab_check_pairs_def bindr_Inr_iff split: if_splits)

lemma extends_bind:
  "extends (add_if b x c) d \<Longrightarrow> extends c d"
  by (rule extends_trans [OF extends_add_if [OF extends_refl]])

lemma extends_bind_code: "extends (add_code x c) d \<Longrightarrow> extends c d"
  by (rule extends_trans [OF extends_add_code [OF extends_refl]])

interpretation vocabulary: code_pass "check_vocabulary cx" for cx
  by unfold_locales
    (auto simp: check_vocabulary_def Let_def bindr_Inr_iff split: option.splits
      dest!: vocab_pairs_extends intro: extends_bind)

lemma corpus_digest_extends: "corpus_digest cx v m c = Inr c' \<Longrightarrow> extends c c'"
  by (auto simp: corpus_digest_def exceptr_Inr_iff bindr_Inr_iff)

lemma corpus_dupes_extends: "corpus_dupes seen ids c = Inr c' \<Longrightarrow> extends c c'"
  by (induction seen ids c rule: corpus_dupes.induct)
     (auto simp: bindr_Inr_iff intro: extends_bind)

lemma corpus_expected_extends: "corpus_expected m d c = Inr (e, c') \<Longrightarrow> extends c c'"
  by (auto simp: corpus_expected_def Let_def bindr_Inr_iff split: if_splits)

lemma corpus_codes_extends:
  "(if b then bindr (corpus_digest cx v m c) (\<lambda>c2. Inr (corpus_declares_attack k c2))
    else Inr c) = Inr c' \<Longrightarrow> extends c c'"
  by (auto simp: bindr_Inr_iff split: if_splits intro: extends_intros dest!: corpus_digest_extends)

lemma corpus_dupes_if_extends:
  "(if b then corpus_dupes s ids c else Inr c) = Inr c' \<Longrightarrow> extends c c'"
  by (auto split: if_splits dest: corpus_dupes_extends)

interpretation corpus: code_pass "check_corpus cx" for cx
proof
  fix st c st' c'
  assume r: "check_corpus cx st c = Inr (st', c')"
  show "extends c c'"
  proof (cases "is_dict (dget (st_env st) (u ''corpus''))")
    case True
    then obtain b v m k c3 b' ids c4 d e where
      1: "(if b then bindr (corpus_digest cx v m (add_if (m = JNull) ''environment-incomplete'' c))
         (\<lambda>c2. Inr (corpus_declares_attack k c2))
        else Inr (add_if (m = JNull) ''environment-incomplete'' c)) = Inr c3"
      and 2: "(if b' then corpus_dupes [] ids c3 else Inr c3) = Inr c4"
      and 3: "corpus_expected m d c4 = Inr (e, c')"
      using r unfolding check_corpus_def Let_def
      by (auto simp: bindr_Inr_iff simp del: corpus_dupes.simps split del: if_split)
    have "extends (add_if (m = JNull) ''environment-incomplete'' c) c'"
      by (rule extends_trans [OF corpus_codes_extends [OF 1]
          extends_trans [OF corpus_dupes_if_extends [OF 2] corpus_expected_extends [OF 3]]])
    then show ?thesis by (rule extends_bind)
  qed (use r in \<open>simp add: check_corpus_def Let_def\<close>)
qed

lemma coverage_row_extends:
  "coverage_row idx assessed r (ids, c) = Inr (ids', c') \<Longrightarrow> extends c c'"
  by (auto simp: coverage_row_def Let_def bindr_Inr_iff split: option.splits)

text \<open>A loop over a pair whose second component is the codes.\<close>

lemma loopr_pair_extends:
  assumes "loopr f xs (s, c) = Inr (t, d)"
    and "\<And>x s c s' c'. f x (s, c) = Inr (s', c') \<Longrightarrow> extends c c'"
  shows "extends c d"
  using assms(1)
proof (induction xs arbitrary: s c)
  case (Cons x xs)
  then obtain s' c' where "f x (s, c) = Inr (s', c')" "loopr f xs (s', c') = Inr (t, d)"
    by (auto simp: bindr_Inr_iff)
  with Cons.IH assms(2) show ?case by (meson extends_trans)
qed simp

lemma coverage_rows_extends: "coverage_check_rows rows classes assessed c = Inr c' \<Longrightarrow> extends c c'"
proof -
  assume "coverage_check_rows rows classes assessed c = Inr c'"
  then obtain idx ids d b where l: "loopr (coverage_row idx assessed) rows ([], c) = Inr (ids, d)"
    and "c' = add_if b ''coverage-incomplete'' d"
    unfolding coverage_check_rows_def by (auto simp: bindr_Inr_iff)
  moreover have "extends c d" by (rule loopr_pair_extends [OF l]) (rule coverage_row_extends)
  ultimately show "extends c c'" by simp
qed

interpretation coverage: code_pass check_coverage
proof
  fix st c st' c'
  assume "check_coverage st c = Inr (st', c')"
  then show "extends c c'"
    unfolding check_coverage_def Let_def
    by (auto simp: bindr_Inr_iff split: if_split_asm option.splits
        dest!: coverage_rows_extends intro: extends_bind)
qed

interpretation per_row: code_pass check_per_row_statements
proof
  fix st c st' c'
  assume "check_per_row_statements st c = Inr (st', c')"
  then show "extends c c'"
    unfolding check_per_row_statements_def Let_def
    by (auto split: option.splits intro!: extends_intros)
qed

interpretation binding_inputs: code_pass check_substrate_binding_inputs
proof
  fix st c st' c'
  assume "check_substrate_binding_inputs st c = Inr (st', c')"
  then show "extends c c'"
    unfolding check_substrate_binding_inputs_def Let_def
    by (auto split: if_split_asm intro!: extends_intros)
qed

interpretation fail_closed: code_pass check_fail_closed_rows
  by unfold_locales (auto simp: check_fail_closed_rows_def Let_def intro!: extends_intros)

lemma batch_root_extends: "records_batch_root cx pred vs c = Inr c' \<Longrightarrow> extends c c'"
  by (auto simp: records_batch_root_def Let_def bindr_Inr_iff split: if_splits)

lemma duplicates_extends: "records_duplicates cx vs c = Inr c' \<Longrightarrow> extends c c'"
  by (auto simp: records_duplicates_def bindr_Inr_iff
      intro: loopr_pair_extends dest: record_duplicate_extends)

lemma records_codes_extends:
  assumes "records_codes cx pred vs c = Inr c'"
  shows "extends c c'"
proof -
  let ?c1 = "add_if (list_ex (\<lambda>v. rv_sigs v = 0) vs) ''record-signatures-empty'' c"
  from assms obtain c2 where "c2 = add_code ''record-undecodable'' ?c1 \<or>
      records_batch_root cx pred vs ?c1 = Inr c2" and d: "records_duplicates cx vs c2 = Inr c'"
    unfolding records_codes_def Let_def by (auto simp: bindr_Inr_iff split: if_split_asm)
  then have "extends ?c1 c2" using batch_root_extends by auto
  then have "extends ?c1 c'" using duplicates_extends [OF d] by (rule extends_trans)
  then show ?thesis by (rule extends_bind)
qed

interpretation records: code_pass "check_records cx" for cx
  by unfold_locales
    (auto simp: check_records_def Let_def bindr_Inr_iff split: if_split_asm dest: records_codes_extends)

interpretation run_binding: code_pass "check_run_binding cx" for cx
  by unfold_locales (auto simp: check_run_binding_def bindr_Inr_iff split: if_split_asm)

lemma add_fault_extends [simp, extends_intros]: "extends c d \<Longrightarrow> extends c (add_fault f d)"
  by (simp add: add_fault_def split: option.split)

lemma resolve_refs_extends: "resolve_refs vs refs c = (ws, c', ok) \<Longrightarrow> extends c c'"
  by (auto simp: resolve_refs_def Let_def intro!: extends_intros)

lemma check_payload_extends [extends_intros]: "extends c d \<Longrightarrow> extends c (gate1_check_payload b rv d)"
  by (simp add: gate1_check_payload_def Let_def split: option.splits)

lemma cover_reconstructed_extends: "cover_reconstructed vs cn c = (ws, c') \<Longrightarrow> extends c c'"
  by (auto simp: cover_reconstructed_def Let_def)

lemma commitments_loop_extends: "commitments_loop vs c = Inr (ws, c') \<Longrightarrow> extends c c'"
  by (induction vs c arbitrary: ws rule: commitments_loop.induct)
     (auto simp: Let_def bindr_Inr_iff split: if_split_asm intro: extends_bind_code)

lemma cover_caught_extends: "cover_caught vs cn c = Inr (ws, c') \<Longrightarrow> extends c c'"
  by (auto simp: cover_caught_def Let_def split: if_split_asm dest: commitments_loop_extends)

lemma clean_arm_extends: "clean_arm st vs cn p c = Inr (ws, c') \<Longrightarrow> extends c c'"
  by (auto simp: clean_arm_def Let_def bindr_Inr_iff)

lemma clean_seal_extends: "clean_seal st vs cn p c = Inr (ws, c') \<Longrightarrow> extends c c'"
  by (auto simp: clean_seal_def Let_def bindr_Inr_iff)

lemma cover_clean_extends: "cover_clean st vs cn p c = Inr (ws, c') \<Longrightarrow> extends c c'"
  by (auto simp: cover_clean_def bindr_Inr_iff dest!: clean_arm_extends clean_seal_extends
      intro: extends_trans)

lemma class_match_extends: "gate1_class_match st r vs p c = Inr (ws, c') \<Longrightarrow> extends c c'"
  by (auto simp: gate1_class_match_def Let_def bindr_Inr_iff split: if_split_asm
      dest: cover_reconstructed_extends cover_caught_extends cover_clean_extends)

lemma method_cap_extends: "gate1_method_cap r vs c = Inr c' \<Longrightarrow> extends c c'"
  by (auto simp: gate1_method_cap_def bindr_Inr_iff split: if_split_asm)

lemma gate1_row_extends:
  assumes "gate1_row st i r p c = Inr (ws, c')"
  shows "extends c c'"
proof (cases "dget r (u ''basis'') \<noteq> js ''substrate'' \<or> i \<in> set (st_fail_closed st) \<or>
    \<not> st_has_records st \<or> as_list (refs_of r) = []")
  case True
  with assms show ?thesis by (auto simp: gate1_row_def split: if_split_asm)
next
  case False
  obtain vs c1 ok where r: "resolve_refs (st_views st) (as_list (refs_of r)) c = (vs, c1, ok)"
    by (cases "resolve_refs (st_views st) (as_list (refs_of r)) c") auto
  note c1 = resolve_refs_extends [OF r]
  show ?thesis
  proof (cases "\<not> ok \<and> vs = []")
    case True
    with assms False r c1 show ?thesis by (simp add: gate1_row_def)
  next
    case ok: False
    with assms False r obtain cov c2 where
      "gate1_class_match st r vs p (fold (gate1_check_payload (st_binding st)) vs c1) = Inr (cov, c2)"
      and "gate1_method_cap r cov c2 = Inr c'"
      by (auto simp: gate1_row_def bindr_Inr_iff)
    then have "extends (fold (gate1_check_payload (st_binding st)) vs c1) c'"
      using class_match_extends method_cap_extends extends_trans by blast
    moreover have "extends c1 (fold (gate1_check_payload (st_binding st)) vs c1)"
      by (intro extends_intros)
    ultimately show ?thesis using c1 extends_trans by blast
  qed
qed

lemma gate1_step_extends: "gate1_step st p ir (cov, c) = Inr (cov', c') \<Longrightarrow> extends c c'"
  by (cases ir) (auto simp: gate1_step_def bindr_Inr_iff dest: gate1_row_extends)

interpretation gate1: code_pass check_gate1_coverage
proof
  fix st c st' c'
  assume "check_gate1_coverage st c = Inr (st', c')"
  then obtain p cov where l: "loopr (gate1_step st p) (enumerate 0 (st_rows st))
      ([], if st_has_records st then check_refs_in_range st c else c) = Inr (cov, c')"
    unfolding check_gate1_coverage_def Let_def by (auto simp: bindr_Inr_iff)
  have "extends (if st_has_records st then check_refs_in_range st c else c) c'"
    by (rule loopr_pair_extends [OF l]) (rule gate1_step_extends)
  moreover have "extends c (if st_has_records st then check_refs_in_range st c else c)"
    by (simp add: check_refs_in_range_def)
  ultimately show "extends c c'" using extends_trans by blast
qed

lemma attribution_extends: "commit_attribution st c = Inr c' \<Longrightarrow> extends c c'"
  by (auto simp: commit_attribution_def bindr_Inr_iff)

lemma clean_rows_extends [extends_intros]:
  "extends c d \<Longrightarrow> extends c (commit_clean_row_contradicted st d)"
  by (simp add: commit_clean_row_contradicted_def split: option.splits)

lemma orphaned_extends [extends_intros]:
  "extends c d \<Longrightarrow> extends c (commit_interception_orphaned st d)"
  by (simp add: commit_interception_orphaned_def)

lemma observed_set_extends: "commit_observed_set cx st c = Inr c' \<Longrightarrow> extends c c'"
  by (auto simp: commit_observed_set_def bindr_Inr_iff)

lemma sealed_present_extends: "commit_sealed_present st c = Inr c' \<Longrightarrow> extends c c'"
  by (auto simp: commit_sealed_present_def bindr_Inr_iff)

lemma carried_step_extends: "carried_step st rv c = Inr c' \<Longrightarrow> extends c c'"
  by (auto simp: carried_step_def bindr_Inr_iff split: if_split_asm)

lemma carried_cover_extends: "commit_carried_cover st c = Inr c' \<Longrightarrow> extends c c'"
  unfolding commit_carried_cover_def by (erule loopr_extends) (rule carried_step_extends)

lemma seal_attacks_extends: "commit_seal_attacks st c = Inr c' \<Longrightarrow> extends c c'"
  by (auto simp: commit_seal_attacks_def bindr_Inr_iff split: if_split_asm)

lemma assessed_subset_extends: "commit_assessed_subset st c = Inr c' \<Longrightarrow> extends c c'"
  by (auto simp: commit_assessed_subset_def Let_def bindr_Inr_iff split: if_split_asm option.splits)

lemmas commit_extends = attribution_extends observed_set_extends sealed_present_extends
  carried_cover_extends seal_attacks_extends assessed_subset_extends

lemma commitments_state: "check_commitments cx st c = Inr (st', c') \<Longrightarrow> st' = st"
  by (auto simp: check_commitments_def bindr_Inr_iff split: if_split_asm)

interpretation commitments: code_pass "check_commitments cx" for cx
proof
  fix st c st' c'
  let ?c0 = "commit_interception_orphaned st (commit_clean_row_contradicted st c)"
  assume "check_commitments cx st c = Inr (st', c')"
  then have "extends ?c0 c'"
    by (auto simp: check_commitments_def bindr_Inr_iff split: if_split_asm dest!: commit_extends)
      (meson extends_trans)
  moreover have "extends c ?c0" by (intro extends_intros)
  ultimately show "extends c c'" using extends_trans by blast
qed

interpretation result: code_pass check_result_recompute
  by unfold_locales
    (auto simp: check_result_recompute_def Let_def bindr_Inr_iff split: if_split_asm)

section \<open>A valid verdict\<close>

lemma run_checks_extends:
  "list_all code_pass ps \<Longrightarrow> run_checks ps st c = Inr (st', c') \<Longrightarrow> extends c c'"
proof (induction ps arbitrary: st c)
  case (Cons p ps)
  then obtain s d where p: "p st c = Inr (s, d)" and r: "run_checks ps s d = Inr (st', c')"
    by (auto simp: bindr_Inr_iff)
  have "code_pass p" using Cons.prems(1) by simp
  then have "extends c d" using p by (rule code_pass.grows)
  moreover have "extends d c'" using Cons.IH [OF _ r] Cons.prems(1) by simp
  ultimately show ?case by (rule extends_trans)
qed simp

lemma checks_passes: "list_all code_pass (checks cx)"
  by (simp add: checks_def gate0.code_pass_axioms vocabulary.code_pass_axioms corpus.code_pass_axioms
      rows_setup.code_pass_axioms subject.code_pass_axioms coverage.code_pass_axioms
      per_row.code_pass_axioms binding_inputs.code_pass_axioms fail_closed.code_pass_axioms
      records.code_pass_axioms run_binding.code_pass_axioms gate1.code_pass_axioms
      commitments.code_pass_axioms result.code_pass_axioms)

text \<open>A clean run of the checks is a clean run of each.\<close>

lemma run_checks_clean:
  assumes "list_all code_pass (p # ps)" and "run_checks (p # ps) st c = Inr (st', [])"
  shows "\<exists>s. p st c = Inr (s, []) \<and> run_checks ps s [] = Inr (st', []) \<and> c = []"
proof -
  have p: "code_pass p" and ps: "list_all code_pass ps" using assms(1) by simp_all
  have "bindr (p st c) (\<lambda>(s, d). run_checks ps s d) = Inr (st', [])" using assms(2) by simp
  from code_pass.bind_clean [OF p this] run_checks_extends [OF ps] show ?thesis
    by (metis extends_Nil)
qed

lemma verify_valid:
  assumes "verify cx stmt raw = Inr out" and "verdict_valid out"
  shows "\<exists>st0 st. check_statement_type stmt [] = (Some st0, []) \<and>
    run_checks (checks cx) st0 [] = Inr (st, []) \<and> out = check_gate2_tiers cx st \<and>
    (\<forall>b. raw = Some b \<longrightarrow> \<not> statement_strict_fault b)"
proof -
  have ne: "\<not> (case raw of None \<Rightarrow> False | Some b \<Rightarrow> statement_strict_fault b)"
    using assms by (auto simp: verify_def refused_def verdict_valid_def)
  obtain so c where t: "check_statement_type stmt [] = (so, c)" by fastforce
  show ?thesis
  proof (cases so)
    case None
    have "c \<noteq> []" using t None
      by (auto simp: check_statement_type_def Let_def split: if_split_asm)
    with assms t None ne show ?thesis by (auto simp: verify_def refused_def verdict_valid_def)
  next
    case (Some st0)
    with assms(1) t ne obtain st c' where r: "run_checks (checks cx) st0 c = Inr (st, c')"
      and out: "out = (if c' \<noteq> [] then refused c' else check_gate2_tiers cx st)"
      by (auto simp: verify_def bindr_Inr_iff)
    with assms(2) have "c' = []" by (auto simp: refused_def verdict_valid_def split: if_splits)
    moreover from this r have "extends c []" using run_checks_extends [OF checks_passes] by blast
    ultimately show ?thesis using Some t r out ne by (auto split: option.splits)
  qed
qed

text \<open>The codes of an outcome, valid or not, are without repetition, and a refusal carries no result and
  no tier.\<close>

lemma statement_type_distinct: "check_statement_type stmt [] = (so, c) \<Longrightarrow> distinct c"
  by (auto simp: check_statement_type_def Let_def add_if_def split: if_split_asm)

lemma verify_outcome:
  assumes "verify cx stmt raw = Inr out"
  shows "distinct (out_codes out) \<and>
    (out_codes out \<noteq> [] \<longrightarrow> out_result out = JNull \<and> out_with_key out = None \<and> out_without_key out = None)"
proof (cases "case raw of None \<Rightarrow> False | Some b \<Rightarrow> statement_strict_fault b")
  case True
  with assms show ?thesis by (auto simp: verify_def refused_def)
next
  case False
  obtain so c where t: "check_statement_type stmt [] = (so, c)" by fastforce
  show ?thesis
  proof (cases so)
    case None
    with assms False t statement_type_distinct [OF t] show ?thesis by (auto simp: verify_def refused_def)
  next
    case (Some st0)
    with assms False t obtain st c' where r: "run_checks (checks cx) st0 c = Inr (st, c')"
      and out: "out = (if c' \<noteq> [] then refused c' else check_gate2_tiers cx st)"
      by (auto simp: verify_def bindr_Inr_iff)
    from run_checks_extends [OF checks_passes r] statement_type_distinct [OF t] have "distinct c'"
      by (simp add: extends_def)
    with out show ?thesis by (auto simp: refused_def check_gate2_tiers_def)
  qed
qed

section \<open>What each check leaves alone\<close>

lemma gate0_frame:
  "check_gate0_wellformed st c = Inr (st', c') \<Longrightarrow>
   st' = st\<lparr>st_result := dget (st_pred st) (u ''result''), st_issued_at := st_issued_at st',
     st_env := as_dict (dget (st_pred st) (u ''observationEnvironment'')), st_vocab := st_vocab st'\<rparr>"
  by (auto simp: check_gate0_wellformed_def Let_def bindr_Inr_iff)

lemma vocabulary_frame:
  "check_vocabulary cx st c = Inr (st', c') \<Longrightarrow>
   st' = st\<lparr>st_labels := st_labels st', st_caught := st_caught st'\<rparr>"
  by (auto simp: check_vocabulary_def Let_def bindr_Inr_iff split: option.splits)

lemma corpus_frame:
  "check_corpus cx st c = Inr (st', c') \<Longrightarrow>
   st' = st\<lparr>st_classes := st_classes st', st_declared := st_declared st', st_expected := st_expected st'\<rparr>"
proof (cases "is_dict (dget (st_env st) (u ''corpus''))")
  case True
  assume "check_corpus cx st c = Inr (st', c')"
  with True obtain a b d where "st' = st\<lparr>st_classes := a, st_declared := b, st_expected := d\<rparr>"
    unfolding check_corpus_def Let_def
    by (auto simp: bindr_Inr_iff simp del: corpus_dupes.simps split del: if_split)
  then show ?thesis by simp
next
  case False
  assume "check_corpus cx st c = Inr (st', c')"
  with False show ?thesis by (auto simp: check_corpus_def Let_def)
qed

lemma rows_frame:
  "check_rows_setup st c = Inr (st', c') \<Longrightarrow>
   st' = st\<lparr>st_rows := map as_dict (filter is_dict (as_list (dget (st_pred st) (u ''attackResults'')))),
     st_has_substrate := list_ex (\<lambda>r. dget r (u ''basis'') = js ''substrate'') (st_rows st')\<rparr>"
  by (auto simp: check_rows_setup_def Let_def)

lemma coverage_frame:
  "check_coverage st c = Inr (st', c') \<Longrightarrow> st' = st\<lparr>st_coverage := dget (st_pred st) (u ''coverage'')\<rparr>"
  by (auto simp: check_coverage_def Let_def bindr_Inr_iff split: if_split_asm option.splits)

lemma subject_frame: "check_subject_cardinality st c = Inr (st', c') \<Longrightarrow> st' = st"
  by (simp add: check_subject_cardinality_def)

lemma per_row_frame: "check_per_row_statements st c = Inr (st', c') \<Longrightarrow> st' = st"
  by (simp add: check_per_row_statements_def Let_def)

lemma inputs_frame: "check_substrate_binding_inputs st c = Inr (st', c') \<Longrightarrow> st' = st"
  by (simp add: check_substrate_binding_inputs_def Let_def split: if_split_asm)

lemma fail_closed_frame:
  "check_fail_closed_rows st c = Inr (st', c') \<Longrightarrow>
   st' = st\<lparr>st_fail_closed :=
     map fst (filter (\<lambda>(i, r). row_fail_closed (st_labels st) r) (enumerate 0 (st_rows st)))\<rparr>"
  by (simp add: check_fail_closed_rows_def Let_def)

lemma records_frame:
  "check_records cx st c = Inr (st', c') \<Longrightarrow>
   st' = st\<lparr>st_has_records := st_has_records st', st_views := st_views st'\<rparr>"
  by (auto simp: check_records_def Let_def bindr_Inr_iff split: if_split_asm)

lemma run_binding_frame:
  "check_run_binding cx st c = Inr (st', c') \<Longrightarrow> st' = st\<lparr>st_binding := st_binding st'\<rparr>"
  by (auto simp: check_run_binding_def bindr_Inr_iff split: if_split_asm)

lemma gate1_frame:
  "check_gate1_coverage st c = Inr (st', c') \<Longrightarrow>
   st' = st\<lparr>st_posture := digest_of (dget (st_env st) (u ''networkPosture'')),
     st_covering := st_covering st'\<rparr>"
  by (auto simp: check_gate1_coverage_def Let_def bindr_Inr_iff)

lemma result_frame: "check_result_recompute st c = Inr (st', c') \<Longrightarrow> st' = st"
  by (auto simp: check_result_recompute_def Let_def bindr_Inr_iff split: if_split_asm)

lemmas frames = gate0_frame vocabulary_frame corpus_frame rows_frame coverage_frame subject_frame
  per_row_frame inputs_frame fail_closed_frame records_frame run_binding_frame gate1_frame
  commitments_state result_frame

text \<open>The steps of a clean run, with the state each check started from.\<close>

definition clean_run :: "ctx \<Rightarrow> vstate \<Rightarrow> vstate list \<Rightarrow> bool" where
  "clean_run cx st0 ss \<longleftrightarrow> length ss = 14 \<and>
     check_gate0_wellformed st0 [] = Inr (ss ! 0, []) \<and>
     check_vocabulary cx (ss ! 0) [] = Inr (ss ! 1, []) \<and>
     check_corpus cx (ss ! 1) [] = Inr (ss ! 2, []) \<and>
     check_rows_setup (ss ! 2) [] = Inr (ss ! 3, []) \<and>
     check_subject_cardinality (ss ! 3) [] = Inr (ss ! 4, []) \<and>
     check_coverage (ss ! 4) [] = Inr (ss ! 5, []) \<and>
     check_per_row_statements (ss ! 5) [] = Inr (ss ! 6, []) \<and>
     check_substrate_binding_inputs (ss ! 6) [] = Inr (ss ! 7, []) \<and>
     check_fail_closed_rows (ss ! 7) [] = Inr (ss ! 8, []) \<and>
     check_records cx (ss ! 8) [] = Inr (ss ! 9, []) \<and>
     check_run_binding cx (ss ! 9) [] = Inr (ss ! 10, []) \<and>
     check_gate1_coverage (ss ! 10) [] = Inr (ss ! 11, []) \<and>
     check_commitments cx (ss ! 11) [] = Inr (ss ! 12, []) \<and>
     check_result_recompute (ss ! 12) [] = Inr (ss ! 13, [])"

lemma run_checks_steps:
  assumes "list_all code_pass ps" and "run_checks ps st c = Inr (st', [])"
  shows "\<exists>ss. length ss = length ps \<and> last (st # ss) = st' \<and>
    (\<forall>i < length ps. (ps ! i) ((st # ss) ! i) [] = Inr (ss ! i, []))"
  using assms
proof (induction ps arbitrary: st c)
  case (Cons p ps)
  from run_checks_clean [OF Cons.prems] obtain s where
    s: "p st c = Inr (s, [])" "run_checks ps s [] = Inr (st', [])" "c = []" by blast
  from Cons.IH [OF _ s(2)] Cons.prems(1) obtain ss where ss: "length ss = length ps"
    "last (s # ss) = st'" "\<forall>i < length ps. (ps ! i) ((s # ss) ! i) [] = Inr (ss ! i, [])" by auto
  have "\<forall>i < length (p # ps). ((p # ps) ! i) ((st # s # ss) ! i) [] = Inr ((s # ss) ! i, [])"
    using s ss by (auto simp: nth_Cons split: nat.splits)
  with ss show ?case by (intro exI [of _ "s # ss"]) simp
qed simp

lemma clean_run_exists:
  assumes "run_checks (checks cx) st0 [] = Inr (st, [])"
  shows "\<exists>ss. clean_run cx st0 ss \<and> ss ! 13 = st"
proof -
  from run_checks_steps [OF checks_passes assms] obtain ss where
    l: "length ss = length (checks cx)" and e: "last (st0 # ss) = st"
    and step: "\<And>i. i < length (checks cx) \<Longrightarrow> (checks cx ! i) ((st0 # ss) ! i) [] = Inr (ss ! i, [])"
    by blast
  have n: "length (checks cx) = 14" by (simp add: checks_def)
  have "clean_run cx st0 ss"
    unfolding clean_run_def using l n
      step [of 0] step [of 1] step [of 2] step [of 3] step [of 4] step [of 5] step [of 6]
      step [of 7] step [of 8] step [of 9] step [of 10] step [of 11] step [of 12] step [of 13]
    by (simp add: checks_def)
  moreover have "ss ! 13 = st"
    using e l n last_conv_nth [of ss] by (cases ss) auto
  ultimately show ?thesis by blast
qed

end
