(* ===== verification/ValidVerdict.thy ===== *)
theory ValidVerdict
  imports Verifier
begin

text \<open>
  What a valid verdict of the reference verifier establishes: the clean run is read back, check by
  check, as facts about its final state.
\<close>

section \<open>The clean run from its final state\<close>

text \<open>Each check of a clean run, started from a state that agrees with the final one on what the
  check reads.\<close>

definition same_input :: "vstate \<Rightarrow> vstate \<Rightarrow> bool" where
  "same_input s st \<longleftrightarrow> st_stmt s = st_stmt st \<and> st_pred s = st_pred st"

definition same_gate0 :: "vstate \<Rightarrow> vstate \<Rightarrow> bool" where
  "same_gate0 s st \<longleftrightarrow> same_input s st \<and> st_result s = st_result st \<and>
     st_issued_at s = st_issued_at st \<and> st_env s = st_env st \<and> st_vocab s = st_vocab st"

definition same_corpus :: "vstate \<Rightarrow> vstate \<Rightarrow> bool" where
  "same_corpus s st \<longleftrightarrow> same_gate0 s st \<and> st_labels s = st_labels st \<and> st_caught s = st_caught st \<and>
     st_classes s = st_classes st \<and> st_declared s = st_declared st \<and> st_expected s = st_expected st"

definition same_rows :: "vstate \<Rightarrow> vstate \<Rightarrow> bool" where
  "same_rows s st \<longleftrightarrow> same_corpus s st \<and> st_rows s = st_rows st \<and>
     st_has_substrate s = st_has_substrate st"

definition same_records :: "vstate \<Rightarrow> vstate \<Rightarrow> bool" where
  "same_records s st \<longleftrightarrow> same_rows s st \<and> st_coverage s = st_coverage st \<and>
     st_fail_closed s = st_fail_closed st \<and> st_has_records s = st_has_records st \<and>
     st_views s = st_views st"

lemmas same_defs = same_input_def same_gate0_def same_corpus_def same_rows_def same_records_def

lemma frame_same:
  "check_gate0_wellformed st c = Inr (st', c') \<Longrightarrow> same_input st st'"
  "check_vocabulary cx st c = Inr (st', c') \<Longrightarrow> same_gate0 st st'"
  "check_corpus cx st c = Inr (st', c') \<Longrightarrow>
     same_gate0 st st' \<and> st_labels st = st_labels st' \<and> st_caught st = st_caught st'"
  "check_rows_setup st c = Inr (st', c') \<Longrightarrow> same_corpus st st'"
  "check_coverage st c = Inr (st', c') \<Longrightarrow> same_rows st st'"
  "check_fail_closed_rows st c = Inr (st', c') \<Longrightarrow> same_rows st st' \<and> st_coverage st = st_coverage st'"
  "check_records cx st c = Inr (st', c') \<Longrightarrow>
     same_rows st st' \<and> st_coverage st = st_coverage st' \<and> st_fail_closed st = st_fail_closed st'"
  "check_run_binding cx st c = Inr (st', c') \<Longrightarrow> same_records st st'"
  "check_gate1_coverage st c = Inr (st', c') \<Longrightarrow> same_records st st' \<and> st_binding st = st_binding st'"
  unfolding same_defs
  by (drule frames, (erule ssubst)?, simp)+

lemma same_trans:
  "same_input a b \<Longrightarrow> same_input b c \<Longrightarrow> same_input a c"
  "same_gate0 a b \<Longrightarrow> same_gate0 b c \<Longrightarrow> same_gate0 a c"
  "same_corpus a b \<Longrightarrow> same_corpus b c \<Longrightarrow> same_corpus a c"
  "same_rows a b \<Longrightarrow> same_rows b c \<Longrightarrow> same_rows a c"
  "same_records a b \<Longrightarrow> same_records b c \<Longrightarrow> same_records a c"
  by (simp_all add: same_defs)

lemma same_weaken:
  "same_gate0 a b \<Longrightarrow> same_input a b"
  "same_corpus a b \<Longrightarrow> same_gate0 a b"
  "same_rows a b \<Longrightarrow> same_corpus a b"
  "same_records a b \<Longrightarrow> same_rows a b"
  by (simp_all add: same_defs)

lemma clean_final:
  assumes run: "clean_run cx st0 ss" and st: "ss ! 13 = st"
  shows "check_result_recompute st [] = Inr (st, [])"
    and "check_commitments cx st [] = Inr (st, [])"
    and "\<exists>s. check_gate1_coverage s [] = Inr (st, []) \<and> same_records s st \<and> st_binding s = st_binding st"
    and "\<exists>s s'. check_run_binding cx s [] = Inr (s', []) \<and> same_records s st \<and>
      st_binding s' = st_binding st"
    and "\<exists>s s'. check_records cx s [] = Inr (s', []) \<and> same_rows s st \<and> same_records s' st"
    and "\<exists>s s'. check_fail_closed_rows s [] = Inr (s', []) \<and> same_rows s st \<and>
      st_fail_closed s' = st_fail_closed st"
    and "\<exists>s. check_per_row_statements s [] = Inr (s, []) \<and> same_rows s st"
    and "\<exists>s. check_substrate_binding_inputs s [] = Inr (s, []) \<and> same_rows s st"
    and "\<exists>s s'. check_coverage s [] = Inr (s', []) \<and> same_rows s st \<and> st_coverage s' = st_coverage st"
    and "\<exists>s. check_subject_cardinality s [] = Inr (s, []) \<and> same_rows s st"
    and "\<exists>s s'. check_rows_setup s [] = Inr (s', []) \<and> same_corpus s st \<and> same_rows s' st"
    and "\<exists>s s'. check_corpus cx s [] = Inr (s', []) \<and> same_gate0 s st \<and> same_corpus s' st"
    and "\<exists>s s'. check_vocabulary cx s [] = Inr (s', []) \<and> same_gate0 s st \<and>
      st_labels s' = st_labels st \<and> st_caught s' = st_caught st"
    and "\<exists>s'. check_gate0_wellformed st0 [] = Inr (s', []) \<and> same_input st0 st \<and> same_gate0 s' st"
proof -
  note c = run [unfolded clean_run_def]
  have "ss ! 13 = ss ! 12" "ss ! 12 = ss ! 11" "ss ! 4 = ss ! 3" "ss ! 6 = ss ! 5" "ss ! 7 = ss ! 6"
    using c by (auto dest: result_frame commitments_state subject_frame per_row_frame inputs_frame)
  with st have s: "ss ! 12 = st" "ss ! 11 = st" "ss ! 4 = ss ! 3" "ss ! 6 = ss ! 5" "ss ! 7 = ss ! 5"
    by simp_all
  have g: "check_gate1_coverage (ss ! 10) [] = Inr (st, [])" using c s by simp
  note s10 = frame_same(9) [OF g]
  have b: "check_run_binding cx (ss ! 9) [] = Inr (ss ! 10, [])" using c by simp
  have s9: "same_records (ss ! 9) st" using frame_same(8) [OF b] s10 same_trans by blast
  have r: "check_records cx (ss ! 8) [] = Inr (ss ! 9, [])" using c by simp
  have s8: "same_rows (ss ! 8) st" "st_coverage (ss ! 8) = st_coverage st"
    "st_fail_closed (ss ! 8) = st_fail_closed st"
    using frame_same(7) [OF r] s9 by (auto simp: same_defs)
  have f: "check_fail_closed_rows (ss ! 5) [] = Inr (ss ! 8, [])" using c s by simp
  have s5: "same_rows (ss ! 5) st" "st_coverage (ss ! 5) = st_coverage st"
    using frame_same(6) [OF f] s8 by (auto simp: same_defs)
  have v: "check_coverage (ss ! 3) [] = Inr (ss ! 5, [])" using c s by simp
  have s3: "same_rows (ss ! 3) st" using frame_same(5) [OF v] s5 same_trans by blast
  have w: "check_rows_setup (ss ! 2) [] = Inr (ss ! 3, [])" using c by simp
  have s2: "same_corpus (ss ! 2) st" using frame_same(4) [OF w] s3 same_weaken same_trans by blast
  have k: "check_corpus cx (ss ! 1) [] = Inr (ss ! 2, [])" using c by simp
  have s1: "same_gate0 (ss ! 1) st" "st_labels (ss ! 1) = st_labels st" "st_caught (ss ! 1) = st_caught st"
    using frame_same(3) [OF k] s2 by (auto simp: same_defs)
  have l: "check_vocabulary cx (ss ! 0) [] = Inr (ss ! 1, [])" using c by simp
  have s0: "same_gate0 (ss ! 0) st" using frame_same(2) [OF l] s1 same_trans by blast
  have z: "check_gate0_wellformed st0 [] = Inr (ss ! 0, [])" using c by simp
  have i: "same_input st0 st" using frame_same(1) [OF z] s0 same_weaken same_trans by blast
  show "check_result_recompute st [] = Inr (st, [])" "check_commitments cx st [] = Inr (st, [])"
    using c s st by auto
  show "\<exists>s. check_gate1_coverage s [] = Inr (st, []) \<and> same_records s st \<and> st_binding s = st_binding st"
    using g s10 by blast
  show "\<exists>s s'. check_run_binding cx s [] = Inr (s', []) \<and> same_records s st \<and> st_binding s' = st_binding st"
    using b s9 s10 by blast
  show "\<exists>s s'. check_records cx s [] = Inr (s', []) \<and> same_rows s st \<and> same_records s' st"
    using r s8 s9 by blast
  show "\<exists>s s'. check_fail_closed_rows s [] = Inr (s', []) \<and> same_rows s st \<and>
      st_fail_closed s' = st_fail_closed st"
    using f s5 s8 by blast
  have "check_per_row_statements (ss ! 5) [] = Inr (ss ! 5, [])"
    "check_substrate_binding_inputs (ss ! 5) [] = Inr (ss ! 5, [])"
    "check_subject_cardinality (ss ! 3) [] = Inr (ss ! 3, [])"
    using c s by auto
  then show "\<exists>s. check_per_row_statements s [] = Inr (s, []) \<and> same_rows s st"
    "\<exists>s. check_substrate_binding_inputs s [] = Inr (s, []) \<and> same_rows s st"
    "\<exists>s. check_subject_cardinality s [] = Inr (s, []) \<and> same_rows s st"
    using s5 s3 by blast+
  show "\<exists>s s'. check_coverage s [] = Inr (s', []) \<and> same_rows s st \<and> st_coverage s' = st_coverage st"
    using v s3 s5 by blast
  show "\<exists>s s'. check_rows_setup s [] = Inr (s', []) \<and> same_corpus s st \<and> same_rows s' st"
    using w s2 s3 by blast
  show "\<exists>s s'. check_corpus cx s [] = Inr (s', []) \<and> same_gate0 s st \<and> same_corpus s' st"
    using k s1 s2 by blast
  show "\<exists>s s'. check_vocabulary cx s [] = Inr (s', []) \<and> same_gate0 s st \<and>
      st_labels s' = st_labels st \<and> st_caught s' = st_caught st"
    using l s0 s1 by blast
  show "\<exists>s'. check_gate0_wellformed st0 [] = Inr (s', []) \<and> same_input st0 st \<and> same_gate0 s' st"
    using z i s0 by blast
qed

text \<open>The final state of a valid verification.\<close>

definition valid_state :: "ctx \<Rightarrow> json \<Rightarrow> bytes option \<Rightarrow> outcome \<Rightarrow> vstate \<Rightarrow> bool" where
  "valid_state cx stmt raw out st \<longleftrightarrow>
     verify cx stmt raw = Inr out \<and> verdict_valid out \<and> out = check_gate2_tiers cx st \<and>
     (\<exists>st0 ss. check_statement_type stmt [] = (Some st0, []) \<and> clean_run cx st0 ss \<and> ss ! 13 = st)"

lemma valid_state_exists:
  "verify cx stmt raw = Inr out \<Longrightarrow> verdict_valid out \<Longrightarrow> \<exists>st. valid_state cx stmt raw out st"
  using verify_valid [of cx stmt raw out] clean_run_exists by (metis valid_state_def)

lemma valid_state_run:
  assumes "valid_state cx stmt raw out st"
  obtains st0 ss where "check_statement_type stmt [] = (Some st0, [])" "clean_run cx st0 ss" "ss ! 13 = st"
  using assms by (auto simp: valid_state_def)

section \<open>Statement, rows, result\<close>

lemma statement_type_ok:
  assumes "check_statement_type stmt [] = (Some st0, [])"
  shows "\<exists>d. stmt = JObj d \<and> dget d (u ''_type'') = js STATEMENT_TYPE \<and>
    dget d (u ''predicateType'') = js AEE_PREDICATE_TYPE \<and>
    st_stmt st0 = d \<and> st_pred st0 = as_dict (dget d (u ''predicate''))"
  using assms
  by (auto simp: check_statement_type_def Let_def is_dict_iff init_state_def split: if_split_asm)

lemma valid_input:
  assumes "valid_state cx stmt raw out st"
  shows "\<exists>d. stmt = JObj d \<and> dget d (u ''_type'') = js STATEMENT_TYPE \<and>
    dget d (u ''predicateType'') = js AEE_PREDICATE_TYPE \<and>
    st_stmt st = d \<and> st_pred st = as_dict (dget d (u ''predicate''))"
proof -
  from assms obtain st0 ss where t: "check_statement_type stmt [] = (Some st0, [])"
    and r: "clean_run cx st0 ss" "ss ! 13 = st" by (rule valid_state_run)
  from statement_type_ok [OF t] clean_final(14) [OF r] show ?thesis by (auto simp: same_input_def)
qed

lemma valid_rows:
  assumes "valid_state cx stmt raw out st"
  shows "has_key (st_pred st) (u ''attackResults'') \<and>
    st_rows st = map as_dict (filter is_dict (as_list (dget (st_pred st) (u ''attackResults''))))"
proof -
  from assms obtain st0 ss where r: "clean_run cx st0 ss" "ss ! 13 = st" by (rule valid_state_run)
  from clean_final(11) [OF r] show ?thesis
    by (auto simp: check_rows_setup_def Let_def same_defs)
qed

lemma environment_codes_clean:
  "environment_codes env c = [] \<longleftrightarrow> c = [] \<and>
     (\<forall>m \<in> {''substrate'', ''corpus'', ''catchPolicy'', ''networkPosture''}. has_key env (u m))"
  by (auto simp: environment_codes_def)

lemma issued_at_codes_clean: "issued_at_codes v c = [] \<longleftrightarrow> c = [] \<and> timestamp_ok v"
  by (auto simp: issued_at_codes_def)

lemma posture_codes_clean:
  "posture_codes env c = [] \<longleftrightarrow> c = [] \<and> (is_dict (dget env (u ''networkPosture'')) \<longrightarrow>
     one_of (member (dget env (u ''networkPosture'')) ''posture'') EGRESS_POSTURES)"
  by (auto simp: posture_codes_def Let_def)

lemma gate0_clean:
  assumes "check_gate0_wellformed st [] = Inr (st', [])"
  shows "\<not> has_key (st_pred st) (u ''does_not_assert'') \<and>
    st_result st' = dget (st_pred st) (u ''result'') \<and> in_keys (st_result st') RESULT_ORDER = Inr True \<and>
    timestamp_ok (st_issued_at st') \<and>
    st_env st' = as_dict (dget (st_pred st) (u ''observationEnvironment'')) \<and>
    (\<forall>m \<in> {''substrate'', ''corpus'', ''catchPolicy'', ''networkPosture''}. has_key (st_env st') (u m)) \<and>
    dget (st_env st') (u ''observationVocabulary'') = JObj (the (st_vocab st')) \<and> st_vocab st' \<noteq> None \<and>
    (is_dict (dget (st_env st') (u ''networkPosture'')) \<longrightarrow>
       one_of (member (dget (st_env st') (u ''networkPosture'')) ''posture'') EGRESS_POSTURES)"
  using assms unfolding check_gate0_wellformed_def Let_def
  by (auto simp: bindr_Inr_iff environment_codes_clean issued_at_codes_clean posture_codes_clean is_dict_iff)

lemma valid_gate0:
  assumes "valid_state cx stmt raw out st"
  shows "\<not> has_key (st_pred st) (u ''does_not_assert'') \<and>
    st_result st = dget (st_pred st) (u ''result'') \<and> in_keys (st_result st) RESULT_ORDER = Inr True \<and>
    timestamp_ok (st_issued_at st) \<and>
    st_env st = as_dict (dget (st_pred st) (u ''observationEnvironment'')) \<and>
    (\<forall>m \<in> {''substrate'', ''corpus'', ''catchPolicy'', ''networkPosture''}. has_key (st_env st) (u m)) \<and>
    dget (st_env st) (u ''observationVocabulary'') = JObj (the (st_vocab st)) \<and> st_vocab st \<noteq> None \<and>
    (is_dict (dget (st_env st) (u ''networkPosture'')) \<longrightarrow>
       one_of (member (dget (st_env st) (u ''networkPosture'')) ''posture'') EGRESS_POSTURES)"
proof -
  from assms obtain st0 ss where r: "clean_run cx st0 ss" "ss ! 13 = st" by (rule valid_state_run)
  from clean_final(14) [OF r] obtain s where g: "check_gate0_wellformed st0 [] = Inr (s, [])"
    "same_input st0 st" "same_gate0 s st" by blast
  have e: "st_pred st0 = st_pred st" "st_result s = st_result st" "st_issued_at s = st_issued_at st"
    "st_env s = st_env st" "st_vocab s = st_vocab st"
    using g(2,3) by (simp_all add: same_defs)
  from gate0_clean [OF g(1), unfolded e] show ?thesis .
qed

lemma has_result:
  "in_keys (dget p (u ''result'')) RESULT_ORDER = Inr True \<Longrightarrow> has_key p (u ''result'')"
  by (rule ccontr) (auto simp: in_keys_Inr dget_absent)

lemma valid_result:
  assumes "valid_state cx stmt raw out st"
  shows "out_result out = st_result st \<and> st_result st = dget (st_pred st) (u ''result'') \<and>
    st_result st = js (recompute (st_rows st) (carried (st_labels st)) (carried (st_caught st)) (st_coverage st))"
proof -
  from assms obtain st0 ss where r: "clean_run cx st0 ss" "ss ! 13 = st" by (rule valid_state_run)
  have g: "st_result st = dget (st_pred st) (u ''result'')" "has_key (st_pred st) (u ''result'')"
    using valid_gate0 [OF assms] has_result by auto
  with check_result_recompute_clean [OF clean_final(1) [OF r]] assms show ?thesis
    by (auto simp: valid_state_def check_gate2_tiers_def)
qed

section \<open>Records\<close>

lemma valid_records:
  assumes "valid_state cx stmt raw out st" and "st_has_records st"
  shows "list_all (\<lambda>v. rv_pae v \<noteq> None \<and> rv_sigs v \<noteq> 0 \<and> \<not> rv_decode_err v) (st_views st) \<and>
    distinct (map pae_of (st_views st)) \<and>
    (\<exists>r. dget (st_pred st) (u ''batchRoot'') = JStr r \<and>
      merkle_root_hex (cx_sha256 cx) (map pae_of (st_views st)) = Inr r)"
proof -
  from assms(1) obtain st0 ss where r: "clean_run cx st0 ss" "ss ! 13 = st" by (rule valid_state_run)
  from clean_final(5) [OF r] obtain s s' where c: "check_records cx s [] = Inr (s', [])"
    "same_rows s st" "same_records s' st" by blast
  with assms(2) have "records_codes cx (st_pred s) (st_views s') [] = Inr []"
    by (auto simp: check_records_def Let_def bindr_Inr_iff same_defs split: if_split_asm)
  from records_codes_clean [OF this] c(2,3) show ?thesis by (auto simp: same_defs)
qed

lemma valid_views:
  assumes "valid_state cx stmt raw out st"
  shows "mapr (\<lambda>(i, rec). record_view i rec)
      (enumerate 0 (as_list (dget (st_pred st) (u ''observationRecords'')))) = Inr (st_views st) \<and>
    (st_has_records st \<longleftrightarrow> as_list (dget (st_pred st) (u ''observationRecords'')) \<noteq> [])"
proof -
  from assms obtain st0 ss where r: "clean_run cx st0 ss" "ss ! 13 = st" by (rule valid_state_run)
  from clean_final(5) [OF r] obtain s s' where c: "check_records cx s [] = Inr (s', [])"
    "same_rows s st" "same_records s' st" by blast
  then show ?thesis
    by (auto simp: check_records_def Let_def bindr_Inr_iff same_defs split: if_split_asm)
qed

lemma record_view_idx: "record_view i rec = Inr rv \<Longrightarrow> rv_idx rv = i \<and> rv_raw rv = rec"
  by (auto simp: record_view_def Let_def bindr_Inr_iff split: prod.splits)

text \<open>The index of a record is its place in the list.\<close>

lemma valid_view_idx:
  assumes "valid_state cx stmt raw out st" and "i < length (st_views st)"
  shows "rv_idx (st_views st ! i) = i"
proof -
  let ?rs = "as_list (dget (st_pred st) (u ''observationRecords''))"
  have m: "mapr (\<lambda>(i, rec). record_view i rec) (enumerate 0 ?rs) = Inr (st_views st)"
    using valid_views [OF assms(1)] by simp
  have i: "i < length (enumerate 0 ?rs)" using mapr_Inr_length [OF m] assms(2) by simp
  then have "enumerate 0 ?rs ! i = (i, ?rs ! i)" by (simp add: nth_enumerate_eq)
  with mapr_nth [OF m i] have "record_view i (?rs ! i) = Inr (st_views st ! i)" by simp
  with record_view_idx show ?thesis by blast
qed

end
