(* ===== verification/ValidCover.thy ===== *)
theory ValidCover
  imports ValidVerdict
begin

text \<open>
  What a valid verdict establishes about the records: every \<open>basis: substrate\<close> row is covered by
  readable records of the kinds its label asks for, every interception record is resolved by a caught
  row, and a run with substrate rows carries a seal.
\<close>

section \<open>One row\<close>

text \<open>A record a row may be covered by: readable, with its reserved members, bound to this run.\<close>

definition sound_record :: "json \<Rightarrow> view \<Rightarrow> bool" where
  "sound_record binding rv \<longleftrightarrow>
     rv_payload rv \<noteq> None \<and> rv_media_ok rv \<and> list_all (payload_has rv) RESERVED_MEMBERS \<and>
     (binding \<noteq> JNull \<longrightarrow> py_eq (payload_get rv ''aeeRunBinding'') binding)"

text \<open>The kinds of the covering records, by the row's method and label.\<close>

definition right_cover :: "vstate \<Rightarrow> json \<Rightarrow> jdict \<Rightarrow> view list \<Rightarrow> bool" where
  "right_cover st posture r vs \<longleftrightarrow>
     (if dget r (u ''method'') = js ''reconstructed'' then
        list_all (\<lambda>rv. rv_kind rv = js ''examination'' \<and> examination_ok rv) vs
      else if is_caught st r then
        list_all (\<lambda>rv. rv_kind rv = js ''interception'' \<and>
          commitment_array_ok (payload_get rv ''aeePayloadCommitment'') = Inr True) vs
      else
        list_ex (\<lambda>rv. rv_kind rv = js ''arming'' \<and>
          arming_ok rv posture (st_issued_at st) (st_declared st) = Inr True) vs \<and>
        list_ex (\<lambda>rv. rv_kind rv = js ''sealed'' \<and> payload_get rv ''aeeStillArmed'' = JBool True) vs)"

lemma check_payload_clean:
  assumes "gate1_check_payload b v c = []"
  shows "c = [] \<and> sound_record b v"
proof -
  have m: "''aeeRunBinding'' \<in> set RESERVED_MEMBERS" by (simp add: RESERVED_MEMBERS_def)
  from assms have "c = [] \<and> rv_media_ok v \<and> rv_payload v \<noteq> None \<and> list_all (payload_has v) RESERVED_MEMBERS \<and>
      \<not> (b \<noteq> JNull \<and> payload_has v ''aeeRunBinding'' \<and> \<not> py_eq (payload_get v ''aeeRunBinding'') b)"
    by (auto simp: gate1_check_payload_def Let_def list_ex_iff list_all_iff
        split: option.splits if_split_asm)
  with m show ?thesis by (auto simp: sound_record_def list_all_iff)
qed

lemma fold_check_payload_clean:
  "fold (gate1_check_payload b) vs c = [] \<Longrightarrow> c = [] \<and> list_all (sound_record b) vs"
proof (induction vs arbitrary: c)
  case (Cons v vs)
  then have "gate1_check_payload b v c = []" "list_all (sound_record b) vs" by auto
  then show ?case using check_payload_clean by auto
qed simp

lemma resolve_refs_clean:
  assumes "resolve_refs views refs c = (vs, [], ok)"
  shows "c = [] \<and> set vs \<subseteq> set views \<and> ok \<and> (refs \<noteq> [] \<longrightarrow> vs \<noteq> [])"
proof -
  have none: "c = [] \<and> list_all (\<lambda>ref. ref_fault n ref = None) refs"
    if "fold (\<lambda>ref. add_fault (ref_fault n ref)) refs c = []" for n
    using that
  proof (induction refs arbitrary: c)
    case (Cons ref refs)
    then have "add_fault (ref_fault n ref) c = []" "list_all (\<lambda>ref. ref_fault n ref = None) refs" by auto
    then show ?case by (auto simp: add_fault_def split: option.splits)
  qed simp
  have range: "ref_index ref < n" if "ref_fault n ref = None" for n ref
    using that by (auto simp: ref_fault_def split: json.splits if_split_asm)
  have f: "fold (\<lambda>ref. add_fault (ref_fault (length views) ref)) refs c = []"
    using assms by (simp add: resolve_refs_def Let_def)
  note n = none [OF f]
  then have "filter (\<lambda>ref. ref_fault (length views) ref = None) refs = refs"
    by (auto simp: list_all_iff filter_id_conv)
  with assms have vs: "vs = map (\<lambda>ref. views ! ref_index ref) refs"
    and ok: "ok = list_all (\<lambda>ref. ref_fault (length views) ref = None) refs"
    by (auto simp: resolve_refs_def Let_def)
  from n range have "set vs \<subseteq> set views" unfolding vs by (auto simp: list_all_iff intro!: nth_mem)
  with n vs ok show ?thesis by auto
qed

lemma filterr_set: "filterr p xs = Inr ys \<Longrightarrow> set ys = {x \<in> set xs. p x = Inr True}"
  using filterr_mem by fast

lemma commitments_loop_clean:
  "commitments_loop vs [] = Inr (ws, []) \<Longrightarrow>
   ws = vs \<and> list_all (\<lambda>rv. commitment_array_ok (payload_get rv ''aeePayloadCommitment'') = Inr True) vs"
proof (induction vs arbitrary: ws)
  case (Cons v vs)
  have "\<not> commitments_loop vs (add_code x []) = Inr (ws', [])" for x ws'
    using commitments_loop_extends [of vs "add_code x []" ws' "[]"] by auto
  with Cons show ?case by (auto simp: Let_def bindr_Inr_iff split: if_split_asm)
qed simp

lemma class_match_clean:
  assumes "gate1_class_match st r vs posture c = Inr (ws, [])"
  shows "ws \<noteq> [] \<and> set ws \<subseteq> set vs \<and> right_cover st posture r ws \<and> c = []"
proof -
  let ?us = "filter (\<lambda>rv. rv_payload rv \<noteq> None \<and> rv_media_ok rv) vs"
  have c: "c = []" using class_match_extends [OF assms] by simp
  show ?thesis
  proof (cases "dget r (u ''method'') = js ''reconstructed''")
    case True
    with assms c show ?thesis
      by (auto simp: gate1_class_match_def cover_reconstructed_def Let_def bindr_Inr_iff of_kind_def
          right_cover_def list_all_iff split: if_split_asm)
  next
    case nr: False
    show ?thesis
    proof (cases "is_caught st r")
      case True
      with assms c nr obtain cn where "cover_caught ?us cn [] = Inr (ws, [])"
        by (auto simp: gate1_class_match_def Let_def bindr_Inr_iff)
      then have "of_kind ''interception'' ?us \<noteq> []"
        and "commitments_loop (of_kind ''interception'' ?us) [] = Inr (ws, [])"
        by (auto simp: cover_caught_def Let_def split: if_split_asm)
      with commitments_loop_clean [OF this(2)] c nr True show ?thesis
        by (auto simp: right_cover_def of_kind_def list_all_iff)
    next
      case False
      with assms c nr obtain cn where "cover_clean st ?us cn posture [] = Inr (ws, [])"
        by (auto simp: gate1_class_match_def Let_def bindr_Inr_iff)
      then obtain arm c1 seal where arm: "clean_arm st ?us cn posture [] = Inr (arm, c1)"
        and seal: "clean_seal st ?us cn posture c1 = Inr (seal, [])" and ws: "ws = arm @ seal"
        by (auto simp: cover_clean_def bindr_Inr_iff)
      have c1: "c1 = []" using clean_seal_extends [OF seal] by simp
      from arm c1 have a: "arm \<noteq> []" and
        as: "set arm = {rv \<in> set (of_kind ''arming'' ?us).
          arming_ok rv posture (st_issued_at st) (st_declared st) = Inr True}"
        by (auto simp: clean_arm_def Let_def bindr_Inr_iff split: if_split_asm dest!: filterr_set)
      from seal c1 have s: "seal \<noteq> []" and
        ss: "set seal = {rv \<in> set (of_kind ''sealed'' ?us).
          sealed_ok rv posture (arming_postures ?us) (st_declared st) = Inr True}"
        by (auto simp: clean_seal_def Let_def bindr_Inr_iff split: if_split_asm dest!: filterr_set)
      have still: "sealed_ok rv p ps d = Inr True \<Longrightarrow> payload_get rv ''aeeStillArmed'' = JBool True"
        for rv p ps d by (auto simp: sealed_ok_def Let_def split: if_split_asm)
      from a obtain x where x: "x \<in> set arm" by (cases arm) auto
      from s obtain y where y: "y \<in> set seal" by (cases seal) auto
      have "right_cover st posture r ws"
        using nr False x y as ss still unfolding right_cover_def ws
        by (auto simp: list_ex_iff of_kind_def)
      with ws a as ss c show ?thesis by (auto simp: of_kind_def)
    qed
  qed
qed

lemma gate1_row_clean:
  assumes "gate1_row st i r posture [] = Inr (ws, [])"
    and "dget r (u ''basis'') = js ''substrate''" and "i \<notin> set (st_fail_closed st)"
  shows "\<exists>vs. ws = Some vs \<and> st_has_records st \<and> vs \<noteq> [] \<and> set vs \<subseteq> set (st_views st) \<and>
    list_all (sound_record (st_binding st)) vs \<and> right_cover st posture r vs"
proof -
  obtain vs c1 ok where r: "resolve_refs (st_views st) (as_list (refs_of r)) [] = (vs, c1, ok)"
    by (cases "resolve_refs (st_views st) (as_list (refs_of r)) []") auto
  have rec: "st_has_records st" and refs: "as_list (refs_of r) \<noteq> []"
    using assms by (auto simp: gate1_row_def split: if_split_asm)
  have eq: "(if \<not> ok \<and> vs = [] then Inr (None, c1)
      else bindr (gate1_class_match st r vs posture (fold (gate1_check_payload (st_binding st)) vs c1))
        (\<lambda>(covering, c2). bindr (gate1_method_cap r covering c2) (\<lambda>c3. Inr (Some covering, c3))))
      = Inr (ws, [])"
    using assms rec refs r by (simp add: gate1_row_def)
  show ?thesis
  proof (cases "\<not> ok \<and> vs = []")
    case True
    with eq have "c1 = []" by simp
    with resolve_refs_clean [of "st_views st" _ _ vs ok] r refs True show ?thesis by fastforce
  next
    case False
    with eq obtain cov c2 where
      m: "gate1_class_match st r vs posture (fold (gate1_check_payload (st_binding st)) vs c1) = Inr (cov, c2)"
      and "gate1_method_cap r cov c2 = Inr []" and ws: "ws = Some cov"
      by (auto simp: bindr_Inr_iff)
    then have "c2 = []" using method_cap_extends by fastforce
    with m have cm: "gate1_class_match st r vs posture
        (fold (gate1_check_payload (st_binding st)) vs c1) = Inr (cov, [])" by simp
    note k = class_match_clean [OF cm]
    then have f: "c1 = [] \<and> list_all (sound_record (st_binding st)) vs"
      using fold_check_payload_clean by blast
    then have "set vs \<subseteq> set (st_views st)" using resolve_refs_clean r by blast
    with k f ws rec show ?thesis by (auto simp: list_all_iff)
  qed
qed

lemma gate1_loop_clean:
  assumes "loopr (gate1_step st p) (enumerate n rows) (cov, c) = Inr (cov', [])"
    and "\<forall>k \<in> fst ` set cov. k < n"
  shows "c = [] \<and> (\<forall>k < n. map_of cov' k = map_of cov k) \<and>
    (\<forall>j < length rows. gate1_row st (n + j) (rows ! j) p [] = Inr (map_of cov' (n + j), []))"
  using assms
proof (induction rows arbitrary: n cov c)
  case Nil
  then show ?case by simp
next
  case (Cons r rows)
  then obtain cv d where step: "gate1_step st p (n, r) (cov, c) = Inr (cv, d)"
    and l0: "loopr (gate1_step st p) (enumerate (Suc n) rows) (cv, d) = Inr (cov', [])"
    by (auto simp: bindr_Inr_iff)
  from step obtain ws where g: "gate1_row st n r p c = Inr (ws, d)"
    and "cv = (case ws of None \<Rightarrow> cov | Some vs \<Rightarrow> cov @ [(n, vs)])"
    by (auto simp: bindr_Inr_iff gate1_step_def)
  with l0 have l: "loopr (gate1_step st p) (enumerate (Suc n) rows)
      (case ws of None \<Rightarrow> cov | Some vs \<Rightarrow> cov @ [(n, vs)], d) = Inr (cov', [])" by simp
  let ?cov = "case ws of None \<Rightarrow> cov | Some vs \<Rightarrow> cov @ [(n, vs)]"
  have "\<forall>k \<in> fst ` set ?cov. k < Suc n"
    using Cons.prems(2) by (auto split: option.splits)
  from Cons.IH [OF l this] have d: "d = []" and
    old: "\<And>k. k < Suc n \<Longrightarrow> map_of cov' k = map_of ?cov k" and
    new: "\<And>j. j < length rows \<Longrightarrow> gate1_row st (Suc n + j) (rows ! j) p [] = Inr (map_of cov' (Suc n + j), [])"
    by auto
  have c: "c = []" using gate1_row_extends [OF g] d by simp
  have nin: "map_of cov n = None" using Cons.prems(2) by (auto simp: map_of_eq_None_iff)
  have "map_of ?cov n = ws" using nin by (auto split: option.splits simp: map_of_append map_add_def)
  with old [of n] g c d have "gate1_row st n r p [] = Inr (map_of cov' n, [])" by simp
  moreover have "map_of cov' k = map_of cov k" if "k < n" for k
    using old [of k] that by (auto split: option.splits simp: map_of_append map_add_def)
  ultimately show ?case using c new by (auto simp: nth_Cons split: nat.splits)
qed

section \<open>All substrate rows\<close>

lemma fold_add_if_clean:
  "fold (\<lambda>x. add_if (P x) k) xs c = [] \<longleftrightarrow> c = [] \<and> list_all (\<lambda>x. \<not> P x) xs"
  by (induction xs arbitrary: c) auto

lemma valid_not_fail_closed:
  assumes "valid_state cx stmt raw out st" and "i < length (st_rows st)"
    and "dget (st_rows st ! i) (u ''basis'') = js ''substrate''"
  shows "i \<notin> set (st_fail_closed st)"
proof
  assume "i \<in> set (st_fail_closed st)"
  from assms(1) obtain st0 ss where r: "clean_run cx st0 ss" "ss ! 13 = st" by (rule valid_state_run)
  from clean_final(6) [OF r] obtain s s' where c: "check_fail_closed_rows s [] = Inr (s', [])"
    "same_rows s st" "st_fail_closed s' = st_fail_closed st" by blast
  let ?bad = "filter (\<lambda>(i, r). row_fail_closed (st_labels s) r) (enumerate 0 (st_rows s))"
  have rows: "st_rows s = st_rows st" using c(2) by (simp add: same_defs)
  have clean: "list_all (\<lambda>(i, r). \<not> dget r (u ''basis'') = js ''substrate'') ?bad"
    and fc: "st_fail_closed s' = map fst ?bad"
    using c(1) fold_add_if_clean [of "\<lambda>(i, r). dget r (u ''basis'') = js ''substrate''"]
    by (auto simp: check_fail_closed_rows_def Let_def split_def)
  have "i \<in> set (map fst ?bad)"
    using \<open>i \<in> set (st_fail_closed st)\<close> unfolding c(3) [symmetric] fc .
  then have "i \<in> fst ` set ?bad" by (simp only: set_map)
  then obtain r where ir: "(i, r) \<in> set ?bad" by (metis (no_types, lifting) imageE prod.collapse)
  with clean have "dget r (u ''basis'') \<noteq> js ''substrate''" unfolding list_all_iff by blast
  moreover from ir rows have "(i, r) \<in> set (enumerate 0 (st_rows st))" by simp
  ultimately have "dget r (u ''basis'') \<noteq> js ''substrate''" "(i, r) \<in> set (enumerate 0 (st_rows st))" .
  then show False using assms(3) by (auto simp: in_set_enumerate_eq)
qed

lemma covers_congruence:
  assumes "same_records s st" and "st_binding s = st_binding st"
  shows "right_cover s p r vs = right_cover st p r vs" and "st_binding s = st_binding st"
    and "st_views s = st_views st" and "st_fail_closed s = st_fail_closed st"
    and "st_has_records s = st_has_records st" and "st_rows s = st_rows st"
  using assms by (simp_all add: same_defs right_cover_def is_caught_def)

lemma valid_substrate_row:
  assumes "valid_state cx stmt raw out st" and "i < length (st_rows st)"
    and "dget (st_rows st ! i) (u ''basis'') = js ''substrate''"
  shows "\<exists>vs. map_of (st_covering st) i = Some vs \<and> vs \<noteq> [] \<and> st_has_records st \<and>
    set vs \<subseteq> set (st_views st) \<and> list_all (sound_record (st_binding st)) vs \<and>
    right_cover st (st_posture st) (st_rows st ! i) vs"
proof -
  from assms(1) obtain st0 ss where r: "clean_run cx st0 ss" "ss ! 13 = st" by (rule valid_state_run)
  from clean_final(3) [OF r] obtain s where c: "check_gate1_coverage s [] = Inr (st, [])"
    and same: "same_records s st" "st_binding s = st_binding st" by blast
  note cong = covers_congruence [OF same]
  from c obtain p cov c1 where l: "loopr (gate1_step s p) (enumerate 0 (st_rows s)) ([], c1) = Inr (cov, [])"
    and cov: "st_covering st = cov" and p: "st_posture st = p"
    unfolding check_gate1_coverage_def Let_def by (auto simp: bindr_Inr_iff)
  from gate1_loop_clean [OF l] assms(2) cong have
    "gate1_row s i (st_rows st ! i) p [] = Inr (map_of cov i, [])" by simp
  from gate1_row_clean [OF this assms(3)] valid_not_fail_closed [OF assms] cong cov p
  show ?thesis by auto
qed

end
