(* ===== verification/ValidStatement.thy ===== *)
theory ValidStatement
  imports ValidCover
begin

text \<open>
  A valid verdict read from the statement itself: what each member of the statement is when
  \<open>ReferenceVerifier.verify\<close> reports no code, for the members the rows, the vocabulary, the corpus
  manifest and the coverage are read from.
\<close>

section \<open>The members of a statement\<close>

definition stmt_pred :: "json \<Rightarrow> jdict" where
  "stmt_pred stmt = as_dict (member stmt ''predicate'')"

definition stmt_env :: "json \<Rightarrow> jdict" where
  "stmt_env stmt = as_dict (dget (stmt_pred stmt) (u ''observationEnvironment''))"

definition stmt_rows :: "json \<Rightarrow> jdict list" where
  "stmt_rows stmt = map as_dict (filter is_dict (as_list (dget (stmt_pred stmt) (u ''attackResults''))))"

definition stmt_vocab :: "json \<Rightarrow> json" where
  "stmt_vocab stmt = dget (stmt_env stmt) (u ''observationVocabulary'')"

definition stmt_labels :: "json \<Rightarrow> json list" where
  "stmt_labels stmt = as_list (member (stmt_vocab stmt) ''labels'')"

definition stmt_caught :: "json \<Rightarrow> json list" where
  "stmt_caught stmt = as_list (member (stmt_vocab stmt) ''caught'')"

definition stmt_coverage :: "json \<Rightarrow> json" where
  "stmt_coverage stmt = dget (stmt_pred stmt) (u ''coverage'')"

definition stmt_records :: "json \<Rightarrow> json list" where
  "stmt_records stmt = as_list (dget (stmt_pred stmt) (u ''observationRecords''))"

definition stmt_classes :: "json \<Rightarrow> json" where
  "stmt_classes stmt = member (member (dget (stmt_env stmt) (u ''corpus'')) ''manifest'') ''classes''"

lemmas stmt_defs = stmt_pred_def stmt_env_def stmt_rows_def stmt_vocab_def stmt_labels_def
  stmt_caught_def stmt_coverage_def stmt_records_def stmt_classes_def

lemma member_dict: "is_dict v \<Longrightarrow> member v k = dget (as_dict v) (u k)"
  by (cases v) auto

lemma member_nondict: "\<not> is_dict v \<Longrightarrow> member v k = JNull"
  by (cases v) auto

section \<open>The vocabulary\<close>

lemma vocab_array_ok_True:
  assumes "vocab_array_ok arr = Inr True"
  shows "\<exists>ss. arr = JArr (map JStr ss) \<and> distinct ss \<and> sorted (map utf16_bytes ss)"
proof -
  from assms obtain xs ks where a: "arr = JArr xs" "list_all is_str xs"
    and k: "mapr str_sort_key xs = Inr ks" "sorted ks" "distinct xs"
    by (auto simp: vocab_array_ok_def is_list_iff bindr_Inr_iff split: if_split_asm)
  obtain ss where ss: "xs = map JStr ss"
    using a(2) by (metis ex_map_conv is_str_iff list_all_iff)
  have "ks = map utf16_bytes ss"
    using k(1) unfolding ss
  proof (induction ss arbitrary: ks)
    case (Cons s ss)
    then show ?case by (auto simp: bindr_Inr_iff utf16_sort_key_def split: if_split_asm)
  qed simp
  with a k ss show ?thesis by (auto simp: distinct_map)
qed

lemma py_subset_str:
  assumes "py_subset (map JStr xs) (map JStr ys) = Inr b"
  shows "b = (set xs \<subseteq> set ys)"
proof -
  have d: "set (dedup (map JStr zs)) = JStr ` set zs" for zs
    by (induction zs) (auto simp: py_in_JStr)
  have "list_all is_str (dedup (map JStr ys))" using d [of ys] by (auto simp: list_all_iff)
  from assms py_in_strs [OF this] d [of xs] d [of ys] show ?thesis
    by (auto simp: py_subset_def py_set_def bindr_Inr_iff list_all_iff image_iff)
qed

lemma vocabulary_clean:
  assumes "check_vocabulary cx st [] = Inr (st', [])" and "st_vocab st = Some vocab"
  shows "\<exists>ls cs. dget vocab (u ''labels'') = JArr (map JStr ls) \<and> dget vocab (u ''caught'') = JArr (map JStr cs) \<and>
    distinct ls \<and> sorted (map utf16_bytes ls) \<and> distinct cs \<and> sorted (map utf16_bytes cs) \<and>
    set cs \<subseteq> set ls \<and> st_labels st' = Some (map JStr ls) \<and> st_caught st' = Some (map JStr cs) \<and>
    (\<exists>b. jcs_dumps (JObj [(u ''caught'', JArr (map JStr cs)), (u ''labels'', JArr (map JStr ls))]) = Inr b \<and>
      digest_of (JObj vocab) = JStr (sha256_hex cx b))"
proof -
  let ?l = "dget vocab (u ''labels'')" and ?c = "dget vocab (u ''caught'')"
  from assms obtain ok where ok: "vocab_shape_ok ?l ?c = Inr ok"
    and p: "vocab_check_pairs cx vocab ?l ?c (add_if (\<not> ok) ''vocabulary-not-canonical'' []) = Inr []"
    and st': "st' = st\<lparr>st_labels := (if is_list ?l \<and> is_list ?c then Some (as_list ?l) else None),
      st_caught := (if is_list ?l \<and> is_list ?c then Some (as_list ?c) else None)\<rparr>"
    by (auto simp: check_vocabulary_def Let_def bindr_Inr_iff)
  have ok_True: "ok" using vocab_pairs_extends [OF p] by simp
  with ok have "vocab_array_ok ?l = Inr True" "vocab_array_ok ?c = Inr True"
    by (auto simp: vocab_shape_ok_def bindr_Inr_iff split: if_split_asm)
  then obtain ls cs where ls: "?l = JArr (map JStr ls)" "distinct ls" "sorted (map utf16_bytes ls)"
    and cs: "?c = JArr (map JStr cs)" "distinct cs" "sorted (map utf16_bytes cs)"
    using vocab_array_ok_True by meson
  from p ls cs ok_True obtain b where "py_subset (map JStr cs) (map JStr ls) = Inr True"
    and "jcs_dumps (JObj [(u ''caught'', JArr (map JStr cs)), (u ''labels'', JArr (map JStr ls))]) = Inr b"
    and "digest_of (JObj vocab) = JStr (sha256_hex cx b)"
    by (auto simp: vocab_check_pairs_def bindr_Inr_iff add_if_def split: if_split_asm)
  with py_subset_str ls cs st' show ?thesis by (intro exI [of _ ls] exI [of _ cs]) auto
qed

section \<open>The reading of the members\<close>

lemma valid_pred:
  assumes "valid_state cx stmt raw out st"
  shows "st_pred st = stmt_pred stmt"
  using valid_input [OF assms] by (auto simp: stmt_pred_def)

lemma valid_env:
  assumes "valid_state cx stmt raw out st"
  shows "st_env st = stmt_env stmt \<and> st_rows st = stmt_rows stmt"
  using valid_gate0 [OF assms] valid_rows [OF assms] valid_pred [OF assms]
  by (simp add: stmt_env_def stmt_rows_def)

lemma valid_vocabulary:
  assumes "valid_state cx stmt raw out st"
  shows "\<exists>ls cs. member (stmt_vocab stmt) ''labels'' = JArr (map JStr ls) \<and>
    member (stmt_vocab stmt) ''caught'' = JArr (map JStr cs) \<and>
    distinct ls \<and> sorted (map utf16_bytes ls) \<and> distinct cs \<and> sorted (map utf16_bytes cs) \<and>
    set cs \<subseteq> set ls \<and> st_labels st = Some (map JStr ls) \<and> st_caught st = Some (map JStr cs) \<and>
    (\<exists>b. jcs_dumps (JObj [(u ''caught'', JArr (map JStr cs)), (u ''labels'', JArr (map JStr ls))]) = Inr b \<and>
      digest_of (stmt_vocab stmt) = JStr (sha256_hex cx b))"
proof -
  from assms obtain st0 ss where r: "clean_run cx st0 ss" "ss ! 13 = st" by (rule valid_state_run)
  from clean_final(13) [OF r] obtain s s' where c: "check_vocabulary cx s [] = Inr (s', [])"
    "same_gate0 s st" "st_labels s' = st_labels st" "st_caught s' = st_caught st" by blast
  obtain vocab where v: "st_vocab st = Some vocab" "stmt_vocab stmt = JObj vocab"
    using valid_gate0 [OF assms] valid_env [OF assms] by (auto simp: stmt_vocab_def)
  have "st_vocab s = Some vocab" using c(2) v by (simp add: same_defs)
  from vocabulary_clean [OF c(1) this] c v show ?thesis by simp
qed

lemma valid_labels:
  assumes "valid_state cx stmt raw out st"
  shows "st_labels st = Some (stmt_labels stmt) \<and> st_caught st = Some (stmt_caught stmt)"
  using valid_vocabulary [OF assms] by (auto simp: stmt_labels_def stmt_caught_def)

lemma coverage_state:
  "check_coverage s c = Inr (s', c') \<Longrightarrow> st_coverage s' = dget (st_pred s) (u ''coverage'')"
  by (auto dest: coverage_frame)

lemma valid_coverage_member:
  assumes "valid_state cx stmt raw out st"
  shows "st_coverage st = stmt_coverage stmt"
proof -
  from assms obtain st0 ss where r: "clean_run cx st0 ss" "ss ! 13 = st" by (rule valid_state_run)
  from clean_final(9) [OF r] obtain s s' where c: "check_coverage s [] = Inr (s', [])"
    "same_rows s st" "st_coverage s' = st_coverage st" by blast
  with coverage_state [OF c(1)] valid_pred [OF assms] show ?thesis
    by (simp add: stmt_coverage_def same_defs)
qed

lemma corpus_classes:
  assumes "check_corpus cx s [] = Inr (s', c')"
  shows "st_classes s' =
    (let k = member (member (dget (st_env s) (u ''corpus'')) ''manifest'') ''classes''
     in if is_dict k then Some (as_dict k) else None)"
proof (cases "is_dict (dget (st_env s) (u ''corpus''))")
  case True
  with assms show ?thesis
    unfolding check_corpus_def Let_def by (auto simp: bindr_Inr_iff split del: if_split)
next
  case False
  with assms show ?thesis by (auto simp: check_corpus_def member_nondict)
qed

lemma valid_classes:
  assumes "valid_state cx stmt raw out st"
  shows "st_classes st = (if is_dict (stmt_classes stmt) then Some (as_dict (stmt_classes stmt)) else None)"
proof -
  from assms obtain st0 ss where r: "clean_run cx st0 ss" "ss ! 13 = st" by (rule valid_state_run)
  from clean_final(12) [OF r] obtain s s' where c: "check_corpus cx s [] = Inr (s', [])"
    "same_gate0 s st" "same_corpus s' st" by blast
  have "st_env s = stmt_env stmt" "st_classes s' = st_classes st"
    using c valid_env [OF assms] by (simp_all add: same_defs)
  with corpus_classes [OF c(1)] show ?thesis by (simp only: stmt_classes_def Let_def)
qed

section \<open>Coverage\<close>

lemma lookup_Some: "lookup d k = Some v \<Longrightarrow> \<exists>k'. (k', v) \<in> set d \<and> py_eq k k'"
  by (induction d) (auto split: if_split_asm)

lemma hashable_refl: "hashable v \<Longrightarrow> py_eq v v"
  by (cases v) auto

lemma index_entries:
  assumes "loopr index_attack ps idx = Inr idx'"
  shows "set idx' \<subseteq> set idx \<union> {(aid, cls). (cls, aid) \<in> set ps}"
  using assms
proof (induction ps arbitrary: idx)
  case (Cons p ps)
  then obtain i where i: "index_attack p idx = Inr i" "loopr index_attack ps i = Inr idx'"
    by (auto simp: bindr_Inr_iff)
  have "set i \<subseteq> set idx \<union> {(snd p, fst p)}"
    using i(1) by (cases p) (auto simp: index_attack_def bindr_Inr_iff split: if_split_asm)
  with Cons.IH [OF i(2)] show ?case by fastforce
qed simp

lemma class_ids_lists:
  assumes "mapr (class_ids classes) assessed = Inr ids" and "JStr cls \<in> set assessed"
    and "e \<in> set (as_list (dget classes cls))"
  shows "e \<in> set (concat ids)"
  using assms
proof (induction assessed arbitrary: ids)
  case (Cons a assessed)
  then show ?case by (auto simp: bindr_Inr_iff class_ids_def)
qed simp

text \<open>What rows against the index without a code are: every row's identifier is listed by an assessed
  class, no two rows have one identifier, and every identifier of an assessed class has a row.\<close>

definition attack_of :: "jdict \<Rightarrow> json" where
  "attack_of r = dget r (u ''attackId'')"

lemma coverage_loop_clean:
  assumes "loopr (coverage_row idx assessed) rows (seen, c) = Inr (seen', [])"
  shows "c = [] \<and> set seen' = set seen \<union> attack_of ` set rows \<and> distinct (map attack_of rows) \<and>
    set seen \<inter> attack_of ` set rows = {} \<and>
    (\<forall>r \<in> set rows. hashable (attack_of r) \<and>
      (\<exists>cls. lookup idx (attack_of r) = Some cls \<and> JStr cls \<in> set assessed))"
  using assms
proof (induction rows arbitrary: seen c)
  case (Cons r rows)
  then obtain s d where step: "coverage_row idx assessed r (seen, c) = Inr (s, d)"
    and l: "loopr (coverage_row idx assessed) rows (s, d) = Inr (seen', [])"
    by (auto simp: bindr_Inr_iff)
  note ih = Cons.IH [OF l]
  then have "d = []" by simp
  with step obtain cls where s: "s = attack_of r # seen" and c: "c = []" and h: "hashable (attack_of r)"
    and new: "\<not> py_in (attack_of r) seen" and cls: "lookup idx (attack_of r) = Some cls" "py_in (JStr cls) assessed"
    by (auto simp: coverage_row_def attack_of_def Let_def bindr_Inr_iff in_set_Inr split: option.splits)
  have "attack_of r \<notin> set seen"
    using new hashable_refl [OF h] by (auto simp: py_in_def list_ex_iff)
  with ih s c h cls show ?case by (auto simp: py_in_JStr)
qed simp

lemma coverage_check_rows_clean:
  assumes "coverage_check_rows rows classes assessed c = Inr []"
  shows "distinct (map attack_of rows) \<and>
    (\<forall>r \<in> set rows. \<exists>cls ids k. (cls, ids) \<in> set classes \<and> k \<in> set (as_list ids) \<and>
      py_eq (attack_of r) k \<and> JStr cls \<in> set assessed) \<and>
    (\<forall>cls e. JStr cls \<in> set assessed \<and> e \<in> set (as_list (dget classes cls)) \<longrightarrow>
      (\<exists>r \<in> set rows. py_eq e (attack_of r)))"
proof -
  from assms obtain idx ids seen where i: "loopr index_attack (class_attacks classes) [] = Inr idx"
    and m: "mapr (class_ids classes) assessed = Inr ids"
    and l: "loopr (coverage_row idx assessed) rows ([], c) = Inr (seen, [])"
    and e: "list_all (\<lambda>e. py_in e seen) (concat ids)"
    by (auto simp: coverage_check_rows_def coverage_index_def bindr_Inr_iff list_all_iff list_ex_iff)
  note loop = coverage_loop_clean [OF l]
  have rows: "\<exists>cls ids k. (cls, ids) \<in> set classes \<and> k \<in> set (as_list ids) \<and>
      py_eq (attack_of r) k \<and> JStr cls \<in> set assessed" if "r \<in> set rows" for r
  proof -
    from loop that obtain cls where cls: "lookup idx (attack_of r) = Some cls" "JStr cls \<in> set assessed" by blast
    from lookup_Some [OF cls(1)] obtain k where k: "(k, cls) \<in> set idx" "py_eq (attack_of r) k" by auto
    have "(cls, k) \<in> set (class_attacks classes)" using index_entries [OF i] k(1) by auto
    then obtain ids where "(cls, ids) \<in> set classes" "k \<in> set (as_list ids)"
      by (auto simp: class_attacks_def)
    with cls(2) k(2) show ?thesis by auto
  qed
  have ids: "\<exists>r \<in> set rows. py_eq x (attack_of r)"
    if "JStr cls \<in> set assessed" "x \<in> set (as_list (dget classes cls))" for cls x
  proof -
    from class_ids_lists [OF m that] e have "py_in x seen" by (simp only: list_all_iff)
    then obtain y where "y \<in> set seen" "py_eq x y" by (auto simp: py_in_def list_ex_iff)
    moreover have "set seen = attack_of ` set rows" using loop by simp
    ultimately show ?thesis by auto
  qed
  have "distinct (map attack_of rows)" using loop by simp
  then show ?thesis
    by (intro conjI ballI allI impI rows) (assumption, assumption, erule conjE, rule ids, assumption+)
qed

lemma coverage_clean:
  assumes "check_coverage s [] = Inr (s', [])" and "st_classes s = Some classes"
  shows "\<exists>cov. dget (st_pred s) (u ''coverage'') = JObj cov \<and>
    coverage_partition_ok classes (as_list (dget cov (u ''assessedClasses'')))
      (as_dict (dget cov (u ''outOfScope''))) (as_dict (dget cov (u ''routedElsewhere''))) = Inr True \<and>
    coverage_check_rows (st_rows s) classes (as_list (dget cov (u ''assessedClasses''))) [] = Inr []"
proof -
  have d: "is_dict (dget (st_pred s) (u ''coverage''))"
    using assms by (auto simp: check_coverage_def Let_def split: if_split_asm)
  then obtain cov where cov: "dget (st_pred s) (u ''coverage'') = JObj cov" by (auto simp: is_dict_iff)
  with assms obtain ok where "coverage_partition_ok classes (as_list (dget cov (u ''assessedClasses'')))
      (as_dict (dget cov (u ''outOfScope''))) (as_dict (dget cov (u ''routedElsewhere''))) = Inr ok"
    and r: "coverage_check_rows (st_rows s) classes (as_list (dget cov (u ''assessedClasses'')))
      (add_if (\<not> ok) ''coverage-incomplete'' []) = Inr []"
    by (auto simp: check_coverage_def Let_def bindr_Inr_iff)
  moreover from coverage_rows_extends [OF r] have ok by simp
  ultimately show ?thesis using cov by (auto simp: add_if_def)
qed

lemma valid_coverage:
  assumes "valid_state cx stmt raw out st" and "stmt_classes stmt = JObj classes"
  shows "\<exists>cov. stmt_coverage stmt = JObj cov \<and>
    coverage_partition_ok classes (as_list (dget cov (u ''assessedClasses'')))
      (as_dict (dget cov (u ''outOfScope''))) (as_dict (dget cov (u ''routedElsewhere''))) = Inr True \<and>
    coverage_check_rows (stmt_rows stmt) classes (as_list (dget cov (u ''assessedClasses''))) [] = Inr []"
proof -
  from assms(1) obtain st0 ss where r: "clean_run cx st0 ss" "ss ! 13 = st" by (rule valid_state_run)
  from clean_final(9) [OF r] obtain s s' where c: "check_coverage s [] = Inr (s', [])"
    "same_rows s st" by blast
  have "st_classes s = Some classes" "st_rows s = stmt_rows stmt" "st_pred s = stmt_pred stmt"
    using c(2) valid_classes [OF assms(1)] valid_env [OF assms(1)] valid_pred [OF assms(1)] assms(2)
    by (simp_all add: same_defs)
  with coverage_clean [OF c(1)] show ?thesis by (simp add: stmt_coverage_def)
qed

section \<open>Commitments\<close>

lemma commitments_clean:
  assumes "check_commitments cx st [] = Inr (st, [])"
  shows "commit_clean_row_contradicted st [] = [] \<and> commit_interception_orphaned st [] = [] \<and>
    commit_attribution st [] = Inr [] \<and>
    (st_has_substrate st \<and> st_has_records st \<longrightarrow>
      commit_observed_set cx st [] = Inr [] \<and> commit_sealed_present st [] = Inr [] \<and>
      commit_carried_cover st [] = Inr [] \<and> commit_seal_attacks st [] = Inr [] \<and>
      commit_assessed_subset st [] = Inr [])"
proof -
  let ?c0 = "commit_interception_orphaned st (commit_clean_row_contradicted st [])"
  from assms obtain c1 where a: "commit_attribution st ?c0 = Inr c1"
    and r: "(if \<not> st_has_substrate st \<or> \<not> st_has_records st then Inr (st, c1)
       else bindr (commit_observed_set cx st c1) (\<lambda>c2.
         bindr (commit_sealed_present st c2) (\<lambda>c3.
         bindr (commit_carried_cover st c3) (\<lambda>c4.
         bindr (commit_seal_attacks st c4) (\<lambda>c5.
         bindr (commit_assessed_subset st c5) (\<lambda>c6. Inr (st, c6))))))) = Inr (st, [])"
    unfolding check_commitments_def bindr_Inr_iff by blast
  show ?thesis
  proof (cases "\<not> st_has_substrate st \<or> \<not> st_has_records st")
    case True
    with r have "c1 = []" by simp
    with attribution_extends [OF a [unfolded this]] a have z: "?c0 = []" by (simp add: a)
    moreover have "commit_clean_row_contradicted st [] = []"
      using orphaned_extends [OF extends_refl, of "commit_clean_row_contradicted st []" st] z by simp
    ultimately show ?thesis using True a \<open>c1 = []\<close> by auto
  next
    case False
    with r obtain c2 c3 c4 c5 where s: "commit_observed_set cx st c1 = Inr c2" "commit_sealed_present st c2 = Inr c3"
      "commit_carried_cover st c3 = Inr c4" "commit_seal_attacks st c4 = Inr c5"
      "commit_assessed_subset st c5 = Inr []" by (auto simp: bindr_Inr_iff)
    have "c5 = []" using assessed_subset_extends [OF s(5)] by simp
    moreover from this have "c4 = []" using seal_attacks_extends [OF s(4)] by simp
    moreover from this have "c3 = []" using carried_cover_extends [OF s(3)] by simp
    moreover from this have "c2 = []" using sealed_present_extends [OF s(2)] by simp
    moreover from this have "c1 = []" using observed_set_extends [OF s(1)] by simp
    moreover from this have z: "?c0 = []" using attribution_extends [OF a] by simp
    moreover have "commit_clean_row_contradicted st [] = []"
      using orphaned_extends [OF extends_refl, of "commit_clean_row_contradicted st []" st] z by simp
    ultimately show ?thesis using s a by simp
  qed
qed

lemma valid_commitments:
  assumes "valid_state cx stmt raw out st"
  shows "commit_clean_row_contradicted st [] = [] \<and> commit_interception_orphaned st [] = [] \<and>
    commit_attribution st [] = Inr [] \<and>
    (st_has_substrate st \<and> st_has_records st \<longrightarrow>
      commit_observed_set cx st [] = Inr [] \<and> commit_sealed_present st [] = Inr [] \<and>
      commit_carried_cover st [] = Inr [] \<and> commit_seal_attacks st [] = Inr [] \<and>
      commit_assessed_subset st [] = Inr [])"
proof -
  from assms obtain st0 ss where r: "clean_run cx st0 ss" "ss ! 13 = st" by (rule valid_state_run)
  from commitments_clean [OF clean_final(2) [OF r]] show ?thesis .
qed

text \<open>A row whose label is allowed and not a caught one resolves no interception record, and every
  interception record is resolved by a row whose label is a caught one.\<close>

lemma valid_interceptions:
  assumes "valid_state cx stmt raw out st"
  shows "(\<forall>r \<in> set (stmt_rows stmt). \<not> is_caught st r \<longrightarrow> py_in (dget r (u ''containmentObserved'')) (stmt_labels stmt) \<longrightarrow>
      list_all (\<lambda>rv. \<not> is_interception rv) (resolved_views st r)) \<and>
    (\<forall>rv \<in> set (st_views st). is_interception rv \<longrightarrow>
      (\<exists>r \<in> set (stmt_rows stmt). is_caught st r \<and> rv_idx rv \<in> rv_idx ` set (resolved_views st r)))"
proof -
  note c = valid_commitments [OF assms] and l = valid_labels [OF assms]
  have rows: "st_rows st = stmt_rows stmt" using valid_env [OF assms] by simp
  have "\<not> list_ex (clean_row_contradicted st (stmt_labels stmt) (stmt_caught stmt)) (stmt_rows stmt)"
    using c l rows by (simp add: commit_clean_row_contradicted_def)
  then have 1: "\<forall>r \<in> set (stmt_rows stmt). \<not> is_caught st r \<longrightarrow> py_in (dget r (u ''containmentObserved'')) (stmt_labels stmt) \<longrightarrow>
      list_all (\<lambda>rv. \<not> is_interception rv) (resolved_views st r)"
    using l by (auto simp: clean_row_contradicted_def is_caught_def list_ex_iff list_all_iff Let_def)
  have h: "st_has_records st" if "rv \<in> set (st_views st)" for rv
  proof (rule ccontr)
    assume "\<not> st_has_records st"
    then have "as_list (dget (st_pred st) (u ''observationRecords'')) = []" using valid_views [OF assms] by simp
    then have "st_views st = []" using valid_views [OF assms] by simp
    then show False using that by simp
  qed
  have "\<exists>r \<in> set (stmt_rows stmt). is_caught st r \<and> rv_idx rv \<in> rv_idx ` set (resolved_views st r)"
    if "rv \<in> set (st_views st)" "is_interception rv" for rv
  proof -
    have "rv_idx rv \<in> set (resolved_by_caught st)"
      using c l h [OF that(1)] that by (auto simp: commit_interception_orphaned_def list_ex_iff)
    then show ?thesis using rows by (auto simp: resolved_by_caught_def)
  qed
  with 1 show ?thesis by blast
qed

text \<open>A row attributed \<open>pinned\<close> resolves interception records, and each commits to a payload the
  manifest declared for the row's attack.\<close>

lemma row_attribution_None:
  assumes "row_attribution st r = Inr None" and "dget r (u ''attribution'') = js ''pinned''"
  shows "\<exists>expected. expected_for st r = Inr expected \<and> as_list expected \<noteq> [] \<and>
    filter is_interception (resolved_views st r) \<noteq> [] \<and>
    list_all (\<lambda>rv. is_list (payload_get rv ''aeePayloadCommitment'') \<longrightarrow>
      list_ex (\<lambda>v. py_in v (as_list expected)) (as_list (payload_get rv ''aeePayloadCommitment'')))
      (filter is_interception (resolved_views st r))"
  using assms
  by (auto simp: row_attribution_def bindr_Inr_iff Let_def pin_unmatched_def list_ex_iff list_all_iff
      split: if_split_asm)

lemma valid_attribution:
  assumes "valid_state cx stmt raw out st" and "r \<in> set (stmt_rows stmt)"
    and "dget r (u ''attribution'') = js ''pinned''"
  shows "\<exists>expected. expected_for st r = Inr expected \<and> as_list expected \<noteq> [] \<and>
    filter is_interception (resolved_views st r) \<noteq> [] \<and>
    list_all (\<lambda>rv. is_list (payload_get rv ''aeePayloadCommitment'') \<longrightarrow>
      list_ex (\<lambda>v. py_in v (as_list expected)) (as_list (payload_get rv ''aeePayloadCommitment'')))
      (filter is_interception (resolved_views st r))"
proof -
  have "firstr (row_attribution st) (st_rows st) = Inr None"
    using valid_commitments [OF assms(1)]
    by (auto simp: commit_attribution_def bindr_Inr_iff add_fault_def split: option.splits)
  from firstr_None [OF this] have "row_attribution st r = Inr None"
    using valid_env [OF assms(1)] assms(2) by simp
  from row_attribution_None [OF this assms(3)] show ?thesis .
qed

text \<open>With substrate rows and records, some record seals the run, and every seal bound to the run whose
  claim is a digest claims the digest of the interception and examination records carried.\<close>

lemma valid_seals:
  assumes "valid_state cx stmt raw out st" and "st_has_substrate st" and "st_has_records st"
  shows "(\<exists>rv \<in> set (st_views st). seal_present st rv = Inr True) \<and>
    (\<forall>rv \<in> set (st_views st). bound_kind st ''sealed'' rv \<longrightarrow> is_hex64_lower (payload_get rv ''aeeObservedSet'') \<longrightarrow>
      (\<exists>want. observed_set_digest cx (st_views st) = Inr want \<and> payload_get rv ''aeeObservedSet'' = JStr want))"
proof -
  from valid_commitments [OF assms(1)] assms(2,3) have o: "commit_observed_set cx st [] = Inr []"
    and s: "commit_sealed_present st [] = Inr []" by blast+
  from s have "anyr (seal_present st) (st_views st) = Inr True"
    by (auto simp: commit_sealed_present_def bindr_Inr_iff)
  from anyr_True [OF this] have 1: "\<exists>rv \<in> set (st_views st). seal_present st rv = Inr True" .
  from o have f: "anyr (observed_set_bad cx st) (st_views st) = Inr False"
    by (auto simp: commit_observed_set_def bindr_Inr_iff)
  have "\<exists>want. observed_set_digest cx (st_views st) = Inr want \<and> payload_get rv ''aeeObservedSet'' = JStr want"
    if "rv \<in> set (st_views st)" "bound_kind st ''sealed'' rv" "is_hex64_lower (payload_get rv ''aeeObservedSet'')" for rv
  proof -
    have "observed_set_bad cx st rv = Inr False" using anyr_False [OF f] that(1) by blast
    then show ?thesis using that(2,3) by (auto simp: observed_set_bad_def Let_def bindr_Inr_iff)
  qed
  with 1 show ?thesis by blast
qed

section \<open>The verdict's own members\<close>

lemma valid_statement_result:
  assumes "verify cx stmt raw = Inr out" and "verdict_valid out"
  shows "out_result out = dget (stmt_pred stmt) (u ''result'') \<and>
    out_result out = js (recompute (stmt_rows stmt) (stmt_labels stmt) (stmt_caught stmt) (stmt_coverage stmt))"
proof -
  obtain st where st: "valid_state cx stmt raw out st" using valid_state_exists [OF assms] by blast
  have "st_rows st = stmt_rows stmt" "st_labels st = Some (stmt_labels stmt)" "st_caught st = Some (stmt_caught stmt)"
    using valid_env [OF st] valid_labels [OF st] by simp_all
  with valid_result [OF st] valid_pred [OF st] valid_coverage_member [OF st] show ?thesis
    by (metis carried_def option.case(2))
qed

lemma valid_records_read:
  assumes "valid_state cx stmt raw out st"
  shows "mapr (\<lambda>(i, rec). record_view i rec) (enumerate 0 (stmt_records stmt)) = Inr (st_views st) \<and>
    (st_has_records st \<longleftrightarrow> stmt_records stmt \<noteq> [])"
  using valid_views [OF assms] by (simp add: stmt_records_def valid_pred [OF assms])

lemma valid_has_records:
  assumes "valid_state cx stmt raw out st"
    and "list_ex (\<lambda>r. dget r (u ''basis'') = js ''substrate'') (stmt_rows stmt)"
  shows "st_has_substrate st \<and> st_has_records st"
proof -
  note env = valid_env [OF assms(1)]
  from assms(1) obtain st0 ss where r: "clean_run cx st0 ss" "ss ! 13 = st" by (rule valid_state_run)
  from clean_final(11) [OF r] obtain s s' where c: "check_rows_setup s [] = Inr (s', [])" "same_rows s' st" by blast
  have "st_has_substrate st = list_ex (\<lambda>r. dget r (u ''basis'') = js ''substrate'') (st_rows st)"
    using rows_frame [OF c(1)] c(2) by (auto simp: same_defs dest: arg_cong [where f = st_has_substrate])
  with assms(2) env have sub: "st_has_substrate st" by simp
  from assms(2) env obtain i where "i < length (st_rows st)" "dget (st_rows st ! i) (u ''basis'') = js ''substrate''"
    by (auto simp: list_ex_iff in_set_conv_nth)
  from valid_substrate_row [OF assms(1) this] sub show ?thesis by blast
qed

lemma signature_verifies_iff:
  "signature_verifies cx p sig \<longleftrightarrow>
     (\<exists>b pub. fst (decoded_payload (member sig ''sig'')) = Some b \<and> pub \<in> set (cx_pins cx) \<and>
       ed25519_verify (cx_sha512 cx) pub p b)"
  by (auto simp: signature_verifies_def list_ex_iff split: option.splits)

lemma record_verifies_iff:
  "record_verifies cx v \<longleftrightarrow>
     (\<exists>p sig b pub. rv_pae v = Some p \<and> sig \<in> set (as_list (member (rv_raw v) ''signatures'')) \<and>
       fst (decoded_payload (member sig ''sig'')) = Some b \<and> pub \<in> set (cx_pins cx) \<and>
       ed25519_verify (cx_sha512 cx) pub p b)"
  by (auto simp: record_verifies_def signature_verifies_iff list_ex_iff split: option.splits)

lemma attested_row:
  assumes "verify cx stmt raw = Inr out" and "verdict_valid out"
    and "out_with_key out = Some ts" and "i < length ts" and "ts ! i = Attested"
  shows "cx_pins cx \<noteq> [] \<and> dget (stmt_rows stmt ! i) (u ''basis'') \<noteq> js ''artifact'' \<and>
    (\<exists>st vs. valid_state cx stmt raw out st \<and> map_of (st_covering st) i = Some vs \<and> vs \<noteq> [] \<and>
      (\<forall>v \<in> set vs. \<exists>p sig b pub. rv_pae v = Some p \<and> sig \<in> set (as_list (member (rv_raw v) ''signatures'')) \<and>
        fst (decoded_payload (member sig ''sig'')) = Some b \<and> pub \<in> set (cx_pins cx) \<and>
        ed25519_verify (cx_sha512 cx) pub p b))"
proof -
  obtain st where st: "valid_state cx stmt raw out st" using valid_state_exists [OF assms(1,2)] by blast
  then have "out = check_gate2_tiers cx st" by (simp add: valid_state_def)
  with assms(3) have ts: "ts = tiers cx (stmt_rows stmt) (st_covering st) True"
    using valid_env [OF st] by (simp add: check_gate2_tiers_def)
  with assms(4) have i: "i < length (stmt_rows stmt)" by simp
  from assms(5) ts have "row_tier cx (st_covering st) True i (stmt_rows stmt ! i) = Attested"
    by (simp add: nth_tiers [OF i])
  from row_tier_Attested [OF this] obtain vs where "cx_pins cx \<noteq> []"
    "dget (stmt_rows stmt ! i) (u ''basis'') \<noteq> js ''artifact''" "map_of (st_covering st) i = Some vs" "vs \<noteq> []"
    "\<forall>v \<in> set vs. record_verifies cx v" by (auto simp: list_all_iff)
  with st show ?thesis unfolding record_verifies_iff by blast
qed

end
