(* ===== verification/Keys.thy ===== *)
theory Keys
  imports ValidStatement
begin

text \<open>
  The pinned keys decide the evidence tiers and nothing else: every ordered check gives the same codes
  and the same state under any keys.
\<close>

abbreviation with_pins :: "ctx \<Rightarrow> bytes list \<Rightarrow> ctx" where
  "with_pins cx ps \<equiv> cx\<lparr>cx_pins := ps\<rparr>"

named_theorems keyless \<open>what does not read the pinned keys\<close>

lemma pins_hash [keyless]: "cx_sha256 (with_pins cx ps) = cx_sha256 cx" "cx_repr (with_pins cx ps) = cx_repr cx"
  by simp_all

lemma pins_digests [keyless]:
  "sha256_hex (with_pins cx ps) = sha256_hex cx"
  "observed_leaves (with_pins cx ps) = observed_leaves cx"
  "jcs_dumps_safe (with_pins cx ps) = jcs_dumps_safe cx"
  unfolding sha256_hex_def observed_leaves_def jcs_dumps_safe_def fun_eq_iff keyless by (intro allI refl)+

lemma pins_binding [keyless]:
  "posture_preimage_digest (with_pins cx ps) = posture_preimage_digest cx"
  "observed_set_digest (with_pins cx ps) = observed_set_digest cx"
  unfolding posture_preimage_digest_def observed_set_digest_def fun_eq_iff keyless by (intro allI refl)+

lemma pins_preimage [keyless]: "binding_preimage (with_pins cx ps) = binding_preimage cx"
  unfolding binding_preimage_def fun_eq_iff keyless by (intro allI refl)

lemma pins_derived [keyless]: "derive_binding (with_pins cx ps) = derive_binding cx"
  unfolding derive_binding_def fun_eq_iff keyless by (intro allI refl)

lemma pins_key [keyless]: "record_key (with_pins cx ps) = record_key cx"
  unfolding record_key_def fun_eq_iff keyless by (intro allI refl)

lemma pins_record [keyless]:
  "record_duplicate (with_pins cx ps) = record_duplicate cx"
  "records_batch_root (with_pins cx ps) = records_batch_root cx"
  unfolding record_duplicate_def records_batch_root_def fun_eq_iff keyless by (intro allI refl)+

lemma pins_duplicates [keyless]: "records_duplicates (with_pins cx ps) = records_duplicates cx"
  unfolding records_duplicates_def fun_eq_iff keyless by (intro allI refl)

lemma pins_codes [keyless]:
  "records_codes (with_pins cx ps) = records_codes cx"
  "vocab_check_pairs (with_pins cx ps) = vocab_check_pairs cx"
  "corpus_digest (with_pins cx ps) = corpus_digest cx"
  "observed_set_bad (with_pins cx ps) = observed_set_bad cx"
  unfolding records_codes_def vocab_check_pairs_def corpus_digest_def observed_set_bad_def fun_eq_iff keyless
  by (intro allI refl)+

lemma pins_observed [keyless]: "commit_observed_set (with_pins cx ps) = commit_observed_set cx"
  unfolding commit_observed_set_def fun_eq_iff keyless by (intro allI refl)

lemma pins_each [keyless]:
  "check_vocabulary (with_pins cx ps) = check_vocabulary cx"
  "check_corpus (with_pins cx ps) = check_corpus cx"
  "check_records (with_pins cx ps) = check_records cx"
  "check_run_binding (with_pins cx ps) = check_run_binding cx"
  "check_commitments (with_pins cx ps) = check_commitments cx"
  unfolding check_vocabulary_def check_corpus_def check_records_def check_run_binding_def
    check_commitments_def fun_eq_iff keyless
  by (intro allI refl)+

lemma pins_checks: "checks (with_pins cx ps) = checks cx"
  unfolding checks_def keyless by (rule refl)

lemma verify_pins:
  assumes "verify cx stmt raw = Inr out" and "verify (with_pins cx ps) stmt raw = Inr out'"
  shows "out_codes out' = out_codes out \<and> out_result out' = out_result out \<and>
    out_without_key out' = out_without_key out"
proof (cases "case raw of None \<Rightarrow> False | Some b \<Rightarrow> statement_strict_fault b")
  case True
  with assms show ?thesis by (simp add: verify_def)
next
  case False
  obtain so c where t: "check_statement_type stmt [] = (so, c)" by fastforce
  show ?thesis
  proof (cases so)
    case None
    with assms False t show ?thesis by (simp add: verify_def)
  next
    case (Some st0)
    have eq: "check_gate2_tiers (with_pins cx ps) st =
        (check_gate2_tiers cx st)\<lparr>out_with_key := Some (tiers (with_pins cx ps) (st_rows st) (st_covering st) True)\<rparr>" for st
      by (auto simp: check_gate2_tiers_def tiers_def row_tier_def)
    from Some False t assms obtain st c' where
      "out = (if c' \<noteq> [] then refused c' else check_gate2_tiers cx st)"
      "out' = (if c' \<noteq> [] then refused c' else check_gate2_tiers (with_pins cx ps) st)"
      by (auto simp: verify_def pins_checks bindr_Inr_iff)
    then show ?thesis by (simp add: eq)
  qed
qed

lemma verify_pins_error:
  "verify cx stmt raw = Inl e \<longleftrightarrow> verify (with_pins cx ps) stmt raw = Inl e"
  by (auto simp: verify_def pins_checks bindr_Inl_iff split: option.splits prod.splits if_splits)

end
