(* ===== verification/ParsePrint.thy ===== *)
theory ParsePrint
  imports StrictParse
begin

text \<open>
  The strict payload parse against the canonical serialization: printing a canonical value and
  parsing the bytes gives the value back (\<open>strict_parse_of_canonical\<close>), and two accepted payloads
  with the same value are the same bytes. The scanner's fuel is shown to be enough.
\<close>

section \<open>Canonical values and their text\<close>

definition good_cp :: "nat \<Rightarrow> bool" where
  "good_cp c \<longleftrightarrow> scalar c \<and> \<not> is_noncharacter c"

fun canonical :: "json \<Rightarrow> bool" where
  "canonical (JInt i) = (\<bar>i\<bar> < SAFE_INT_LIMIT)"
| "canonical (JFloat f) = False"
| "canonical (JStr s) = list_all good_cp s"
| "canonical (JArr xs) = list_all canonical xs"
| "canonical (JObj d) =
     (distinct (map fst d) \<and> member_order d = d \<and>
      list_all (\<lambda>(k, v). list_all good_cp k \<and> canonical v) d)"
| "canonical _ = True"

fun text_of :: "json \<Rightarrow> ustr" where
  "text_of JNull = u ''null''"
| "text_of (JBool b) = (if b then u ''true'' else u ''false'')"
| "text_of (JInt i) = int_str i"
| "text_of (JFloat f) = []"
| "text_of (JStr s) = jcs_string s"
| "text_of (JArr xs) = [91] @ join_with [44] (map text_of xs) @ [93]"
| "text_of (JObj d) =
     [123] @ join_with [44] (map (\<lambda>(k, v). jcs_string k @ [58] @ text_of v) d) @ [125]"

fun nesting :: "json \<Rightarrow> nat" where
  "nesting (JArr xs) = Suc (foldr max (map nesting xs) 0)"
| "nesting (JObj d) = Suc (foldr max (map (\<lambda>(k, v). nesting v) d) 0)"
| "nesting _ = 0"

lemma good_no_surrogate: "list_all good_cp k \<Longrightarrow> \<not> has_surrogate k"
  by (rule scalar_no_surrogate) (auto simp: good_cp_def list_all_iff)

lemma ser_text: "canonical v \<Longrightarrow> ser v = Inr (text_of v)"
proof (induction v)
  case (JBool b)
  then show ?case by (cases b) auto
next
  case (JArr xs)
  then have "mapr ser xs = Inr (map text_of xs)"
    by (intro mapr_total) (auto simp: list_all_iff)
  then show ?case by simp
next
  case (JObj d)
  let ?e = "map (\<lambda>(k, v). (k, ser v)) d"
  have v: "ser v = Inr (text_of v) \<and> list_all good_cp k" if "(k, v) \<in> set d" for k v
    using JObj.IH [OF that, of v] JObj.prems that by (auto simp: list_all_iff)
  have "member_order ?e = ?e"
    using JObj.prems by (simp add: member_order_map)
  moreover have "mapr (\<lambda>(k, r). bindr r (\<lambda>t. Inr (jcs_string k @ [58] @ t))) ?e
      = Inr (map (\<lambda>(k, v). jcs_string k @ [58] @ text_of v) d)"
    unfolding mapr_map by (rule mapr_total) (auto dest: v)
  moreover have "\<not> list_ex (\<lambda>(k, v). has_surrogate k) d"
    using v good_no_surrogate by (fastforce simp: list_ex_iff)
  ultimately show ?case by simp
qed auto

section \<open>Fuel\<close>

definition consumes :: "('a \<times> ustr) res \<Rightarrow> ustr \<Rightarrow> bool" where
  "consumes x s \<longleftrightarrow> x \<noteq> Inl RecursionError \<and> (\<forall>v r. x = Inr (v, r) \<longrightarrow> length r < length s)"

definition hooks_total :: "hooks \<Rightarrow> bool" where
  "hooks_total h \<longleftrightarrow>
     (\<forall>ps. pairs_hook h ps \<noteq> Inl RecursionError) \<and> (\<forall>n. float_hook h n \<noteq> Inl RecursionError)"

lemma length_skip_ws [simp]: "length (skip_ws s) \<le> length s"
  by (simp add: skip_ws_def length_dropWhile_le)

lemma consumes_map:
  assumes "consumes m r" and "length r \<le> length s"
  shows "consumes (bindr m (\<lambda>(t, z). Inr (f t, z))) s"
  using assms by (cases m) (auto simp: consumes_def)

lemma consumes_error [simp]: "consumes (Inl e) s \<longleftrightarrow> e \<noteq> RecursionError"
  by (simp add: consumes_def)

lemma consumes_return [simp]: "consumes (Inr (v, r)) s \<longleftrightarrow> length r < length s"
  by (simp add: consumes_def)

lemma consumes_bind:
  assumes "consumes m s" and "\<And>v r. m = Inr (v, r) \<Longrightarrow> length r < length s \<Longrightarrow> consumes (f (v, r)) s"
  shows "consumes (bindr m f) s"
  using assms by (cases m) (auto simp: consumes_def)

lemma consumes_mono: "consumes m r \<Longrightarrow> length r \<le> length s \<Longrightarrow> consumes m s"
  by (fastforce simp: consumes_def)

lemma unicode_escape_error: "unicode_escape s = Inl e \<Longrightarrow> e = ValueError"
  by (auto simp: unicode_escape_def split: option.splits if_splits)

lemma scan_string_consumes: "consumes (scan_string s) s"
proof (induction s rule: scan_string.induct)
  case (1 s)
  show ?case
  proof (cases s)
    case Nil
    then show ?thesis by (simp add: scan_string.simps)
  next
    case (Cons c r)
    show ?thesis
    proof (cases "c = 92")
      case bs: True
      show ?thesis
      proof (cases r)
        case Nil
        with Cons bs show ?thesis by (simp add: scan_string.simps)
      next
        case r: (Cons e r1)
        show ?thesis
        proof (cases "e = 117")
          case True
          show ?thesis
          proof (cases "unicode_escape r1")
            case (Inl x)
            with Cons bs r True unicode_escape_error [OF Inl] show ?thesis
              by (subst scan_string.simps) simp
          next
            case (Inr p)
            obtain ch r2 where p: "p = (ch, r2)" by (cases p)
            have "consumes (scan_string r2) r2"
              using "1.IH"(1) [OF Cons _ bs r True] Inr p bs by simp
            moreover have "length r2 \<le> length s"
              using unicode_escape_drop [of r1 ch r2] Inr p Cons r by simp
            ultimately show ?thesis using Cons bs r True Inr p
              by (subst scan_string.simps) (simp add: consumes_map)
          qed
        next
          case False
          show ?thesis
          proof (cases "simple_escape e")
            case (Some ch)
            have "consumes (scan_string r1) r1"
              using "1.IH"(2) [OF Cons _ bs r False Some] bs by simp
            with Cons bs r False Some show ?thesis
              by (subst scan_string.simps) (simp add: consumes_map)
          qed (use Cons bs r False in \<open>subst scan_string.simps, simp\<close>)
        qed
      qed
    next
      case False
      show ?thesis
      proof (cases "c = 34 \<or> c < 32")
        case True
        with Cons False show ?thesis by (subst scan_string.simps) auto
      next
        case c: False
        have "consumes (scan_string r) r" using "1.IH"(3) [OF Cons _ False] c by simp
        with Cons False c show ?thesis
          by (subst scan_string.simps) (simp add: consumes_map)
      qed
    qed
  qed
qed

lemma scan_number_consumes: "hooks_total h \<Longrightarrow> consumes (scan_number h s) s"
proof -
  assume h: "hooks_total h"
  have int: "length r < length t" if "lex_int t = Some (ds, r)" for t ds r
    using that by (cases t) (auto simp: lex_int_def length_dropWhile_le less_Suc_eq_le split: if_splits)
  have frac: "length r \<le> length t" if "lex_frac t = (ds, r)" for t ds r
    using that length_dropWhile_le [of is_digit]
    by (auto simp: lex_frac_def le_SucI split: list.splits if_splits)
  have ex: "length r \<le> length t" if "lex_exp t = (e, r)" for t e r
    using that length_dropWhile_le [of is_digit "tl (tl t)"] length_dropWhile_le [of is_digit "tl t"]
    by (cases t) (auto simp: lex_exp_def Let_def split: if_splits)
  show ?thesis
  proof (cases "lex_number s")
    case None
    then show ?thesis by (simp add: scan_number_def)
  next
    case (Some p)
    obtain n r where p: "p = (n, r)" by (cases p)
    from Some p int ex frac have "length r < length s"
      by (fastforce simp: lex_number_def Let_def split: if_splits option.splits prod.splits)
    with h Some p show ?thesis
      by (auto simp: scan_number_def consumes_def hooks_total_def bindr_Inl_iff bindr_Inr_iff
          int_lexeme_def split: if_splits)
  qed
qed

lemma scan_constant_consumes: "scan_constant s = Some (v, r) \<Longrightarrow> length r < length s"
  by (auto simp: scan_constant_def starts_def u_def split: if_splits; cases s; simp)

lemma skip_ws_shorter:
  assumes "length r < length (s :: ustr)"
  shows "length (skip_ws r) < length s" "length (tl (skip_ws r)) < length s"
    "length (skip_ws (tl (skip_ws r))) < length s"
proof -
  show 1: "length (skip_ws r) < length s" using assms length_skip_ws [of r] by linarith
  then show 2: "length (tl (skip_ws r)) < length s" by simp
  then show "length (skip_ws (tl (skip_ws r))) < length s"
    using length_skip_ws [of "tl (skip_ws r)"] by linarith
qed

lemma consumes_rest:
  assumes "length r < length s" and "\<And>t. length t < length s \<Longrightarrow> consumes (p t) t"
  shows "consumes (if starts [e] (skip_ws r) then Inr (a, tl (skip_ws r))
           else if starts [44] (skip_ws r) then
             bindr (p (skip_ws (tl (skip_ws r)))) (\<lambda>(vs, z). Inr (f vs, z))
           else Inl ValueError) s"
proof -
  have "consumes (bindr (p (skip_ws (tl (skip_ws r)))) (\<lambda>(vs, z). Inr (f vs, z))) s"
    using assms skip_ws_shorter(3) [OF assms(1)] by (intro consumes_map) auto
  with skip_ws_shorter(2) [OF assms(1)] show ?thesis by simp
qed

lemma consumes_if: "consumes x s \<Longrightarrow> consumes y s \<Longrightarrow> consumes (if b then x else y) s"
  by simp

lemma startsD: "starts [c] s \<Longrightarrow> \<exists>r. s = c # r"
  by (cases s) auto

lemma consumes_hook:
  assumes "hooks_total h" "length z < length s"
  shows "consumes (bindr (pairs_hook h ps) (\<lambda>v. Inr (v, z))) s"
  using assms by (cases "pairs_hook h ps") (auto simp: hooks_total_def)

lemma pv_consumes:
  assumes h: "hooks_total h"
    and e: "\<And>t. length t < length s \<Longrightarrow> consumes (pelems h n t) t"
    and m: "\<And>t. length t < length s \<Longrightarrow> consumes (pmembers h n t) t"
  shows "consumes (pv h (Suc n) s) s"
proof -
  let ?t = "skip_ws (tl s)"
  consider r where "s = 34 # r" | r where "s = 123 # r" | r where "s = 91 # r"
    | "\<not> starts [34] s" "\<not> starts [123] s" "\<not> starts [91] s"
    using startsD by blast
  then show ?thesis
  proof cases
    case (1 r)
    with consumes_map [OF scan_string_consumes [of r], of s] show ?thesis by simp
  next
    case (2 r)
    then have t: "length (skip_ws r) < length s" by (simp add: le_imp_less_Suc)
    have "consumes (pmembers h n (skip_ws r)) s" using t by (intro consumes_mono [OF m [OF t]]) simp
    then have "consumes (bindr (pmembers h n (skip_ws r)) (\<lambda>(ps, z).
        bindr (pairs_hook h ps) (\<lambda>v. Inr (v, z)))) s"
      by (rule consumes_bind) (simp only: prod.case, rule consumes_hook [OF h])
    moreover have "consumes (bindr (pairs_hook h []) (\<lambda>v. Inr (v, tl (skip_ws r)))) s"
      using t by (intro consumes_hook [OF h]) simp
    ultimately show ?thesis using 2 by simp
  next
    case (3 r)
    then have t: "length (skip_ws r) < length s" by (simp add: le_imp_less_Suc)
    then have "consumes (bindr (pelems h n (skip_ws r)) (\<lambda>(vs, z). Inr (JArr vs, z))) s"
      using e [OF t] by (intro consumes_map) auto
    with 3 t show ?thesis by (simp add: less_imp_diff_less)
  next
    case 4
    with scan_number_consumes [OF h, of s] show ?thesis
      by (auto dest: scan_constant_consumes split: option.split)
  qed
qed

lemma pelems_consumes:
  assumes "consumes (pv h n s) s"
    and "\<And>t. length t < length s \<Longrightarrow> consumes (pelems h n t) t"
  shows "consumes (pelems h (Suc n) s) s"
  unfolding pelems.simps
  by (rule consumes_bind [OF assms(1)]) (simp only: prod.case, rule consumes_rest, simp, rule assms(2))

lemma pmembers_consumes:
  assumes v: "\<And>t. length t < length s \<Longrightarrow> consumes (pv h n t) t"
    and m: "\<And>t. length t < length s \<Longrightarrow> consumes (pmembers h n t) t"
  shows "consumes (pmembers h (Suc n) s) s"
proof (cases "starts [34] s")
  case True
  have val: "consumes (bindr (pv h n (skip_ws (tl (skip_ws r1)))) (\<lambda>(v, r).
      if starts [125] (skip_ws r) then Inr ([(k, v)], tl (skip_ws r))
      else if starts [44] (skip_ws r) then
        bindr (pmembers h n (skip_ws (tl (skip_ws r)))) (\<lambda>(ps, z). Inr ((k, v) # ps, z))
      else Inl ValueError)) s" if "length r1 < length s" for k r1
  proof (rule consumes_bind)
    show "consumes (pv h n (skip_ws (tl (skip_ws r1)))) s"
      by (rule consumes_mono [OF v [OF skip_ws_shorter(3) [OF that]]])
        (rule less_imp_le [OF skip_ws_shorter(3) [OF that]])
  qed (simp only: prod.case, rule consumes_rest, simp, rule m)
  have "consumes (scan_string (tl s)) s"
    using scan_string_consumes by (rule consumes_mono) simp
  then have "consumes (bindr (scan_string (tl s)) (\<lambda>(k, r1).
      if \<not> starts [58] (skip_ws r1) then Inl ValueError
      else bindr (pv h n (skip_ws (tl (skip_ws r1)))) (\<lambda>(v, r).
        if starts [125] (skip_ws r) then Inr ([(k, v)], tl (skip_ws r))
        else if starts [44] (skip_ws r) then
          bindr (pmembers h n (skip_ws (tl (skip_ws r)))) (\<lambda>(ps, z). Inr ((k, v) # ps, z))
        else Inl ValueError))) s"
    by (rule consumes_bind) (simp only: prod.case, rule consumes_if, (simp only: consumes_error exn.distinct not_False_eq_True), rule val)
  with True show ?thesis by (simp only: pmembers.simps simp_thms if_False)
qed simp

text \<open>With more than twice the length of the text as fuel the scanner never runs out, and every
  value it returns has consumed something.\<close>

lemma pv_fuel:
  assumes h: "hooks_total h"
  shows "(2 * length s < n \<longrightarrow> consumes (pv h n s) s) \<and>
    (2 * length s + 1 < n \<longrightarrow> consumes (pelems h n s) s) \<and>
    (2 * length s < n \<longrightarrow> consumes (pmembers h n s) s)"
proof (induction n arbitrary: s)
  case (Suc n)
  have v: "consumes (pv h n t) t" and m: "consumes (pmembers h n t) t" if "2 * length t < n" for t
    using Suc.IH that by blast+
  have e: "consumes (pelems h n t) t" if "2 * length t + 1 < n" for t
    using Suc.IH that by blast
  show ?case
  proof (intro conjI impI)
    assume "2 * length s < Suc n"
    then show "consumes (pv h (Suc n) s) s" by (intro pv_consumes [OF h] e m) auto
  next
    assume "2 * length s + 1 < Suc n"
    then show "consumes (pelems h (Suc n) s) s" by (intro pelems_consumes v e) auto
  next
    assume "2 * length s < Suc n"
    then show "consumes (pmembers h (Suc n) s) s" by (intro pmembers_consumes v m) auto
  qed
qed simp

lemma loads_no_recursion_error:
  assumes "hooks_total h"
  shows "loads h s \<noteq> Inl RecursionError"
proof -
  define n where "n = 2 * length s + 2"
  have "2 * length (skip_ws s) < n" using length_skip_ws [of s] unfolding n_def by linarith
  then have "consumes (pv h n (skip_ws s)) (skip_ws s)" using pv_fuel [OF assms] by blast
  then show ?thesis unfolding loads_def n_def [symmetric]
    by (cases "pv h n (skip_ws s)") (auto split: if_splits)
qed

section \<open>Printed strings\<close>

lemma good_cpD: "good_cp c \<Longrightarrow> scalar c \<and> \<not> is_noncharacter c"
  by (simp add: good_cp_def)

lemma hex_val_digit [simp]: "d < 16 \<Longrightarrow> hex_val (hex_digit d) = Some d"
  by (auto simp: hex_val_def hex_digit_def)

lemma hex4_control [simp]:
  assumes "c < 32"
  shows "hex4 (48 # 48 # hex_digit (c div 16) # hex_digit (c mod 16) # r) = Some c"
proof -
  have "hex_val 48 = Some 0" by (simp add: hex_val_def)
  with assms show ?thesis by (simp add: hex4_def)
qed

lemma scan_string_char:
  "scan_string (jcs_char c @ r) = bindr (scan_string r) (\<lambda>(t, z). Inr (c # t, z))"
proof -
  consider "c = 34" | "c = 92" | "c \<in> {8, 9, 10, 12, 13}"
    | "c < 32" "c \<notin> {8, 9, 10, 12, 13}" | "32 \<le> c" "c \<noteq> 34" "c \<noteq> 92" by fastforce
  then show ?thesis
  proof cases
    case 3
    then show ?thesis
      by (auto simp: jcs_char_def jcs_escape_def scan_string.simps [of "92 # _"] simple_escape_def)
  next
    case 4
    then have "unicode_escape (48 # 48 # hex_digit (c div 16) # hex_digit (c mod 16) # r) = Inr (c, r)"
      by (simp add: unicode_escape_def)
    with 4 show ?thesis
      by (auto simp: jcs_char_def jcs_escape_def scan_string.simps [of "92 # _"])
  next
    case 5
    then show ?thesis by (simp add: jcs_char_def scan_string.simps [of "c # _"])
  qed (simp_all add: jcs_char_def scan_string.simps [of "92 # _"] simple_escape_def)
qed

lemma scan_string_printed: "scan_string (concat (map jcs_char s) @ 34 # r) = Inr (s, r)"
  by (induction s) (simp_all add: scan_string_char scan_string.simps [of "34 # _"])

lemma scan_jcs_string: "scan_string (tl (jcs_string s @ r)) = Inr (s, r)"
  using scan_string_printed [of s r] by (simp add: jcs_string_def)

lemma jcs_string_ne [simp]: "jcs_string s \<noteq> []" "hd (jcs_string s) = 34" "starts [34] (jcs_string s @ r)"
  by (simp_all add: jcs_string_def)

section \<open>Printed integers\<close>

definition no_number :: "ustr \<Rightarrow> bool" where
  "no_number r \<longleftrightarrow> r = [] \<or> \<not> (is_digit (hd r) \<or> hd r \<in> {46, 69, 101})"

lemma lex_int_nat_str:
  assumes "no_number r"
  shows "lex_int (nat_str n @ r) = Some (nat_str n, r)"
proof (cases "n = 0")
  case True
  then show ?thesis by (simp add: nat_str.simps lex_int_def)
next
  case False
  obtain c ds where n: "nat_str n = c # ds" by (cases "nat_str n") auto
  then have c: "is_digit c" "c \<noteq> 48" "list_all is_digit ds"
    using nat_str_digits [of n] nat_str_hd [of n] False by auto
  then have "takeWhile is_digit (c # ds @ r) = c # ds \<and> dropWhile is_digit (c # ds @ r) = r"
    using assms by (cases r) (auto simp: no_number_def list_all_iff takeWhile_append dropWhile_append)
  with n c show ?thesis by (simp add: lex_int_def)
qed

lemma lex_tail: "no_number r \<Longrightarrow> lex_frac r = ([], r) \<and> lex_exp r = (None, r)"
  by (cases r) (auto simp: no_number_def lex_frac_def lex_exp_def split: list.splits)

lemma int_str_number:
  assumes "no_number r"
  shows "lex_number (int_str i @ r) =
    Some (\<lparr>num_neg = (i < 0), num_int = nat_str (nat \<bar>i\<bar>), num_frac = [], num_exp = None\<rparr>, r)"
proof -
  have "hd (nat_str n @ r) \<noteq> 45" for n
    using nat_str_digits [of n] by (cases "nat_str n") (auto simp: is_digit_def)
  then show ?thesis
    using lex_int_nat_str [OF assms] lex_tail [OF assms]
    by (auto simp: lex_number_def int_str_def Let_def)
qed

lemma scan_number_int_str:
  assumes "no_number r" and "\<bar>i\<bar> < SAFE_INT_LIMIT"
  shows "scan_number h (int_str i @ r) = Inr (JInt i, r)"
proof -
  have "length (nat_str (nat \<bar>i\<bar>)) \<le> Suc 15"
    using assms(2) by (intro length_nat_str) (simp add: SAFE_INT_LIMIT_def)
  then have "\<not> MAX_STR_DIGITS < length (nat_str (nat \<bar>i\<bar>))" by (simp add: MAX_STR_DIGITS_def)
  then show ?thesis
    by (simp add: scan_number_def int_str_number [OF assms(1)] is_float_lexeme_def int_lexeme_def
        digits_value_nat_str)
qed

section \<open>Printed values\<close>

definition token :: "ustr \<Rightarrow> bool" where
  "token s \<longleftrightarrow> s \<noteq> [] \<and> \<not> is_ws (hd s) \<and> hd s \<notin> {93, 125, 65279}"

lemma skip_token [simp]: "token s \<Longrightarrow> skip_ws (s @ r) = s @ r"
  by (cases s) (auto simp: token_def skip_ws_def)

lemma skip_mark [simp]: "\<not> is_ws c \<Longrightarrow> skip_ws (c # r) = c # r"
  by (simp add: skip_ws_def)

lemma marks [simp]: "\<not> is_ws 93" "\<not> is_ws 44" "\<not> is_ws 125" "\<not> is_ws 58" "\<not> is_ws 34"
  by (simp_all add: is_ws_def)

lemma int_str_hd: "int_str i \<noteq> [] \<and> (hd (int_str i) = 45 \<or> is_digit (hd (int_str i)))"
  using nat_str_digits [of "nat i"] by (cases "nat_str (nat i)") (auto simp: int_str_def)

lemma token_int_str: "token (int_str i)"
  using int_str_hd [of i] by (auto simp: token_def is_ws_def is_digit_def)

text \<open>What the text of a value can be read back from: the members in any order, the strings any.\<close>

fun readable :: "json \<Rightarrow> bool" where
  "readable (JInt i) = (\<bar>i\<bar> < SAFE_INT_LIMIT)"
| "readable (JFloat f) = False"
| "readable (JArr xs) = list_all readable xs"
| "readable (JObj d) = (distinct (map fst d) \<and> list_all (\<lambda>(k, v). readable v) d)"
| "readable _ = True"

lemma canonical_readable: "canonical v \<Longrightarrow> readable v"
  by (induction v) (auto simp: list_all_iff)

lemma text_token: "readable v \<Longrightarrow> token (text_of v)"
  by (cases v) (auto simp: token_int_str, auto simp: token_def u_def is_ws_def)

lemma text_token_ne [simp]: "readable v \<Longrightarrow> text_of v \<noteq> []"
  using text_token by (auto simp: token_def)

lemma starts_token [simp]: "token s \<Longrightarrow> \<not> starts [93] (s @ r)" "token s \<Longrightarrow> \<not> starts [125] (s @ r)"
  by (cases s; simp add: token_def)+

text \<open>What \<open>pv\<close> must do on the text of one value, with enough fuel and any rest that does not
  continue a number.\<close>

definition reads :: "hooks \<Rightarrow> json \<Rightarrow> bool" where
  "reads h v \<longleftrightarrow> (\<forall>n r. 2 * length (text_of v) \<le> n \<longrightarrow> no_number r \<longrightarrow>
     pv h n (text_of v @ r) = Inr (v, r))"

lemma readsD:
  "reads h v \<Longrightarrow> 2 * length (text_of v) \<le> n \<Longrightarrow> no_number r \<Longrightarrow>
   pv h n (text_of v @ r) = Inr (v, r)"
  by (simp add: reads_def)

lemma no_number_mark [simp]: "no_number (93 # r)" "no_number (44 # r)" "no_number (125 # r)"
  by (simp_all add: no_number_def is_digit_def)

lemma pelems_text:
  assumes "xs \<noteq> []" and "\<And>x. x \<in> set xs \<Longrightarrow> reads h x \<and> readable x"
    and "2 * length (join_with [44] (map text_of xs)) < n"
  shows "pelems h n (join_with [44] (map text_of xs) @ 93 # r) = Inr (xs, r)"
  using assms
proof (induction xs arbitrary: n)
  case (Cons x xs)
  then obtain m where n: "n = Suc m" by (cases n) auto
  have x: "reads h x" "readable x" using Cons.prems(2) by auto
  show ?case
  proof (cases xs)
    case Nil
    with Cons.prems n readsD [OF x(1), of m "93 # r"] show ?thesis by simp
  next
    case (Cons y ys)
    let ?t = "join_with [44] (map text_of xs)"
    have len: "length (join_with [44] (map text_of (x # xs))) = length (text_of x) + 1 + length ?t"
      using Cons by simp
    have "0 < length (text_of x)" using x(2) by simp
    then have "pelems h m (?t @ 93 # r) = Inr (xs, r)"
      using Cons.IH [of m] Cons Cons.prems n len by simp
    moreover have "pv h m (text_of x @ 44 # ?t @ 93 # r) = Inr (x, 44 # ?t @ 93 # r)"
      using Cons.prems(3) n len by (intro readsD [OF x(1)]) auto
    moreover have "token (text_of y)" using Cons Cons.prems(2) by (auto intro: text_token)
    then have "skip_ws (?t @ 93 # r) = ?t @ 93 # r"
      using Cons by (cases ys) auto
    ultimately show ?thesis using Cons n by simp
  qed
qed simp

abbreviation member_text :: "ustr \<times> json \<Rightarrow> ustr" where
  "member_text p \<equiv> jcs_string (fst p) @ [58] @ text_of (snd p)"

lemma pmembers_text:
  assumes "d \<noteq> []"
    and "\<And>k v. (k, v) \<in> set d \<Longrightarrow> reads h v \<and> readable v"
    and "2 * length (join_with [44] (map member_text d)) < n"
  shows "pmembers h n (join_with [44] (map member_text d) @ 125 # r) = Inr (d, r)"
  using assms
proof (induction d arbitrary: n)
  case (Cons p d)
  obtain k v where p: "p = (k, v)" by (cases p)
  from Cons.prems obtain m where n: "n = Suc m" by (cases n) auto
  have v: "reads h v" "readable v" using Cons.prems(2) p by auto
  note step = scan_jcs_string text_token [OF v(2)]
  show ?case
  proof (cases d)
    case Nil
    with Cons.prems n p readsD [OF v(1), of m "125 # r"] step show ?thesis by simp
  next
    case (Cons q e)
    let ?t = "join_with [44] (map member_text d)"
    have len: "length (join_with [44] (map member_text (p # d))) =
        length (jcs_string k) + 1 + length (text_of v) + 1 + length ?t"
      using Cons p by simp
    have "pmembers h m (?t @ 125 # r) = Inr (d, r)"
      by (rule Cons.IH) (use Cons Cons.prems n len in \<open>auto simp del: join_with.simps\<close>)
    moreover have "pv h m (text_of v @ 44 # ?t @ 125 # r) = Inr (v, 44 # ?t @ 125 # r)"
      using Cons.prems(3) n len by (intro readsD [OF v(1)]) auto
    moreover have "token (member_text q)"
      by (simp add: token_def is_ws_def)
    then have "skip_ws (?t @ 125 # r) = ?t @ 125 # r"
      using Cons skip_token [of "member_text q"] by (cases e) auto
    ultimately show ?thesis using Cons n p step by simp
  qed
qed simp

lemma pv_int_str:
  assumes "no_number r" and "\<bar>i\<bar> < SAFE_INT_LIMIT"
  shows "pv h (Suc n) (int_str i @ r) = Inr (JInt i, r)"
proof -
  obtain c t where c: "int_str i @ r = c # t" "c = 45 \<or> is_digit c"
    using int_str_hd [of i] by (cases "int_str i") auto
  have "\<not> starts (u ''-Infinity'') (int_str i @ r)"
    using nat_str_digits [of "nat (- i)"] nat_str_digits [of "nat i"]
    by (cases "nat_str (nat (- i))"; cases "nat_str (nat i)")
       (auto simp: int_str_def starts_def u_def is_digit_def)
  with c have "scan_constant (int_str i @ r) = None"
    by (auto simp: scan_constant_def starts_def u_def is_digit_def)
  with c scan_number_int_str [OF assms, of h] show ?thesis by (auto simp: is_digit_def)
qed

lemma readsI:
  assumes "text_of v \<noteq> []"
    and "\<And>n r. no_number r \<Longrightarrow> pv h (Suc n) (text_of v @ r) = Inr (v, r)"
  shows "reads h v"
  unfolding reads_def
proof (intro allI impI)
  fix n r
  assume "2 * length (text_of v) \<le> n" "no_number r"
  with assms show "pv h n (text_of v @ r) = Inr (v, r)" by (cases n) auto
qed

text \<open>The interface of a parse to its object hook: distinct members come back as their dictionary.\<close>

locale keeping_hooks =
  fixes h :: hooks
  assumes keeps: "distinct (map fst d) \<Longrightarrow> pairs_hook h d = Inr (JObj d)"
begin

lemma reads_readable: "readable v \<Longrightarrow> reads h v"
proof (induction v)
  case (JInt i)
  then show ?case using int_str_hd [of i] by (intro readsI) (auto simp del: pv.simps intro: pv_int_str)
next
  case (JStr s)
  then show ?case
    by (intro readsI) (auto simp: jcs_string_def scan_string_printed)
next
  case (JArr xs)
  have xs: "reads h x \<and> readable x" if "x \<in> set xs" for x
    using JArr that by (simp add: list_all_iff)
  show ?case unfolding reads_def
  proof (intro allI impI)
    fix n r assume n: "2 * length (text_of (JArr xs)) \<le> n"
    then obtain m where m: "n = Suc m" by (cases n) auto
    show "pv h n (text_of (JArr xs) @ r) = Inr (JArr xs, r)"
    proof (cases xs)
      case (Cons y ys)
      then have "token (text_of y)" using xs by (auto intro: text_token)
      then have "skip_ws (join_with [44] (map text_of xs) @ 93 # r)
            = join_with [44] (map text_of xs) @ 93 # r"
        and "\<not> starts [93] (join_with [44] (map text_of xs) @ 93 # r)"
        using Cons by (cases ys; simp)+
      moreover have "pelems h m (join_with [44] (map text_of xs) @ 93 # r) = Inr (xs, r)"
        by (rule pelems_text) (use Cons n m xs in auto)
      ultimately show ?thesis using m by simp
    qed (use m in simp)
  qed
next
  case (JObj d)
  have d: "reads h v \<and> readable v" if "(k, v) \<in> set d" for k v
    using JObj.IH [OF that, of v] JObj.prems that by (auto simp: list_all_iff)
  have obj: "text_of (JObj d) = 123 # join_with [44] (map member_text d) @ [125]"
    by (simp add: case_prod_beta')
  show ?case unfolding reads_def obj
  proof (intro allI impI)
    fix n r assume n: "2 * length (123 # join_with [44] (map member_text d) @ [125]) \<le> n"
    then obtain m where m: "n = Suc m" by (cases n) auto
    show "pv h n ((123 # join_with [44] (map member_text d) @ [125]) @ r) = Inr (JObj d, r)"
    proof (cases d)
      case (Cons q e)
      have t: "token (member_text q)" by (simp add: token_def is_ws_def)
      have "skip_ws (join_with [44] (map member_text d) @ 125 # r)
            = join_with [44] (map member_text d) @ 125 # r"
        and "\<not> starts [125] (join_with [44] (map member_text d) @ 125 # r)"
        using Cons skip_token [OF t] starts_token(2) [OF t] by (cases e; simp)+
      moreover have
        "pmembers h m (join_with [44] (map member_text d) @ 125 # r) = Inr (d, r)"
        by (rule pmembers_text) (use Cons n m d in auto)
      ultimately show ?thesis using m JObj.prems keeps by simp
    qed (use m keeps [of "[]"] in simp)
  qed
qed (auto intro!: readsI simp: scan_constant_def starts_def u_def split: if_splits)

lemma loads_printed:
  assumes "readable v"
  shows "loads h (text_of v) = Inr v"
proof -
  have "pv h (2 * length (text_of v) + 2) (text_of v @ []) = Inr (v, [])"
    using reads_readable [OF assms] by (intro readsD) (auto simp: no_number_def)
  moreover have "skip_ws (text_of v) = text_of v" "hd (text_of v) \<noteq> 65279"
    using text_token [OF assms] skip_token [of "text_of v" "[]"] by (auto simp: token_def)
  ultimately show ?thesis by (simp add: loads_def skip_ws_def)
qed

lemma text_of_inject: "readable v \<Longrightarrow> readable w \<Longrightarrow> text_of v = text_of w \<longleftrightarrow> v = w"
  using loads_printed by (metis sum.inject(2))

end

text \<open>\<open>dict(pairs)\<close> of distinct members.\<close>

lemma dict_of_pairs:
  "distinct (map fst (d @ e)) \<Longrightarrow> foldl (\<lambda>d (k, v). dset d k v) d e = d @ e"
proof (induction e arbitrary: d)
  case (Cons p e)
  obtain k v where p: "p = (k, v)" by (cases p)
  have "k \<notin> fst ` set d \<Longrightarrow> dset d k v = d @ [(k, v)]" by (induction d k v rule: dset.induct) auto
  with Cons p show ?case by force
qed simp

interpretation strict_text: keeping_hooks strict_hooks
  by unfold_locales (use reject_dup_pairs_ok [of _ "[]"] in \<open>simp add: strict_hooks_def\<close>)

lemma loads_text: "canonical v \<Longrightarrow> loads strict_hooks (text_of v) = Inr v"
  by (rule strict_text.loads_printed) (rule canonical_readable)

section \<open>The depth scan\<close>

abbreviation outside :: "depth_state \<Rightarrow> bool" where
  "outside st \<equiv> \<not> ds_in_str st \<and> \<not> ds_esc st"

lemma depth_digits:
  "list_all is_digit s \<Longrightarrow> outside st \<Longrightarrow> foldl depth_step st s = st"
  by (induction s arbitrary: st) (auto simp: depth_step_def is_digit_def)

lemma depth_int_str: "outside st \<Longrightarrow> foldl depth_step st (int_str i) = st"
proof -
  assume st: "outside st"
  then have "depth_step st 45 = st" by (simp add: depth_step_def)
  with st depth_digits [OF nat_str_digits] show ?thesis by (simp add: int_str_def)
qed

lemma depth_char:
  assumes "ds_in_str st" "\<not> ds_esc st"
  shows "foldl depth_step st (jcs_char c) = st"
proof -
  have "hex_digit d \<noteq> 34 \<and> hex_digit d \<noteq> 92" if "d < 16" for d
    using that by (auto simp: hex_digit_def)
  moreover have "c < 32 \<Longrightarrow> c div 16 < 16" by simp
  ultimately have "c < 32 \<Longrightarrow> hex_digit (c div 16) \<notin> {34, 92} \<and> hex_digit (c mod 16) \<notin> {34, 92}" by simp
  with assms show ?thesis
    by (cases st) (auto simp: jcs_char_def jcs_escape_def depth_step_def)
qed

lemma depth_string: "outside st \<Longrightarrow> foldl depth_step st (jcs_string s) = st"
proof -
  assume st: "outside st"
  have body: "foldl depth_step t (concat (map jcs_char s)) = t" if "ds_in_str t" "\<not> ds_esc t" for t
    by (induction s) (simp_all add: depth_char [OF that])
  have "depth_step st 34 = st\<lparr>ds_in_str := True\<rparr>" using st by (simp add: depth_step_def)
  moreover have "depth_step (st\<lparr>ds_in_str := True\<rparr>) 34 = st"
    using st by (cases st) (simp add: depth_step_def)
  ultimately show ?thesis using body [of "st\<lparr>ds_in_str := True\<rparr>"] st by (simp add: jcs_string_def)
qed

definition deeper :: "depth_state \<Rightarrow> nat \<Rightarrow> depth_state" where
  "deeper st n = st\<lparr>ds_max := max (ds_max st) (ds_depth st + int n)\<rparr>"

text \<open>Reading a part that nests \<open>n\<close> deep: the state is the old one but for the maximum.\<close>

definition goes :: "nat \<Rightarrow> ustr \<Rightarrow> bool" where
  "goes n s \<longleftrightarrow> (\<forall>st. outside st \<longrightarrow> ds_depth st \<le> ds_max st \<longrightarrow>
     foldl depth_step st s = deeper st n)"

lemma deeper_simps [simp]:
  "outside (deeper st n) \<longleftrightarrow> outside st"
  "ds_depth (deeper st n) = ds_depth st"
  "ds_max (deeper st n) = max (ds_max st) (ds_depth st + int n)"
  "deeper (deeper st m) n = deeper st (max m n)"
  by (auto simp: deeper_def of_nat_max)

lemma deeper_0: "ds_depth st \<le> ds_max st \<Longrightarrow> deeper st 0 = st"
  by (cases st) (simp add: deeper_def)

lemma goes_append: "goes m s \<Longrightarrow> goes n t \<Longrightarrow> goes (max m n) (s @ t)"
  unfolding goes_def by (auto simp: le_max_iff_disj)

lemma goes_flat: "(\<And>st. outside st \<Longrightarrow> foldl depth_step st s = st) \<Longrightarrow> goes 0 s"
  by (simp add: goes_def deeper_0)

lemma goes_join:
  "(\<And>x. x \<in> set xs \<Longrightarrow> goes (f x) (g x)) \<Longrightarrow>
   goes (foldr max (map f xs) 0) (join_with [44] (map g xs))"
proof (induction xs)
  case (Cons x xs)
  have comma: "goes 0 [44]" by (rule goes_flat) (simp add: depth_step_def)
  show ?case
  proof (cases xs)
    case (Cons y ys)
    with Cons.IH Cons.prems have "goes (foldr max (map f xs) 0) (join_with [44] (map g xs))"
      by simp
    with Cons.prems comma have "goes (max (f x) (max 0 (foldr max (map f xs) 0)))
        (g x @ [44] @ join_with [44] (map g xs))"
      by (intro goes_append) auto
    with Cons show ?thesis by simp
  qed (use Cons.prems in simp)
qed (simp add: goes_flat)

lemma goes_bracket:
  assumes "goes n s" and "a \<in> {91, 123}" "b \<in> {93, 125}"
  shows "goes (Suc n) ([a] @ s @ [b])"
  unfolding goes_def
proof (intro allI impI)
  fix st assume st: "outside st" "ds_depth st \<le> ds_max st"
  let ?d = "ds_depth st + 1"
  let ?i = "st\<lparr>ds_depth := ?d, ds_max := max (ds_max st) ?d\<rparr>"
  have "depth_step st a = ?i" using st assms(2) by (auto simp: depth_step_def)
  moreover have "foldl depth_step ?i s = deeper ?i n"
    using assms(1) st by (simp add: goes_def)
  moreover have "depth_step (deeper ?i n) b = deeper st (Suc n)"
    using assms(3) st by (cases st) (auto simp: depth_step_def deeper_def)
  ultimately show "foldl depth_step st ([a] @ s @ [b]) = deeper st (Suc n)" by simp
qed

lemma goes_text: "canonical v \<Longrightarrow> goes (nesting v) (text_of v)"
proof (induction v)
  case (JArr xs)
  then have "goes (foldr max (map nesting xs) 0) (join_with [44] (map text_of xs))"
    by (intro goes_join) (auto simp: list_all_iff)
  then show ?case by (simp del: append_Cons append_Nil add: goes_bracket)
next
  case (JObj d)
  have colon: "goes 0 [58]" by (rule goes_flat) (simp add: depth_step_def)
  have "goes (max 0 (max 0 (nesting v))) (jcs_string k @ [58] @ text_of v)" if "(k, v) \<in> set d" for k v
    using JObj.IH [OF that, of v] JObj.prems that
    by (intro goes_append colon goes_flat depth_string) (auto simp: list_all_iff)
  then have "goes (foldr max (map (\<lambda>(k, v). nesting v) d) 0)
      (join_with [44] (map (\<lambda>(k, v). jcs_string k @ [58] @ text_of v) d))"
    by (intro goes_join) auto
  then show ?case by (simp del: append_Cons append_Nil add: goes_bracket)
qed (auto intro!: goes_flat depth_int_str depth_string simp: u_def depth_step_def)

lemma max_json_depth_text: "canonical v \<Longrightarrow> max_json_depth (text_of v) = int (nesting v)"
  using goes_text [of v] by (simp add: goes_def max_json_depth_def)

section \<open>The scan of printed literals\<close>

abbreviation enc :: "ustr \<Rightarrow> bytes" where
  "enc s \<equiv> concat (map utf8_cp s)"

lemma utf8_cp_ascii [simp]: "c < 128 \<Longrightarrow> utf8_cp c = [c]"
  by (simp add: utf8_cp_def)

lemma hex_digit_ascii [simp]: "d < 16 \<Longrightarrow> hex_digit d < 128"
  by (simp add: hex_digit_def)

lemma enc_control: "c < 32 \<Longrightarrow> enc (jcs_escape c) = jcs_escape c"
  by (simp add: jcs_escape_def)

lemma literal_scan_char:
  assumes "good_cp c"
  shows "literal_scan (enc (jcs_char c) @ r) i = literal_scan r (i + length (enc (jcs_char c)))"
proof -
  consider "c = 34 \<or> c = 92" | "c < 32" | "c \<noteq> 34" "c \<noteq> 92" "32 \<le> c" "c < 128" | "128 \<le> c" by linarith
  then show ?thesis
  proof cases
    case 1
    then show ?thesis by (auto simp: jcs_char_def literal_scan_escape check_escape_def)
  next
    case 2
    then have "\<not> is_noncharacter c" by (simp add: is_noncharacter_def)
    with 2 show ?thesis
      by (auto simp: jcs_char_def enc_control jcs_escape_def literal_scan_escape check_escape_def)
        (simp add: eval_nat_numeral)
  next
    case 3
    then show ?thesis by (simp add: jcs_char_def literal_scan_ascii)
  next
    case 4
    with good_cpD [OF assms] show ?thesis by (simp add: jcs_char_def literal_scan_cp)
  qed
qed

lemma literal_scan_printed:
  "list_all good_cp s \<Longrightarrow>
   literal_scan (enc (concat (map jcs_char s)) @ 34 # r) i =
   Inr (i + length (enc (concat (map jcs_char s))) + 1)"
  by (induction s arbitrary: i) (simp_all add: literal_scan_char)

lemma check_scalars_string:
  assumes "list_all good_cp s"
  shows "check_string_scalars (enc (jcs_string s) @ r) = check_string_scalars r"
proof -
  let ?b = "enc (concat (map jcs_char s))"
  have "check_string_literal (34 # ?b @ 34 # r) = Inr (1 + length ?b + 1)"
    using literal_scan_printed [OF assms, of r 1] by (simp add: check_string_literal_def)
  then show ?thesis
    by (simp add: jcs_string_def check_string_scalars.simps [of "34 # _"])
qed

lemma check_scalars_plain:
  "34 \<notin> set b \<Longrightarrow> check_string_scalars (b @ r) = check_string_scalars r"
  by (induction b) (simp_all add: check_string_scalars.simps [of "_ # _"])

text \<open>A part of the text whose literals are all accepted: the scan goes on behind it.\<close>

definition passes :: "ustr \<Rightarrow> bool" where
  "passes s \<longleftrightarrow> (\<forall>r. check_string_scalars (enc s @ r) = check_string_scalars r)"

lemma passes_append: "passes s \<Longrightarrow> passes t \<Longrightarrow> passes (s @ t)"
  by (simp add: passes_def)

lemma passes_plain: "list_all (\<lambda>c. c < 128 \<and> c \<noteq> 34) s \<Longrightarrow> passes s"
proof -
  assume s: "list_all (\<lambda>c. c < 128 \<and> c \<noteq> 34) s"
  then have "enc s = s" by (induction s) auto
  with s show ?thesis by (auto simp: passes_def list_all_iff intro!: check_scalars_plain)
qed

lemma passes_string: "list_all good_cp s \<Longrightarrow> passes (jcs_string s)"
  by (simp add: passes_def check_scalars_string)

lemma passes_join: "(\<And>x. x \<in> set xs \<Longrightarrow> passes x) \<Longrightarrow> passes (join_with [44] xs)"
proof (induction "[44 :: nat]" xs rule: join_with.induct)
  case (3 x y xs)
  have "passes [44]" by (rule passes_plain) simp
  with 3 show ?case unfolding join_with.simps by (intro passes_append) simp_all
qed (auto intro: passes_plain)

lemma passes_int_str: "passes (int_str i)"
  using nat_str_digits [of "nat i"] nat_str_digits [of "nat (- i)"]
  by (intro passes_plain) (auto simp: int_str_def list_all_iff is_digit_def)

lemma passes_text: "canonical v \<Longrightarrow> passes (text_of v)"
proof (induction v)
  case (JArr xs)
  then show ?case
    by (auto simp del: append_Cons append_Nil simp: list_all_iff
        intro!: passes_append passes_join intro: passes_plain)
next
  case (JObj d)
  have "passes (jcs_string k @ [58] @ text_of v)" if "(k, v) \<in> set d" for k v
    using JObj.IH [OF that, of v] JObj.prems that
    by (intro passes_append [OF passes_string passes_append [OF passes_plain]])
      (auto simp: list_all_iff)
  then have "passes (join_with [44] (map (\<lambda>(k, v). jcs_string k @ [58] @ text_of v) d))"
    by (intro passes_join) (auto simp del: append_Cons append_Nil)
  then show ?case unfolding text_of.simps
    by (intro passes_append) (simp_all add: passes_plain)
next
  case (JStr s)
  then show ?case by (simp add: passes_string)
qed (auto intro!: passes_int_str passes_plain simp: u_def)

section \<open>Printing and parsing\<close>

lemma scalar_ascii [simp]: "c < 128 \<Longrightarrow> scalar c"
  by (simp add: scalar_def surrogate_def)

lemma nat_str_scalar: "list_all scalar (nat_str n)"
  using nat_str_digits [of n] by (auto simp: list_all_iff is_digit_def)

lemma jcs_string_scalar: "list_all good_cp s \<Longrightarrow> list_all scalar (jcs_string s)"
proof -
  have "list_all scalar (jcs_char c)" if "good_cp c" for c
    using that by (auto simp: jcs_char_def jcs_escape_def good_cp_def)
  then show "list_all good_cp s \<Longrightarrow> list_all scalar (jcs_string s)"
    by (auto simp: jcs_string_def list_all_iff)
qed

lemma join_scalar: "(\<And>x. x \<in> set xs \<Longrightarrow> list_all scalar x) \<Longrightarrow> list_all scalar (join_with [44] xs)"
  by (induction "[44 :: nat]" xs rule: join_with.induct) auto

lemma text_scalar: "canonical v \<Longrightarrow> list_all scalar (text_of v)"
proof (induction v)
  case (JArr xs)
  then have "list_all scalar (join_with [44] (map text_of xs))"
    by (intro join_scalar) (auto simp: list_all_iff)
  then show ?case by simp
next
  case (JObj d)
  have "list_all scalar (jcs_string k @ [58] @ text_of v)" if "(k, v) \<in> set d" for k v
    using JObj.IH [OF that, of v] JObj.prems that jcs_string_scalar
    by (auto simp: list_all_iff)
  then have "list_all scalar (join_with [44] (map (\<lambda>(k, v). jcs_string k @ [58] @ text_of v) d))"
    by (intro join_scalar) auto
  then show ?case by simp
next
  case (JInt i)
  then show ?case using nat_str_scalar by (simp add: int_str_def)
qed (auto simp: u_def jcs_string_scalar)

lemma jcs_dumps_text: "canonical v \<Longrightarrow> jcs_dumps v = Inr (enc (text_of v))"
  using scalar_no_surrogate [OF text_scalar]
  by (simp add: jcs_dumps_def ser_text utf8_encode_def)

lemma canonical_safe: "canonical v \<Longrightarrow> safe_numbers v"
  by (induction v) (auto simp: list_all_iff)

theorem parse_of_canonical:
  assumes "canonical v" and "int (nesting v) \<le> MAX_PARSE_DEPTH"
    and "length (enc (text_of v)) \<le> MAX_PARSE_BYTES"
  shows "parse_json_value (enc (text_of v)) = Inr v"
proof -
  have "utf8_decode (enc (text_of v)) = Some (text_of v)"
    using text_scalar [OF assms(1)] by (rule utf8_decode_concat)
  moreover have "check_string_scalars (enc (text_of v)) = Inr ()"
    using passes_text [OF assms(1), unfolded passes_def, rule_format, of "[]"]
    by (simp add: check_string_scalars.simps [of "[]"])
  ultimately show ?thesis
    using assms by (simp add: parse_json_value_def max_json_depth_text loads_text)
qed

text \<open>
  A canonical object within the bounds is accepted from exactly its canonical bytes.
\<close>

definition payload_bytes :: "jdict \<Rightarrow> bytes" where
  "payload_bytes d = enc (text_of (JObj d))"

definition payload_bounds :: "jdict \<Rightarrow> bool" where
  "payload_bounds d \<longleftrightarrow> canonical (JObj d) \<and> member_names_bmp (JObj d) \<and>
     int (nesting (JObj d)) \<le> MAX_PARSE_DEPTH \<and> length (payload_bytes d) \<le> MAX_PARSE_BYTES"

lemma strict_parse_of_canonical:
  assumes "payload_bounds d"
  shows "strict_payload_parse (payload_bytes d) = Inr d"
proof -
  have c: "canonical (JObj d)" "member_names_bmp (JObj d)" using assms by (simp_all add: payload_bounds_def)
  have "parse_json_value (payload_bytes d) = Inr (JObj d)"
    using assms parse_of_canonical [OF c(1)] unfolding payload_bounds_def payload_bytes_def by blast
  moreover have "walk_check_ints (JObj d) = Inr ()"
    using canonical_safe [OF c(1)] walk_check_ints_iff by blast
  moreover have "jcs_dumps (JObj d) = Inr (payload_bytes d)"
    using jcs_dumps_text [OF c(1)] by (simp add: payload_bytes_def)
  ultimately show ?thesis
    using c(2) by (simp add: strict_payload_parse_def)
qed

section \<open>Values whose normal form is canonical\<close>

fun dumpable :: "json \<Rightarrow> bool" where
  "dumpable (JFloat f) = False"
| "dumpable (JInt i) = (\<bar>i\<bar> < SAFE_INT_LIMIT)"
| "dumpable (JStr s) = list_all good_cp s"
| "dumpable (JArr xs) = list_all dumpable xs"
| "dumpable (JObj d) = (distinct (map fst d) \<and> list_all (\<lambda>(k, v). list_all good_cp k \<and> dumpable v) d)"
| "dumpable _ = True"

lemma dumpable_norm: "dumpable v \<Longrightarrow> canonical (norm v)"
proof (induction v)
  case (JObj d)
  have "map fst (map (\<lambda>(k, v). (k, norm v)) d) = map fst d" by (simp add: comp_def split_def)
  with JObj show ?case by (fastforce simp: list_all_iff simp del: map_map)
qed (auto simp: list_all_iff)

lemma dumpable_dumps: "dumpable v \<Longrightarrow> \<exists>b. jcs_dumps v = Inr b"
  using jcs_dumps_text [OF dumpable_norm] by (simp add: jcs_dumps_norm)

end
