(* ===== verification/ParsedValue.thy ===== *)
theory ParsedValue
  imports ParsePrint VerifierState
begin

text \<open>
  What a parsed value is: no dictionary of a value that either strict pass accepts repeats a key, at
  any depth, and an accepted payload has one reading only.
\<close>

definition hooks_wf :: "hooks \<Rightarrow> bool" where
  "hooks_wf h \<longleftrightarrow>
     (\<forall>ps v. pairs_hook h ps = Inr v \<longrightarrow> list_all (\<lambda>(k, v). wf_json v) ps \<longrightarrow> wf_json v) \<and>
     (\<forall>n v. float_hook h n = Inr v \<longrightarrow> wf_json v)"

lemma reject_dup_pairs_Inr:
  "reject_dup_pairs d ps = Inr v \<Longrightarrow>
   v = JObj (d @ ps) \<and> distinct (map fst ps) \<and> (\<forall>p \<in> set ps. \<not> has_key d (fst p))"
proof (induction d ps rule: reject_dup_pairs.induct)
  case (2 d k v ps)
  from 2 show ?case by (fastforce split: if_splits simp: dset_new)
qed auto

lemma strict_hooks_wf: "hooks_wf strict_hooks"
  by (auto simp: hooks_wf_def strict_hooks_def safe_integer_literal_def Let_def
      dest!: reject_dup_pairs_Inr split: if_splits)

lemma lax_hooks_wf: "hooks_wf lax_hooks"
  by (auto simp: hooks_wf_def lax_hooks_def dup_hook_def split: if_splits)

lemma reject_dup_pairs_total: "reject_dup_pairs d ps \<noteq> Inl RecursionError"
  by (induction d ps rule: reject_dup_pairs.induct) auto

lemma strict_hooks_total: "hooks_total strict_hooks"
  by (auto simp: hooks_total_def strict_hooks_def safe_integer_literal_def Let_def reject_dup_pairs_total)

lemma lax_hooks_total: "hooks_total lax_hooks"
  by (auto simp: hooks_total_def lax_hooks_def dup_hook_def)

lemma scan_number_wf:
  assumes "hooks_wf h" and "scan_number h s = Inr (v, r)"
  shows "wf_json v"
  using assms by (auto simp: scan_number_def hooks_wf_def bindr_Inr_iff int_lexeme_def split: option.splits if_splits)

lemma scan_constant_wf: "scan_constant s = Some (v, r) \<Longrightarrow> wf_json v"
  by (auto simp: scan_constant_def split: if_splits)

lemma parsed_wf:
  assumes h: "hooks_wf h"
  shows "(pv h n s = Inr (v, r) \<longrightarrow> wf_json v) \<and>
    (pelems h n s = Inr (vs, r) \<longrightarrow> list_all wf_json vs) \<and>
    (pmembers h n s = Inr (ps, r) \<longrightarrow> list_all (\<lambda>(k, v). wf_json v) ps)"
proof (induction n arbitrary: s v vs ps r)
  case (Suc n)
  have obj: "pairs_hook h qs = Inr w \<Longrightarrow> list_all (\<lambda>(k, v). wf_json v) qs \<Longrightarrow> wf_json w" for qs w
    using h unfolding hooks_wf_def by blast
  have nil: "pairs_hook h [] = Inr w \<Longrightarrow> wf_json w" for w
    using obj [of "[]"] by simp
  have num: "scan_number h s = Inr (w, t) \<Longrightarrow> wf_json w" for s w t
    using scan_number_wf [OF h] .
  have iv: "pv h n s = Inr (w, t) \<Longrightarrow> wf_json w" for s w t using Suc by blast
  have ie: "pelems h n s = Inr (ws, t) \<Longrightarrow> list_all wf_json ws" for s ws t using Suc by blast
  have im: "pmembers h n s = Inr (qs, t) \<Longrightarrow> list_all (\<lambda>(k, v). wf_json v) qs" for s qs t using Suc by blast
  have "pv h (Suc n) s = Inr (v, r) \<Longrightarrow> wf_json v"
    by (auto simp: bindr_Inr_iff split: if_split_asm option.splits
        dest: num scan_constant_wf ie im nil intro: obj)
  moreover have "pelems h (Suc n) s = Inr (vs, r) \<Longrightarrow> list_all wf_json vs"
    by (auto simp: bindr_Inr_iff split: if_split_asm dest: iv ie)
  moreover have "pmembers h (Suc n) s = Inr (ps, r) \<Longrightarrow> list_all (\<lambda>(k, v). wf_json v) ps"
    by (auto simp: bindr_Inr_iff split: if_split_asm dest: iv im)
  ultimately show ?case by blast
qed simp

lemma loads_wf:
  assumes "hooks_wf h" and "loads h s = Inr v"
  shows "wf_json v"
proof -
  define n where "n = 2 * length s + 2"
  have "\<exists>r. pv h n (skip_ws s) = Inr (v, r)"
    using assms(2) unfolding loads_def n_def [symmetric] by (auto simp: bindr_Inr_iff split: if_split_asm)
  then show ?thesis using parsed_wf [OF assms(1)] by blast
qed

lemma strict_payload_parse_wf:
  assumes "strict_payload_parse raw = Inr d"
  shows "wf_json (JObj d) \<and> safe_numbers (JObj d) \<and> member_names_bmp (JObj d)"
proof -
  have p: "parse_json_value raw = Inr (JObj d)" and s: "safe_numbers (JObj d)" "member_names_bmp (JObj d)"
    using strict_payload_parse_names [OF assms] by (simp_all only: walk_check_ints_iff)
  from p obtain t where "loads strict_hooks t = Inr (JObj d)"
    by (auto simp: parse_json_value_def bindr_Inr_iff exceptr_Inr_iff split: if_split_asm option.splits)
  with s loads_wf [OF strict_hooks_wf] show ?thesis by blast
qed

lemma statement_strict_pass:
  assumes "\<not> statement_strict_fault raw"
  shows "length raw \<le> MAX_PARSE_BYTES \<and>
    (\<exists>t v. utf8_decode raw = Some t \<and> max_json_depth t \<le> MAX_PARSE_DEPTH \<and>
      loads lax_hooks t = Inr v \<and> wf_json v \<and> check_string_scalars raw = Inr ())"
  using assms loads_wf [OF lax_hooks_wf]
  by (auto simp: statement_strict_fault_def split: if_split_asm option.splits sum.splits)

text \<open>A number whose exponent the decimal library refuses makes the parse raise.\<close>

lemma scan_string_nondigit: "is_digit c \<Longrightarrow> pv h (Suc n) (c # s) = scan_number h (c # s)"
  by (auto simp: scan_constant_def starts_def u_def is_digit_def)

lemma pv_digit: "is_digit c \<Longrightarrow> loads h (c # s) =
    bindr (scan_number h (c # s)) (\<lambda>(v, r). if skip_ws r = [] then Inr v else Inl ValueError)"
  using scan_string_nondigit [of c h "2 * length (c # s) + 1" s]
  by (simp add: loads_def skip_ws_def is_digit_def is_ws_def)

definition huge_number :: bytes where
  "huge_number = [49, 101] @ replicate 19 57"

lemma nines: "digits_value v (replicate n 57) + 1 = (v + 1) * 10 ^ n"
  by (induction n arbitrary: v) (auto simp: algebra_simps)

lemma huge_number_raises: "parse_json_value huge_number = Inl DecimalInvalidOperation"
proof -
  have lex: "lex_number huge_number =
      Some (\<lparr>num_neg = False, num_int = [49], num_frac = [], num_exp = Some (False, replicate 19 57)\<rparr>, [])"
    by (simp add: lex_number_def huge_number_def lex_int_def lex_frac_def lex_exp_def Let_def
        is_digit_def numeral_eq_Suc)
  have "digits_value 0 (replicate 19 57) = 9999999999999999999"
    using nines [of 0 19] by simp
  then have "safe_integer_literal \<lparr>num_neg = False, num_int = [49], num_frac = [], num_exp = Some (False, replicate 19 57)\<rparr>
      = Inl DecimalInvalidOperation"
    by (simp add: safe_integer_literal_def dec_exp_def dec_representable_def MAX_EMAX_def dec_coeff_def
        nat_str.simps)
  then have "scan_number strict_hooks huge_number = Inl DecimalInvalidOperation"
    by (auto simp: scan_number_def lex is_float_lexeme_def strict_hooks_def)
  moreover obtain r where r: "huge_number = 49 # r" by (simp add: huge_number_def)
  ultimately have "loads strict_hooks huge_number = Inl DecimalInvalidOperation"
    using pv_digit [of 49 strict_hooks r] by (simp add: is_digit_def)
  moreover have "utf8_decode huge_number = Some huge_number"
  proof -
    have "list_all scalar huge_number" by (simp add: huge_number_def scalar_def surrogate_def list_all_iff)
    moreover have "concat (map utf8_cp huge_number) = huge_number"
      by (simp add: huge_number_def utf8_cp_def numeral_eq_Suc)
    ultimately show ?thesis using utf8_decode_concat by metis
  qed
  moreover have "max_json_depth huge_number = 0"
  proof -
    have "foldl depth_step d (replicate n 57) = d" if "\<not> ds_in_str d" for n d
      using that by (induction n) (simp_all add: depth_step_def)
    then show ?thesis by (simp add: max_json_depth_def huge_number_def depth_step_def)
  qed
  ultimately show ?thesis
    by (simp add: parse_json_value_def MAX_PARSE_BYTES_def MAX_PARSE_DEPTH_def)
      (simp add: huge_number_def)
qed

end
