(* ===== verification/StdLib.thy ===== *)
theory StdLib
  imports VerifierState
begin

text \<open>
  What the conformance runner of \<open>packaging/run_vectors.py\<close> uses of Python's standard library beyond the
  verifier's needs: iteration and \<open>str\<close> of a carried value, \<open>json.loads\<close> with its default hooks,
  \<open>bytes.decode\<close> with replacement, \<open>splitlines\<close>, and the functions of \<open>os.path\<close> on strings.
\<close>

section \<open>Carried values\<close>

text \<open>\<open>for x in v\<close>, and \<open>for x in v or []\<close>.\<close>

fun py_iter :: "json \<Rightarrow> json list res" where
  "py_iter (JArr xs) = Inr xs"
| "py_iter (JStr s) = Inr (map (\<lambda>c. JStr [c]) s)"
| "py_iter (JObj d) = Inr (map (\<lambda>(k, _). JStr k) d)"
| "py_iter _ = Inl TypeError"

definition iter_or_empty :: "json \<Rightarrow> json list res" where
  "iter_or_empty v = (if truthy v then py_iter v else Inr [])"

text \<open>\<open>v or {}\<close> of which a method of dictionaries is called.\<close>

definition dict_or_empty :: "json \<Rightarrow> jdict res" where
  "dict_or_empty v =
     (if \<not> truthy v then Inr []
      else case v of JObj d \<Rightarrow> Inr d | _ \<Rightarrow> Inl AttributeError)"

text \<open>\<open>str(v)\<close>: a string is itself, any other value is written as \<open>repr\<close> writes it.\<close>

fun py_str :: "ctx \<Rightarrow> json \<Rightarrow> ustr" where
  "py_str cx (JStr s) = s"
| "py_str cx v = (case utf8_decode (cx_repr cx v) of None \<Rightarrow> [] | Some t \<Rightarrow> t)"

text \<open>
  \<open>sorted(s)\<close> of a set of hashable values: strings compare with strings and numbers with numbers, and
  any other pair raises. The order itself only reaches the text of a message.
\<close>

definition sort_check :: "json list \<Rightarrow> unit res" where
  "sort_check xs =
     (if length xs \<le> 1 \<or> list_all is_str xs \<or> list_all (\<lambda>x. num_of x \<noteq> None) xs
      then Inr () else Inl TypeError)"

lemma sort_check_strs [simp]: "list_all is_str xs \<Longrightarrow> sort_check xs = Inr ()"
  by (simp add: sort_check_def)

lemma dict_or_empty_JNull [simp]: "dict_or_empty JNull = Inr []"
  by (simp add: dict_or_empty_def)

lemma dict_or_empty_JObj [simp]: "dict_or_empty (JObj d) = Inr d"
  by (simp add: dict_or_empty_def)

lemma iter_or_empty_JNull [simp]: "iter_or_empty JNull = Inr []"
  by (simp add: iter_or_empty_def)

lemma iter_or_empty_JArr [simp]: "iter_or_empty (JArr xs) = Inr xs"
  by (simp add: iter_or_empty_def)

section \<open>Reading JSON\<close>

text \<open>
  \<open>float(s)\<close> of a JSON number: the double nearest to \<open>c * 10 ^ e\<close>, ties to the even significand,
  with gradual underflow and overflow to infinity.
\<close>

fun bit_len :: "nat \<Rightarrow> nat" where
  "bit_len n = (if n = 0 then 0 else Suc (bit_len (n div 2)))"

declare bit_len.simps [simp del]

definition scaled :: "nat \<Rightarrow> nat \<Rightarrow> int \<Rightarrow> nat \<times> nat" where
  "scaled p q k = (if 0 \<le> k then (p, q * 2 ^ nat k) else (p * 2 ^ nat (- k), q))"

definition floor_log2 :: "nat \<Rightarrow> nat \<Rightarrow> int" where
  "floor_log2 p q =
     (let l = int (bit_len p) - int (bit_len q); (a, b) = scaled p q l
      in if b \<le> a then l else l - 1)"

definition round_half_even :: "nat \<Rightarrow> nat \<Rightarrow> nat" where
  "round_half_even a b =
     (let m = a div b; r = 2 * (a mod b)
      in if b < r \<or> (r = b \<and> odd m) then m + 1 else m)"

definition nearest_double :: "nat \<Rightarrow> nat \<Rightarrow> pyfloat" where
  "nearest_double p q =
     (if p = 0 then Fin 0 0
      else
        (let k = max (-1074) (floor_log2 p q - 52);
             (a, b) = scaled p q k;
             m = round_half_even a b
         in if 2 ^ 53 \<le> m \<and> 971 \<le> k \<or> 971 < k then PInf else Fin (int m) k))"

fun negate_float :: "pyfloat \<Rightarrow> pyfloat" where
  "negate_float (Fin m e) = Fin (- m) e"
| "negate_float PInf = NInf"
| "negate_float NInf = PInf"
| "negate_float NaN = NaN"

definition float_of_number :: "number \<Rightarrow> pyfloat" where
  "float_of_number n =
     (let c = dec_coeff n; e = dec_exp n;
          f = (if 0 \<le> e then nearest_double (c * 10 ^ nat e) 1
               else nearest_double c (10 ^ nat (- e)))
      in if num_neg n then negate_float f else f)"

text \<open>A repeated member keeps its first place and its last value.\<close>

definition plain_hooks :: hooks where
  "plain_hooks =
     \<lparr>pairs_hook = (\<lambda>ps. Inr (JObj (foldl (\<lambda>d (k, v). dset d k v) [] ps))),
      float_hook = (\<lambda>n. Inr (JFloat (float_of_number n)))\<rparr>"

definition json_loads :: "ustr \<Rightarrow> json res" where
  "json_loads s = loads plain_hooks s"

section \<open>Lossy decoding and lines\<close>

text \<open>
  \<open>bytes.decode("utf-8", "replace")\<close>: where no code point starts, one replacement character stands for
  the longest prefix that a well-formed sequence could begin with, and for one byte at least.
\<close>

definition second_ok :: "nat \<Rightarrow> nat \<Rightarrow> bool" where
  "second_ok b0 b1 \<longleftrightarrow>
     (if b0 = 224 then 160 \<le> b1 \<and> b1 < 192
      else if b0 = 237 then 128 \<le> b1 \<and> b1 < 160
      else if b0 = 240 then 144 \<le> b1 \<and> b1 < 192
      else if b0 = 244 then 128 \<le> b1 \<and> b1 < 144
      else utf8_cont b1)"

definition bad_span :: "bytes \<Rightarrow> nat" where
  "bad_span bs =
     (case bs of
        b0 # b1 # r \<Rightarrow>
          if b0 < 224 \<or> 245 \<le> b0 \<or> \<not> second_ok b0 b1 then 1
          else (case r of
                  [] \<Rightarrow> 2
                | b2 # _ \<Rightarrow> if b0 < 240 \<or> \<not> utf8_cont b2 then 2 else 3)
      | _ \<Rightarrow> 1)"

lemma bad_span_pos [simp]: "0 < bad_span bs"
  by (auto simp: bad_span_def split: list.split)

function utf8_replace :: "bytes \<Rightarrow> ustr" where
  "utf8_replace bs =
     (if bs = [] then []
      else (case utf8_head bs of
              None \<Rightarrow> 65533 # utf8_replace (drop (bad_span bs) bs)
            | Some (c, n) \<Rightarrow> c # utf8_replace (drop n bs)))"
  by pat_completeness auto
termination
  by (relation "measure length") (auto dest: utf8_head_span intro: diff_less)

declare utf8_replace.simps [simp del]

lemma utf8_replace_valid: "utf8_decode bs = Some s \<Longrightarrow> utf8_replace bs = s"
proof (induction bs arbitrary: s rule: utf8_decode.induct)
  case (1 bs)
  show ?case
  proof (cases "bs = []")
    case True
    with 1 show ?thesis by (simp add: utf8_replace.simps)
  next
    case False
    with 1 show ?thesis
      by (subst utf8_replace.simps, subst (asm) (2) utf8_decode.simps)
         (auto split: option.splits)
  qed
qed

definition is_line_break :: "nat \<Rightarrow> bool" where
  "is_line_break c \<longleftrightarrow> c \<in> {10, 11, 12, 13, 28, 29, 30, 133, 8232, 8233}"

function splitlines :: "ustr \<Rightarrow> ustr list" where
  "splitlines s =
     (if s = [] then []
      else takeWhile (\<lambda>c. \<not> is_line_break c) s #
        (case dropWhile (\<lambda>c. \<not> is_line_break c) s of
           [] \<Rightarrow> []
         | c # r \<Rightarrow> splitlines (if c = 13 \<and> take 1 r = [10] then tl r else r)))"
  by pat_completeness auto
termination
proof (relation "measure length")
  fix s :: ustr and c r
  assume "dropWhile (\<lambda>c. \<not> is_line_break c) s = c # r"
  then have "length (c # r) \<le> length s" by (metis length_dropWhile_le)
  then show "((if c = 13 \<and> take 1 r = [10] then tl r else r), s) \<in> measure length"
    by (auto simp: less_Suc_eq_le intro: le_less_trans [OF diff_le_self])
qed simp

declare splitlines.simps [simp del]

text \<open>\<open>str.isspace\<close>, which is what \<open>strip\<close> removes.\<close>

definition is_space :: "nat \<Rightarrow> bool" where
  "is_space c \<longleftrightarrow>
     9 \<le> c \<and> c \<le> 13 \<or> 28 \<le> c \<and> c \<le> 32 \<or> 8192 \<le> c \<and> c \<le> 8202 \<or>
     c \<in> {133, 160, 5760, 8232, 8233, 8239, 8287, 12288}"

definition blank :: "ustr \<Rightarrow> bool" where
  "blank s \<longleftrightarrow> list_all is_space s"

section \<open>Paths\<close>

definition has_slash :: "ustr \<Rightarrow> bool" where
  "has_slash s \<longleftrightarrow> 47 \<in> set s"

text \<open>\<open>s.split("/")\<close>, \<open>s.split("/", 1)[0]\<close> and \<open>s.split(".", 1)[0]\<close>.\<close>

fun split_on :: "nat \<Rightarrow> ustr \<Rightarrow> ustr list" where
  "split_on x [] = [[]]"
| "split_on x (c # s) =
     (if c = x then [] # split_on x s
      else (case split_on x s of [] \<Rightarrow> [[c]] | t # ts \<Rightarrow> (c # t) # ts))"

definition before :: "nat \<Rightarrow> ustr \<Rightarrow> ustr" where
  "before x s = takeWhile (\<lambda>c. c \<noteq> x) s"

definition basename :: "ustr \<Rightarrow> ustr" where
  "basename p = last (split_on 47 p)"

text \<open>\<open>os.path.splitext(name)[0]\<close> of a name without a slash: leading dots start no extension.\<close>

definition stem :: "ustr \<Rightarrow> ustr" where
  "stem name =
     (let parts = split_on 46 name; root = join_with [46] (butlast parts)
      in if length parts \<le> 1 \<or> list_all (\<lambda>c. c = 46) root then name else root)"

definition norm_step :: "bool \<Rightarrow> ustr list \<Rightarrow> ustr \<Rightarrow> ustr list" where
  "norm_step absolute comps c =
     (if c = [] \<or> c = [46] then comps
      else if c \<noteq> [46, 46] \<or> (\<not> absolute \<and> comps = []) \<or> (comps \<noteq> [] \<and> last comps = [46, 46])
      then comps @ [c]
      else butlast comps)"

definition leading_slashes :: "ustr \<Rightarrow> ustr" where
  "leading_slashes p =
     (if \<not> starts [47] p then []
      else if starts [47, 47] p \<and> \<not> starts [47, 47, 47] p then [47, 47] else [47])"

definition normpath :: "ustr \<Rightarrow> ustr" where
  "normpath p =
     (let lead = leading_slashes p;
          path = lead @ join_with [47] (foldl (norm_step (lead \<noteq> [])) [] (split_on 47 p))
      in if path = [] then [46] else path)"

lemma split_on_ne [simp]: "split_on x s \<noteq> []"
  by (induction s) (auto split: list.splits)

end
