(* ===== verification/FaultScan.thy ===== *)
theory FaultScan
  imports Records StdLib
begin

text \<open>
  The reason codes with the stage each belongs to, and the single-fault scan of the conformance runner
  (\<open>_CODE_REGISTRY\<close>, \<open>second_fault_absence\<close> of \<open>packaging/run_vectors.py\<close>): a vector that is refused on
  purpose must carry no fault beside the expected one. The scan recomputes the derived commitments of
  the statement independently of the verifier, except those whose fault is expected.
\<close>

section \<open>The registry of reason codes\<close>

text \<open>The columns of a report row, \<open>GATE_NAMES\<close>.\<close>

datatype column = Gate0_Col | Gate1_Col | Recompute_Col | Tier_Col | Self_Check_Col

definition CODE_REGISTRY :: "(string \<times> column \<times> string list) list" where
  "CODE_REGISTRY =
     [(''statement-malformed'', Gate0_Col, []),
      (''statement-type-unsupported'', Gate0_Col, []),
      (''predicate-type-unsupported'', Gate0_Col, []),
      (''member-spelling'', Gate0_Col, []),
      (''result-vocabulary'', Gate0_Col, []),
      (''issued-at-missing'', Gate0_Col, []),
      (''issued-at-malformed'', Gate0_Col, []),
      (''environment-incomplete'', Gate0_Col, [''corpus'', ''binding'']),
      (''posture-vocabulary'', Gate0_Col, [''binding'']),
      (''vocabulary-missing'', Gate0_Col, [''vocab'']),
      (''vocabulary-not-canonical'', Gate0_Col, [''vocab'']),
      (''vocabulary-caught-not-subset'', Gate0_Col, [''vocab'']),
      (''vocabulary-digest-mismatch'', Gate0_Col, [''vocab'']),
      (''corpus-digest-mismatch'', Gate0_Col, [''corpus'']),
      (''manifest-duplicate-attack'', Gate0_Col, [''corpus'']),
      (''corpus-manifest-no-attacks'', Gate0_Col, []),
      (''coverage-missing'', Gate0_Col, []),
      (''coverage-incomplete'', Gate0_Col, []),
      (''row-attack-unknown'', Gate0_Col, []),
      (''malformed-missing-actual-layer'', Gate0_Col, []),
      (''clean-row-layer-not-none'', Gate0_Col, []),
      (''subject-cardinality'', Gate0_Col, [''binding'']),
      (''subject-sha256-missing'', Gate0_Col, [''binding'']),
      (''run-entropy-missing'', Gate0_Col, [''binding'']),
      (''digest-not-canonical'', Gate0_Col, [''binding'']),
      (''fail-closed-substrate-row'', Gate0_Col, []),
      (''record-signatures-empty'', Gate0_Col, []),
      (''record-undecodable'', Gate0_Col, [''root'']),
      (''batch-root-missing'', Gate0_Col, [''root'', ''binding'']),
      (''batch-root-mismatch'', Gate0_Col, [''root'']),
      (''batch-root-orphaned'', Gate0_Col, [''root'']),
      (''duplicate-record'', Gate0_Col, [''root'']),
      (''records-absent'', Gate1_Col, [''root'', ''binding'']),
      (''refs-empty'', Gate1_Col, [''root'', ''binding'']),
      (''ref-malformed'', Gate1_Col, [''root'', ''binding'']),
      (''ref-out-of-range'', Gate1_Col, [''root'', ''binding'']),
      (''payload-not-canonical'', Gate1_Col, [''binding'']),
      (''payload-not-ijson'', Gate1_Col, [''binding'']),
      (''payload-media-type'', Gate1_Col, [''binding'']),
      (''payload-missing-reserved'', Gate1_Col, [''binding'']),
      (''run-binding-mismatch'', Gate1_Col, [''binding'']),
      (''method-cap-exceeded'', Gate1_Col, []),
      (''caught-row-uncovered'', Gate1_Col, []),
      (''reconstructed-row-uncovered'', Gate1_Col, []),
      (''clean-row-uncovered'', Gate1_Col, []),
      (''arming-covers-nothing'', Gate1_Col, []),
      (''sealed-covers-nothing'', Gate1_Col, []),
      (''examination-covers-nothing'', Gate1_Col, []),
      (''record-kind-unknown-covers-nothing'', Gate1_Col, []),
      (''moat-drop-covers-nothing'', Gate1_Col, []),
      (''uncommitted-observation-covers-nothing'', Gate1_Col, []),
      (''result-recompute-mismatch'', Recompute_Col, [])]"
text \<open>\<open>CODE_STAGE.get(code, "gate0")\<close>; every key is a string.\<close>

definition code_stage :: "json \<Rightarrow> column" where
  "code_stage v =
     (case map_of (map (\<lambda>(code, stage, _). (js code, stage)) CODE_REGISTRY) v of
        None \<Rightarrow> Gate0_Col
      | Some stage \<Rightarrow> stage)"

definition fault_family :: "string \<Rightarrow> string list" where
  "fault_family name = map fst (filter (\<lambda>(_, _, fams). name \<in> set fams) CODE_REGISTRY)"

text \<open>\<open>expected_codes & family\<close> is not empty.\<close>

definition expects :: "json list \<Rightarrow> string \<Rightarrow> bool" where
  "expects codes name \<longleftrightarrow> list_ex (\<lambda>c. js c \<in> set codes) (fault_family name)"

section \<open>The scan\<close>

type_synonym faults = "string list"

definition read_views :: "json list \<Rightarrow> view list res" where
  "read_views records = mapr (\<lambda>(i, rec). record_view i rec) (enumerate 0 records)"

definition sfa_root_recompute :: "ctx \<Rightarrow> json list \<Rightarrow> ustr \<Rightarrow> faults \<Rightarrow> faults res" where
  "sfa_root_recompute cx records root fs =
     bindr (read_views records) (\<lambda>views.
       if list_all (\<lambda>v. rv_pae v \<noteq> None) views then
         bindr (merkle_root_hex (cx_sha256 cx) (pae_leaves views)) (\<lambda>r.
           Inr (if r \<noteq> root then fs @ [''batchRoot does not recompute''] else fs))
       else Inr (fs @ [''undecodable record payload'']))"

definition sfa_batch_root :: "ctx \<Rightarrow> jdict \<Rightarrow> json list \<Rightarrow> faults \<Rightarrow> faults res" where
  "sfa_batch_root cx pred expected fs =
     (case (dget pred (u ''observationRecords''), dget pred (u ''batchRoot'')) of
        (JArr records, JStr root) \<Rightarrow>
          if \<not> expects expected ''root'' \<and> records \<noteq> []
          then sfa_root_recompute cx records root fs else Inr fs
      | _ \<Rightarrow> Inr fs)"

definition sfa_vocabulary :: "ctx \<Rightarrow> jdict \<Rightarrow> json list \<Rightarrow> faults \<Rightarrow> faults res" where
  "sfa_vocabulary cx env expected fs =
     (case dget env (u ''observationVocabulary'') of
        JObj vocab \<Rightarrow>
          (case (dget vocab (u ''labels''), dget vocab (u ''caught'')) of
             (JArr labels, JArr caught) \<Rightarrow>
               if expects expected ''vocab'' then Inr fs
               else exceptr (exceptr
                 (bindr (jcs_dumps (JObj [(u ''caught'', JArr caught), (u ''labels'', JArr labels)])) (\<lambda>b.
                    Inr (if digest_of (JObj vocab) \<noteq> JStr (sha256_hex cx b)
                         then fs @ [''vocabulary digest mismatch''] else fs)))
                 (\<lambda>e. e = JcsError) (Inr (fs @ [''vocabulary not canonicalizable''])))
                 (\<lambda>e. e = UnicodeEncodeError) (Inr fs)
           | _ \<Rightarrow> Inr fs)
      | _ \<Rightarrow> Inr fs)"

definition sfa_corpus :: "ctx \<Rightarrow> jdict \<Rightarrow> json list \<Rightarrow> faults \<Rightarrow> faults res" where
  "sfa_corpus cx env expected fs =
     (case dget env (u ''corpus'') of
        JObj corpus \<Rightarrow>
          (case dget corpus (u ''manifest'') of
             JObj manifest \<Rightarrow>
               if expects expected ''corpus'' then Inr fs
               else exceptr
                 (bindr (jcs_dumps (JObj manifest)) (\<lambda>b.
                    Inr (if digest_of (JObj corpus) \<noteq> JStr (sha256_hex cx b)
                         then fs @ [''corpus digest mismatch''] else fs)))
                 (\<lambda>e. e = JcsError) (Inr (fs @ [''corpus manifest not canonicalizable'']))
           | _ \<Rightarrow> Inr fs)
      | _ \<Rightarrow> Inr fs)"

text \<open>Unlike \<open>derive_binding\<close>, this derivation does not ask whether the values are strings.\<close>

definition sfa_derived_binding :: "ctx \<Rightarrow> jdict \<Rightarrow> jdict \<Rightarrow> ustr option res" where
  "sfa_derived_binding cx stmt env =
     exceptr
       (bindr (item (JObj stmt) (u ''subject'')) (\<lambda>subject.
        bindr (item0 subject) (\<lambda>subject0.
        bindr (item subject0 (u ''digest'')) (\<lambda>digest.
        bindr (item digest (u ''sha256'')) (\<lambda>sha.
        bindr (binding_preimage cx env sha) (\<lambda>vals.
          case vals of
            None \<Rightarrow> Inr None
          | Some d \<Rightarrow> bindr (jcs_dumps (JObj d)) (\<lambda>b. Inr (Some (sha256_hex cx b)))))))))
       (\<lambda>e. is_lookup_error e \<or> e = JcsError) (Inr None)"

text \<open>A reference that names a record whose binding is another one; the loop over a row's references
  stops at its first.\<close>

definition ref_misbound :: "view list \<Rightarrow> ustr \<Rightarrow> json \<Rightarrow> bool" where
  "ref_misbound views derived r =
     (case r of
        JInt i \<Rightarrow>
          0 \<le> i \<and> i < int (length views) \<and>
          (case rv_payload (views ! nat i) of
             None \<Rightarrow> False
           | Some p \<Rightarrow> dget p (u ''aeeRunBinding'') \<noteq> JStr derived)
      | _ \<Rightarrow> False)"

definition sfa_binding_scan :: "jdict list \<Rightarrow> view list \<Rightarrow> ustr \<Rightarrow> faults \<Rightarrow> faults res" where
  "sfa_binding_scan rows views derived fs =
     loopr (\<lambda>r fs. bindr (iter_or_empty (dget r (u ''observationRefs''))) (\<lambda>refs.
              Inr (if list_ex (ref_misbound views derived) refs
                   then fs @ [''record binding is not the derived binding''] else fs))) rows fs"

definition sfa_binding :: "ctx \<Rightarrow> jdict \<Rightarrow> jdict \<Rightarrow> jdict \<Rightarrow> json list \<Rightarrow> faults \<Rightarrow> faults res" where
  "sfa_binding cx stmt pred env expected fs =
     (let rows = map as_dict (filter is_dict (as_list (dget pred (u ''attackResults''))))
      in if expects expected ''binding'' then Inr fs
         else if \<not> list_ex (\<lambda>r. dget r (u ''basis'') = js ''substrate'') rows then Inr fs
         else bindr (sfa_derived_binding cx stmt env) (\<lambda>d.
           case (d, dget pred (u ''observationRecords'')) of
             (Some derived, JArr records) \<Rightarrow>
               bindr (read_views records) (\<lambda>views. sfa_binding_scan rows views derived fs)
           | _ \<Rightarrow> Inr fs))"

definition second_fault_absence :: "ctx \<Rightarrow> json \<Rightarrow> json list \<Rightarrow> faults res" where
  "second_fault_absence cx stmt expected =
     (case stmt of
        JObj s \<Rightarrow>
          (case dget s (u ''predicate'') of
             JObj pred \<Rightarrow>
               (let env = as_dict (dget pred (u ''observationEnvironment''))
                in bindr (sfa_batch_root cx pred expected []) (\<lambda>f1.
                   bindr (sfa_vocabulary cx env expected f1) (\<lambda>f2.
                   bindr (sfa_corpus cx env expected f2) (\<lambda>f3.
                     sfa_binding cx s pred env expected f3))))
           | _ \<Rightarrow> Inr [])
      | _ \<Rightarrow> Inr [])"

end
