(* ===== verification/Rail.thy ===== *)
theory Rail
  imports Verifier FaultScan
begin

text \<open>
  What a rail answered about one vector (\<open>parse_external\<close>, \<open>external_record\<close>, \<open>observe_external\<close>,
  \<open>_run_observe\<close> of \<open>packaging/run_vectors.py\<close>): the report of an external verifier read from its exit
  status and its last output line under both key policies, and the reference verifier's own outcomes in
  the same shape. Every fault of an invocation is carried as a value.
\<close>

section \<open>The contract of a report\<close>

definition REPORT_MEMBERS :: "string list" where
  "REPORT_MEMBERS = [''codes'', ''result'', ''tiers'', ''primaryCode'']"

datatype member_type = Str_Type | List_Type

definition MEMBER_TYPES :: "(string \<times> member_type) list" where
  "MEMBER_TYPES =
     [(''verdict'', Str_Type), (''codes'', List_Type), (''result'', Str_Type), (''tiers'', List_Type),
      (''primaryCode'', Str_Type)]"

text \<open>One constructor per message; the arguments are the values its text formats.\<close>

datatype rail_fault =
    Verifier_Timeout
  | Verifier_Unrunnable
  | Output_Absent int
  | Malformed_Json
  | Not_An_Object json
  | Member_Must_Be string member_type json
  | Member_Must_Hold_Strings string json
  | Verdict_Contradicts_Exit json string bool

definition absent_members :: "jdict option \<Rightarrow> string list" where
  "absent_members parsed =
     (case parsed of
        None \<Rightarrow> REPORT_MEMBERS
      | Some d \<Rightarrow> filter (\<lambda>m. dget d (u m) = JNull) REPORT_MEMBERS)"

fun has_type :: "json \<Rightarrow> member_type \<Rightarrow> bool" where
  "has_type v Str_Type = is_str v"
| "has_type v List_Type = is_list v"

definition member_fault :: "jdict \<Rightarrow> string \<times> member_type \<Rightarrow> rail_fault list" where
  "member_fault parsed mt =
     (case mt of (m, want) \<Rightarrow>
       (let v = dget parsed (u m)
        in if v = JNull then []
           else if \<not> has_type v want then [Member_Must_Be m want v]
           else if is_list v \<and> \<not> list_all is_str (as_list v) then [Member_Must_Hold_Strings m v]
           else []))"

definition member_type_errors :: "jdict \<Rightarrow> rail_fault list" where
  "member_type_errors parsed = concat (map (member_fault parsed) MEMBER_TYPES)"

section \<open>One invocation\<close>

record report =
  rp_verdict :: json
  rp_codes :: json
  rp_result :: json
  rp_tiers :: json
  rp_primary :: json
  rp_absent :: "string list"
  rp_errors :: "rail_fault list"

definition external_failure :: "rail_fault list \<Rightarrow> report" where
  "external_failure errors =
     \<lparr>rp_verdict = js ''error'', rp_codes = JArr [], rp_result = JNull, rp_tiers = JNull,
      rp_primary = JNull, rp_absent = REPORT_MEMBERS, rp_errors = errors\<rparr>"

definition external_record :: "jdict \<Rightarrow> string \<Rightarrow> bool \<Rightarrow> report" where
  "external_record parsed exit_verdict with_policy =
     (let reported = dget parsed (u ''verdict'')
      in if reported \<noteq> JNull \<and> reported \<noteq> js exit_verdict \<and> \<not> with_policy then
           external_failure [Verdict_Contradicts_Exit reported exit_verdict
                               (dget parsed (u ''mode'') = js ''admission'')]
         else
           \<lparr>rp_verdict = (if reported \<noteq> JNull then reported else js exit_verdict),
            rp_codes = (let v = dget parsed (u ''codes'') in if truthy v then v else JArr []),
            rp_result = dget parsed (u ''result''), rp_tiers = dget parsed (u ''tiers''),
            rp_primary = dget parsed (u ''primaryCode''), rp_absent = absent_members (Some parsed),
            rp_errors = []\<rparr>)"

definition report_lines :: "bytes \<Rightarrow> ustr list" where
  "report_lines stdout = filter (\<lambda>ln. \<not> blank ln) (splitlines (utf8_replace stdout))"

definition parse_external :: "int \<Rightarrow> bytes \<Rightarrow> bool \<Rightarrow> report res" where
  "parse_external returncode stdout with_policy =
     (let exit_verdict = (if returncode = 0 then ''valid'' else ''invalid'');
          lines = report_lines stdout
      in if lines = [] then Inr (external_failure [Output_Absent returncode])
         else (case json_loads (last lines) of
                 Inl e \<Rightarrow> if is_value_error e then Inr (external_failure [Malformed_Json]) else Inl e
               | Inr (JObj parsed) \<Rightarrow>
                   Inr (let errs = member_type_errors parsed
                        in if errs \<noteq> [] then external_failure errs
                           else external_record parsed exit_verdict with_policy)
               | Inr v \<Rightarrow> Inr (external_failure [Not_An_Object v])))"

text \<open>What \<open>subprocess.run\<close> comes back with.\<close>

datatype process = Timed_Out | Unrunnable | Exited int bytes

definition run_external :: "process \<Rightarrow> bool \<Rightarrow> (report \<times> bool) res" where
  "run_external proc with_policy =
     (case proc of
        Timed_Out \<Rightarrow> Inr (external_failure [Verifier_Timeout], False)
      | Unrunnable \<Rightarrow> Inr (external_failure [Verifier_Unrunnable], False)
      | Exited returncode stdout \<Rightarrow>
          bindr (parse_external returncode stdout with_policy) (\<lambda>r. Inr (r, True)))"

section \<open>One vector under both key policies\<close>

text \<open>The merged record; the errors carry the label of the pass that made them.\<close>

record observed =
  ob_verdict :: json
  ob_without :: json
  ob_codes :: json
  ob_primary :: json
  ob_result :: json
  ob_tiers :: json
  ob_tiers_without :: json
  ob_result_without :: json
  ob_absent :: "string list"
  ob_errors :: "(string \<times> rail_fault) list"
  ob_ran :: "bool option"

definition WITH_KEY_MEMBER :: "(string \<times> string) list" where
  "WITH_KEY_MEMBER =
     [(''codes'', ''codes''), (''result'', ''result''), (''tiers'', ''tiers_with_key''),
      (''primaryCode'', ''primaryCode'')]"

definition WITHOUT_KEY_MEMBER :: "(string \<times> string) list" where
  "WITHOUT_KEY_MEMBER = [(''tiers'', ''tiers_without_key''), (''result'', ''result_without_key'')]"

definition renamed :: "(string \<times> string) list \<Rightarrow> string list \<Rightarrow> string list" where
  "renamed table ms = concat (map (\<lambda>m. case map_of table m of None \<Rightarrow> [] | Some n \<Rightarrow> [n]) ms)"

definition observe_external :: "process \<Rightarrow> process \<Rightarrow> observed res" where
  "observe_external keyed keyless =
     bindr (run_external keyed True) (\<lambda>(w, ran1).
     bindr (run_external keyless False) (\<lambda>(n, ran2).
       Inr \<lparr>ob_verdict = rp_verdict w, ob_without = rp_verdict n, ob_codes = rp_codes w,
            ob_primary = rp_primary w, ob_result = rp_result w, ob_tiers = rp_tiers w,
            ob_tiers_without = rp_tiers n, ob_result_without = rp_result n,
            ob_absent = sort_key u (renamed WITH_KEY_MEMBER (rp_absent w) @ renamed WITHOUT_KEY_MEMBER (rp_absent n)),
            ob_errors = map (Pair ''pinned-key'') (rp_errors w) @ map (Pair ''no-key'') (rp_errors n),
            ob_ran = Some (ran1 \<and> ran2)\<rparr>))"

section \<open>The reference rail\<close>

definition verdict_of :: "outcome \<Rightarrow> json" where
  "verdict_of o1 = (if verdict_valid o1 then js ''valid'' else js ''invalid'')"

definition tiers_value :: "tier list option \<Rightarrow> json" where
  "tiers_value ts = (case ts of None \<Rightarrow> JNull | Some xs \<Rightarrow> JArr (map (\<lambda>t. js (tier_name t)) xs))"

definition reference_absent :: "outcome \<Rightarrow> outcome \<Rightarrow> string list" where
  "reference_absent o_with o_without =
     (if out_codes o_with = [] then [''codes'', ''primaryCode''] else []) @
     (if out_result o_with = JNull then [''result''] else []) @
     (if out_with_key o_with = None then [''tiers_with_key''] else []) @
     (if out_without_key o_without = None then [''tiers_without_key''] else []) @
     (if out_result o_without = JNull then [''result_without_key''] else [])"

definition reference_observed :: "outcome \<Rightarrow> outcome \<Rightarrow> observed" where
  "reference_observed o_with o_without =
     \<lparr>ob_verdict = verdict_of o_with, ob_without = verdict_of o_without,
      ob_codes = JArr (map js (out_codes o_with)),
      ob_primary = (case out_codes o_with of [] \<Rightarrow> JNull | c # _ \<Rightarrow> js c),
      ob_result = out_result o_with, ob_tiers = tiers_value (out_with_key o_with),
      ob_tiers_without = tiers_value (out_without_key o_without), ob_result_without = out_result o_without,
      ob_absent = sort_key u (reference_absent o_with o_without), ob_errors = [], ob_ran = None\<rparr>"

text \<open>The two runs of an external verifier, or the two reference verifiers: one with the pinned test
  key, one without any.\<close>

definition run_observe ::
  "ctx \<Rightarrow> (process \<times> process) option \<Rightarrow> json \<Rightarrow> bytes \<Rightarrow> observed res" where
  "run_observe cx external stmt raw =
     (case external of
        Some (keyed, keyless) \<Rightarrow> observe_external keyed keyless
      | None \<Rightarrow>
          bindr (verify cx stmt (Some raw)) (\<lambda>o_with.
          bindr (verify (cx\<lparr>cx_pins := []\<rparr>) stmt (Some raw)) (\<lambda>o_without.
            Inr (reference_observed o_with o_without))))"

end
