(* ===== verification/Manifest.thy ===== *)
theory Manifest
  imports StdLib
begin

text \<open>
  The manifest of a suite as the conformance runner reads it (\<open>manifest_index\<close>, \<open>flat_layout\<close>,
  \<open>manifest_kinds\<close>, \<open>discover_vectors\<close>, \<open>generic_contract_misfit\<close> of \<open>packaging/run_vectors.py\<close>): the
  rows by identifier, the one directory they live in, their kinds, and the files to replay. \<open>JNull\<close>
  stands for an absent manifest. The lemmas say that grouping by kind loses no row and that an accepted
  layout is flat.
\<close>

section \<open>Grouping\<close>

text \<open>\<open>groups.setdefault(k, []).append(x)\<close>.\<close>

fun add_to_group :: "'k \<Rightarrow> 'a \<Rightarrow> ('k \<times> 'a list) list \<Rightarrow> ('k \<times> 'a list) list" where
  "add_to_group k x [] = [(k, [x])]"
| "add_to_group k x ((k', xs) # gs) =
     (if k' = k then (k', xs @ [x]) # gs else (k', xs) # add_to_group k x gs)"

definition group_by :: "('a \<Rightarrow> 'k) \<Rightarrow> 'a list \<Rightarrow> ('k \<times> 'a list) list" where
  "group_by f xs = fold (\<lambda>x. add_to_group (f x) x) xs []"

lemma map_of_add_to_group:
  "map_of (add_to_group k x gs) k' =
     (if k' = k then Some ((case map_of gs k of None \<Rightarrow> [] | Some xs \<Rightarrow> xs) @ [x]) else map_of gs k')"
  by (induction k x gs rule: add_to_group.induct) auto

lemma keys_add_to_group: "fst ` set (add_to_group k x gs) = insert k (fst ` set gs)"
  by (induction k x gs rule: add_to_group.induct) auto

lemma distinct_add_to_group:
  "distinct (map fst gs) \<Longrightarrow> distinct (map fst (add_to_group k x gs))"
  by (induction k x gs rule: add_to_group.induct) (auto simp flip: set_map simp: keys_add_to_group [simplified])

lemma mset_add_to_group:
  "mset (concat (map snd (add_to_group k x gs))) = add_mset x (mset (concat (map snd gs)))"
  by (induction k x gs rule: add_to_group.induct) auto

lemma mset_groups:
  "mset (concat (map snd (fold (\<lambda>x. add_to_group (f x) x) xs gs))) = mset xs + mset (concat (map snd gs))"
  by (induction xs arbitrary: gs) (simp_all add: mset_add_to_group)

lemma mset_group_by: "mset (concat (map snd (group_by f xs))) = mset xs"
  by (simp add: group_by_def mset_groups)

lemma map_of_groups:
  "map_of (fold (\<lambda>x. add_to_group (f x) x) xs gs) k =
     (let ys = (case map_of gs k of None \<Rightarrow> [] | Some zs \<Rightarrow> zs) @ filter (\<lambda>x. f x = k) xs
      in if map_of gs k = None \<and> ys = [] then None else Some ys)"
  by (induction xs arbitrary: gs) (auto simp: map_of_add_to_group Let_def split: option.splits)

lemma map_of_group_by:
  "map_of (group_by f xs) k = (if filter (\<lambda>x. f x = k) xs = [] then None else Some (filter (\<lambda>x. f x = k) xs))"
  by (simp add: group_by_def map_of_groups Let_def)

lemma distinct_groups:
  "distinct (map fst gs) \<Longrightarrow> distinct (map fst (fold (\<lambda>x. add_to_group (f x) x) xs gs))"
  by (induction xs arbitrary: gs) (auto simp: distinct_add_to_group)

lemma distinct_group_by: "distinct (map fst (group_by f xs))"
  by (simp add: group_by_def distinct_groups)

lemma group_by_set: "(k, ys) \<in> set (group_by f xs) \<longleftrightarrow> ys \<noteq> [] \<and> ys = filter (\<lambda>x. f x = k) xs"
  unfolding map_of_eq_Some_iff [OF distinct_group_by, symmetric] map_of_group_by by (auto split: if_split)

section \<open>The rows\<close>

definition REPLAYED_KINDS :: "string list" where
  "REPLAYED_KINDS = [''accept'', ''indeterminate'', ''reject'']"

definition replayed :: "ustr \<Rightarrow> bool" where
  "replayed kind \<longleftrightarrow> kind \<in> u ` set REPLAYED_KINDS"

text \<open>\<open>manifest.get("vectors") or manifest.get("index") or []\<close>.\<close>

definition manifest_vectors :: "jdict \<Rightarrow> json" where
  "manifest_vectors m =
     (let v = dget m (u ''vectors''); i = dget m (u ''index'')
      in if truthy v then v else if truthy i then i else JArr [])"

definition index_entry :: "json \<Rightarrow> jdict \<Rightarrow> jdict" where
  "index_entry e idx =
     (case (e, member e ''id'') of (JObj _, JStr vid) \<Rightarrow> dset idx vid e | _ \<Rightarrow> idx)"

fun index_of :: "json \<Rightarrow> jdict" where
  "index_of (JObj d) = fold (\<lambda>(vid, e) idx. if is_dict e then dset idx vid e else idx) d []"
| "index_of (JArr es) = fold index_entry es []"
| "index_of _ = []"

definition manifest_index :: "json \<Rightarrow> jdict res" where
  "manifest_index manifest = bindr (dict_or_empty manifest) (\<lambda>m. Inr (index_of (manifest_vectors m)))"

definition entry_dir :: "json \<Rightarrow> ustr res" where
  "entry_dir entry =
     (case member entry ''file'' of
        JStr rel \<Rightarrow> if has_slash rel then Inr (before 47 rel) else Inl SystemExit
      | _ \<Rightarrow> Inl SystemExit)"

definition flat_layout :: "jdict \<Rightarrow> ustr res" where
  "flat_layout idx =
     bindr (mapr (\<lambda>(_, entry). entry_dir entry) idx) (\<lambda>dirs.
       case remdups dirs of
         [only] \<Rightarrow> if replayed only then Inl SystemExit else Inr only
       | _ \<Rightarrow> Inl SystemExit)"

definition kind_of :: "json \<Rightarrow> ustr" where
  "kind_of entry = (case member entry ''kind'' of JStr k \<Rightarrow> k | _ \<Rightarrow> [])"

definition manifest_kinds :: "jdict \<Rightarrow> (ustr \<times> ustr list) list" where
  "manifest_kinds idx =
     map (\<lambda>(kind, rows). (kind, sort (map fst rows))) (group_by (\<lambda>(_, entry). kind_of entry) idx)"

text \<open>The kind and the file of every row, in the order of the manifest.\<close>

definition row_entry :: "json \<Rightarrow> (ustr \<times> ustr) res" where
  "row_entry entry =
     (case (member entry ''file'', member entry ''kind'') of
        (JStr rel, JStr kind) \<Rightarrow> Inr (kind, rel)
      | _ \<Rightarrow> Inl SystemExit)"

definition discover_vectors :: "ctx \<Rightarrow> json \<Rightarrow> (ustr \<times> ustr) list res" where
  "discover_vectors cx manifest =
     bindr (dict_or_empty manifest) (\<lambda>m.
       if \<not> truthy (manifest_vectors m) then Inl SystemExit
       else bindr (py_iter (manifest_vectors m)) (\<lambda>entries.
         if \<not> list_all is_dict entries then Inl AttributeError
         else bindr (flat_layout (fold (\<lambda>e d. dset d (py_str cx (member e ''id'')) e) entries [])) (\<lambda>_.
           mapr row_entry entries)))"

section \<open>Suites of another contract\<close>

datatype misfit = Misfit_Verdicts "ustr list" | Misfit_Kinds "ustr list" | Misfit_Fileless nat

text \<open>The declared verdict of a row, unless its readings take its place or the contract carries it.\<close>

definition foreign_verdict :: "ctx \<Rightarrow> jdict \<Rightarrow> ustr list res" where
  "foreign_verdict cx e =
     (let expected = dict_or_empty (dget e (u ''expected''))
      in bindr (if dget e (u ''kind'') = js ''indeterminate''
                then bindr expected (\<lambda>x. Inr (truthy (dget x (u ''readings'')))) else Inr False) (\<lambda>readings.
         if readings then Inr []
         else bindr expected (\<lambda>x.
           let v = dget x (u ''verdict'')
           in Inr (if one_of v [''valid'', ''invalid''] then [] else [py_str cx v]))))"

definition names_file :: "jdict \<Rightarrow> bool" where
  "names_file e = (case dget e (u ''file'') of JStr f \<Rightarrow> has_slash f | _ \<Rightarrow> False)"

definition generic_contract_misfit :: "ctx \<Rightarrow> jdict \<Rightarrow> misfit list res" where
  "generic_contract_misfit cx manifest =
     bindr (py_iter (manifest_vectors manifest)) (\<lambda>entries.
       let ds = map as_dict (filter is_dict entries);
           kinds = map (\<lambda>e. py_str cx (dget e (u ''kind'')))
             (filter (\<lambda>e. \<not> one_of (dget e (u ''kind'')) REPLAYED_KINDS) ds);
           fileless = filter (\<lambda>e. \<not> names_file e) ds
       in bindr (mapr (foreign_verdict cx) ds) (\<lambda>vs.
            Inr ((if concat vs = [] then [] else [Misfit_Verdicts (sort (remdups (concat vs)))]) @
                 (if kinds = [] then [] else [Misfit_Kinds (sort (remdups kinds))]) @
                 (if fileless = [] then [] else [Misfit_Fileless (length fileless)]))))"

section \<open>Lemmas\<close>

lemma manifest_kinds_rows: "mset (concat (map snd (manifest_kinds idx))) = mset (map fst idx)"
proof -
  have "mset (concat (map snd (map (\<lambda>(k, rows). (k, sort (map fst rows))) gs))) =
      image_mset fst (mset (concat (map snd gs)))" for gs :: "(ustr \<times> (ustr \<times> json) list) list"
    by (induction gs) auto
  from this [of "group_by (\<lambda>(_, entry). kind_of entry) idx"] show ?thesis
    by (simp add: manifest_kinds_def mset_group_by)
qed

lemma mapr_mem: "mapr f xs = Inr ys \<Longrightarrow> x \<in> set xs \<Longrightarrow> \<exists>y \<in> set ys. f x = Inr y"
  by (induction xs arbitrary: ys) (auto simp: bindr_Inr_iff)

lemma flat_layout_Inr:
  assumes "flat_layout idx = Inr flat"
  shows "\<not> replayed flat \<and> idx \<noteq> [] \<and>
    (\<forall>(vid, e) \<in> set idx. \<exists>rel. member e ''file'' = JStr rel \<and> has_slash rel \<and> before 47 rel = flat)"
proof -
  from assms obtain dirs where m: "mapr (\<lambda>(_, entry). entry_dir entry) idx = Inr dirs"
    and r: "(case remdups dirs of [only] \<Rightarrow> if replayed only then Inl SystemExit else Inr only
      | _ \<Rightarrow> Inl SystemExit) = Inr flat"
    unfolding flat_layout_def bindr_Inr_iff by blast
  from r have d: "remdups dirs = [flat]" "\<not> replayed flat" by (auto split: list.split_asm if_split_asm)
  have "set dirs = {flat}" using d(1) by (metis set_remdups list.set(1,2))
  then have "entry_dir e = Inr flat" if "(vid, e) \<in> set idx" for vid e
    using mapr_mem [OF m that] by simp
  moreover have "idx \<noteq> []" using m d by auto
  moreover have "\<exists>rel. member e ''file'' = JStr rel \<and> has_slash rel \<and> before 47 rel = flat"
    if "entry_dir e = Inr flat" for e
    using that by (cases "member e ''file''") (auto simp: entry_dir_def split: if_splits)
  ultimately show ?thesis using d(2) by blast
qed

end
