(* ===== verification/Evaluate.thy ===== *)
theory Evaluate
  imports Rail Manifest
begin

text \<open>
  The judgement of one vector (\<open>evaluate_vector_detailed\<close> of \<open>packaging/run_vectors.py\<close> and the
  contracts it dispatches to): what the manifest expects of the vector against what the rail answered.
  Normative failures (\<open>reasons\<close>) and the comparison of reason codes (\<open>parity\<close>) are kept apart, and each
  gate has a column.
\<close>

section \<open>Columns and messages\<close>

datatype status = Not_Scored | PASS | FAIL | Unreached

type_synonym gates = "column \<Rightarrow> status"

text \<open>One constructor per message; the arguments are the values its text formats.\<close>

datatype finding =
    Rail_Invocation string rail_fault
  | Verdict_Not_Established json json
  | Verdict_Depends_On_Key json json
  | Verdict_Differs json json
  | Expected_Valid "json list"
  | Result_Differs json json
  | Column_Not_Established string "json list"
  | Column_Differs string json json
  | Invariance_Not_Established
  | Result_Depends_On_Tier json json
  | Expected_Invalid
  | Invalid_Emits_Result
  | No_Expected_Code "json list" "json list"
  | No_Declared_Reading "ustr list" "json list"
  | Second_Fault string
  | Vector_Unreadable
  | Not_In_Manifest
  | Incoherent_Family ustr "(ustr \<times> json) list" "ustr list"

text \<open>The lists the contracts write to.\<close>

record board =
  bd_gates :: gates
  bd_reasons :: "finding list"
  bd_parity :: "finding list"

definition mark :: "column \<Rightarrow> status \<Rightarrow> board \<Rightarrow> board" where
  "mark g s b = b\<lparr>bd_gates := (bd_gates b)(g := s)\<rparr>"

definition blame :: "finding \<Rightarrow> board \<Rightarrow> board" where
  "blame f b = b\<lparr>bd_reasons := bd_reasons b @ [f]\<rparr>"

definition fails :: "column \<Rightarrow> finding \<Rightarrow> board \<Rightarrow> board" where
  "fails g f b = blame f (mark g FAIL b)"

record evaluation =
  ev_ok :: bool
  ev_gates :: gates
  ev_reasons :: "finding list"
  ev_parity :: "finding list"

section \<open>What the manifest expects\<close>

text \<open>\<open>(entry or {}).get("expected") or {}\<close>; an entry is a dictionary or absent.\<close>

definition expected_of :: "json \<Rightarrow> jdict res" where
  "expected_of entry = dict_or_empty (member entry ''expected'')"

definition declared_exclusion :: "jdict \<Rightarrow> ustr option" where
  "declared_exclusion expected =
     (case dget expected (u ''unmeasurableBecause'') of
        JStr s \<Rightarrow> if s = [] then None else Some s
      | _ \<Rightarrow> None)"

text \<open>\<open>{str(v) for v in (expected.get("readings") or {}).values()}\<close>.\<close>

definition predicted_codes :: "ctx \<Rightarrow> jdict \<Rightarrow> ustr list res" where
  "predicted_codes cx expected =
     bindr (dict_or_empty (dget expected (u ''readings''))) (\<lambda>d. Inr (remdups (map (py_str cx \<circ> snd) d)))"

definition admissible_verdicts :: "ctx \<Rightarrow> ustr \<Rightarrow> jdict \<Rightarrow> json \<Rightarrow> json list res" where
  "admissible_verdicts cx kind expected declared =
     (if kind \<noteq> u ''indeterminate'' then bindr (hash_check declared) (\<lambda>_. Inr [declared])
      else bindr (predicted_codes cx expected) (\<lambda>predicted.
        if predicted = [] then bindr (hash_check declared) (\<lambda>_. Inr [declared])
        else Inr ((if u ''valid'' \<in> set predicted then [js ''valid''] else []) @
                  (if list_ex (\<lambda>p. p \<noteq> u ''valid'') predicted then [js ''invalid''] else []))))"

section \<open>Was there an answer\<close>

definition established :: "observed \<Rightarrow> bool" where
  "established obs \<longleftrightarrow> one_of (ob_verdict obs) [''valid'', ''invalid'']"

definition eval_establishment :: "observed \<Rightarrow> json \<Rightarrow> board \<Rightarrow> board" where
  "eval_establishment obs exp_verdict b =
     (let b1 = fold (\<lambda>e. blame (Rail_Invocation (fst e) (snd e))) (ob_errors obs) b;
          b2 = (if \<not> established obs
                then fails Gate0_Col (Verdict_Not_Established exp_verdict (ob_verdict obs)) b1 else b1)
      in if established obs \<and> ob_without obs \<noteq> JNull \<and> \<not> py_eq (ob_without obs) (ob_verdict obs)
         then fails Gate0_Col (Verdict_Depends_On_Key (ob_verdict obs) (ob_without obs)) b2 else b2)"

section \<open>The accept contract\<close>

text \<open>One tier column: the expected member, the observed one and its name.\<close>

definition eval_tier_column ::
  "observed \<Rightarrow> string \<Rightarrow> json \<Rightarrow> string \<Rightarrow> json \<Rightarrow> board \<Rightarrow> board res" where
  "eval_tier_column obs field exp_tiers obs_key obs_tiers b =
     (if exp_tiers = JNull then Inr b
      else if obs_key \<in> set (ob_absent obs) then
        bindr (py_iter exp_tiers) (\<lambda>xs. Inr (fails Tier_Col (Column_Not_Established field xs) b))
      else bindr (py_iter exp_tiers) (\<lambda>xs. bindr (iter_or_empty obs_tiers) (\<lambda>ys.
        Inr (if \<not> py_eq (JArr xs) (JArr ys)
             then fails Tier_Col (Column_Differs field exp_tiers obs_tiers) b else b))))"

definition eval_tier_result_invariance :: "observed \<Rightarrow> board \<Rightarrow> board" where
  "eval_tier_result_invariance obs b =
     (if ob_tiers obs = JNull \<or> ob_result obs = JNull then b
      else if ''result_without_key'' \<in> set (ob_absent obs) then fails Tier_Col Invariance_Not_Established b
      else if \<not> py_eq (ob_result_without obs) (ob_result obs)
      then fails Tier_Col (Result_Depends_On_Tier (ob_result obs) (ob_result_without obs)) b
      else b)"

definition eval_accept_tiers :: "jdict \<Rightarrow> observed \<Rightarrow> board \<Rightarrow> board res" where
  "eval_accept_tiers expected obs b =
     bindr (eval_tier_column obs ''tierWithPinnedKey'' (dget expected (u ''tierWithPinnedKey''))
              ''tiers_with_key'' (ob_tiers obs) b) (\<lambda>b1.
     bindr (eval_tier_column obs ''tierWithoutKey'' (dget expected (u ''tierWithoutKey''))
              ''tiers_without_key'' (ob_tiers_without obs) b1) (\<lambda>b2.
       Inr (eval_tier_result_invariance obs b2)))"

definition eval_accept :: "jdict \<Rightarrow> observed \<Rightarrow> json list \<Rightarrow> board \<Rightarrow> board res" where
  "eval_accept expected obs obs_codes b =
     (let b1 = fold (\<lambda>g. mark g PASS) [Gate0_Col, Gate1_Col, Recompute_Col, Tier_Col] b;
          exp_result = dget expected (u ''result'')
      in bindr (if ob_verdict obs \<noteq> js ''valid'' then
                  bindr (sort_check obs_codes) (\<lambda>_.
                    Inr (blame (Expected_Valid obs_codes)
                      (fold (\<lambda>code. mark (code_stage code) FAIL) obs_codes (mark Gate0_Col FAIL b1))))
                else Inr b1) (\<lambda>b2.
         let b3 = (if ob_verdict obs = js ''valid'' \<and> exp_result \<noteq> JNull \<and> \<not> py_eq (ob_result obs) exp_result
                   then fails Recompute_Col (Result_Differs exp_result (ob_result obs)) b2 else b2)
         in eval_accept_tiers expected obs b3))"

section \<open>The reject contract\<close>

definition STAGE_ORDER :: "column list" where
  "STAGE_ORDER = [Gate0_Col, Gate1_Col, Recompute_Col]"

fun stage_index :: "column \<Rightarrow> int" where
  "stage_index Gate0_Col = 0"
| "stage_index Gate1_Col = 1"
| "stage_index Recompute_Col = 2"
| "stage_index _ = -1"

definition furthest_stage_reached :: "json list \<Rightarrow> int" where
  "furthest_stage_reached obs_codes = fold (\<lambda>code. max (stage_index (code_stage code))) obs_codes (-1)"

text \<open>\<open>stage_hit\<close>, the dictionary the loop over the expected codes builds.\<close>

definition stage_hit :: "json list \<Rightarrow> json list \<Rightarrow> column \<Rightarrow> bool option" where
  "stage_hit exp_codes obs_codes =
     fold (\<lambda>code hits. let st = code_stage code
           in hits(st \<mapsto> (case hits st of None \<Rightarrow> False | Some b \<Rightarrow> b) \<or> py_in code obs_codes))
       exp_codes Map.empty"

definition stage_status :: "json list \<Rightarrow> json list \<Rightarrow> column \<Rightarrow> bool \<Rightarrow> status" where
  "stage_status exp_codes obs_codes st seen =
     (if seen then PASS
      else if list_ex (\<lambda>c. py_in c obs_codes) exp_codes \<and> furthest_stage_reached obs_codes < stage_index st
      then Unreached else FAIL)"

definition eval_reject_stages :: "json list \<Rightarrow> json list \<Rightarrow> board \<Rightarrow> board res" where
  "eval_reject_stages exp_codes obs_codes b =
     (if exp_codes = [] then Inr (mark Gate0_Col PASS b)
      else bindr (if \<not> list_ex (\<lambda>c. py_in c obs_codes) exp_codes then
                    bindr (sort_check exp_codes) (\<lambda>_. bindr (sort_check obs_codes) (\<lambda>_.
                      Inr (b\<lparr>bd_parity := bd_parity b @ [No_Expected_Code exp_codes obs_codes]\<rparr>)))
                  else Inr b) (\<lambda>b1.
        Inr (fold (\<lambda>st b. case stage_hit exp_codes obs_codes st of
                            None \<Rightarrow> b
                          | Some seen \<Rightarrow> mark st (stage_status exp_codes obs_codes st seen) b)
               STAGE_ORDER b1)))"

text \<open>The findings of the single-fault scan, for the two contracts that run it.\<close>

definition eval_self_check :: "string list option \<Rightarrow> board \<Rightarrow> board" where
  "eval_self_check self_check b =
     (case self_check of
        None \<Rightarrow> b
      | Some fs \<Rightarrow> fold (\<lambda>f. blame (Second_Fault f)) fs (mark Self_Check_Col (if fs = [] then PASS else FAIL) b))"

text \<open>An invalid statement emits no result and no tiers.\<close>

definition eval_no_output :: "observed \<Rightarrow> board \<Rightarrow> board" where
  "eval_no_output obs b =
     (if ob_result obs \<noteq> JNull \<or> truthy (ob_tiers obs) then fails Recompute_Col Invalid_Emits_Result b else b)"

definition fails_all :: "finding \<Rightarrow> board \<Rightarrow> board" where
  "fails_all f b = blame f (fold (\<lambda>g. mark g FAIL) [Gate0_Col, Gate1_Col, Recompute_Col] b)"

definition eval_reject ::
  "jdict \<Rightarrow> observed \<Rightarrow> json list \<Rightarrow> string list option \<Rightarrow> board \<Rightarrow> board res" where
  "eval_reject expected obs obs_codes self_check b =
     bindr (bindr (iter_or_empty (dget expected (u ''codes''))) py_set) (\<lambda>exp_codes.
     bindr (if ob_verdict obs \<noteq> js ''invalid'' then Inr (fails_all Expected_Invalid b)
            else bindr (eval_reject_stages exp_codes obs_codes b) (\<lambda>b1. Inr (eval_no_output obs b1))) (\<lambda>b2.
       Inr (eval_self_check self_check b2)))"

section \<open>The indeterminate contract\<close>

definition eval_indeterminate ::
  "ctx \<Rightarrow> jdict \<Rightarrow> observed \<Rightarrow> json list \<Rightarrow> string list option \<Rightarrow> board \<Rightarrow> board res" where
  "eval_indeterminate cx expected obs obs_codes self_check b =
     bindr (predicted_codes cx expected) (\<lambda>predicted.
     bindr (if ob_verdict obs \<noteq> js ''invalid'' \<and> u ''valid'' \<in> set predicted then Inr (mark Gate0_Col PASS b)
            else if ob_verdict obs \<noteq> js ''invalid'' then Inr (fails_all Expected_Invalid b)
            else
              (let b1 = mark Gate0_Col PASS b
               in bindr (if predicted \<noteq> [] \<and> \<not> list_ex (\<lambda>p. JStr p \<in> set obs_codes) predicted then
                           bindr (sort_check obs_codes) (\<lambda>_.
                             Inr (fails Gate0_Col (No_Declared_Reading predicted obs_codes) b1))
                         else Inr b1) (\<lambda>b2. Inr (eval_no_output obs b2)))) (\<lambda>b3.
       Inr (eval_self_check self_check b3)))"

section \<open>One vector\<close>

definition expected_verdict :: "ustr \<Rightarrow> jdict \<Rightarrow> json" where
  "expected_verdict kind expected =
     (let v = dget expected (u ''verdict'')
      in if truthy v then v else if kind = u ''accept'' then js ''valid'' else js ''invalid'')"

definition blank_board :: board where
  "blank_board = \<lparr>bd_gates = (\<lambda>_. Not_Scored), bd_reasons = [], bd_parity = []\<rparr>"

definition eval_contract ::
  "ctx \<Rightarrow> ustr \<Rightarrow> jdict \<Rightarrow> observed \<Rightarrow> json list \<Rightarrow> string list option \<Rightarrow> board \<Rightarrow> board res" where
  "eval_contract cx kind expected obs obs_codes self_check b =
     (if kind = u ''accept'' then eval_accept expected obs obs_codes b
      else if kind = u ''indeterminate'' then eval_indeterminate cx expected obs obs_codes self_check b
      else eval_reject expected obs obs_codes self_check b)"

definition compare_verdict :: "ctx \<Rightarrow> ustr \<Rightarrow> jdict \<Rightarrow> observed \<Rightarrow> board \<Rightarrow> board res" where
  "compare_verdict cx kind expected obs b =
     (if \<not> established obs then Inr b
      else bindr (admissible_verdicts cx kind expected (expected_verdict kind expected)) (\<lambda>vs.
        Inr (if \<not> py_in (ob_verdict obs) vs
             then blame (Verdict_Differs (expected_verdict kind expected) (ob_verdict obs)) b else b)))"

definition evaluate_vector_detailed ::
  "ctx \<Rightarrow> ustr \<Rightarrow> json \<Rightarrow> observed \<Rightarrow> string list option \<Rightarrow> evaluation res" where
  "evaluate_vector_detailed cx kind entry obs self_check =
     bindr (expected_of entry) (\<lambda>expected.
       if declared_exclusion expected \<noteq> None then
         Inr \<lparr>ev_ok = True, ev_gates = bd_gates blank_board, ev_reasons = [], ev_parity = []\<rparr>
       else
         bindr (bindr (iter_or_empty (ob_codes obs)) py_set) (\<lambda>obs_codes.
         bindr (compare_verdict cx kind expected obs
                  (eval_establishment obs (expected_verdict kind expected) blank_board)) (\<lambda>b1.
         bindr (eval_contract cx kind expected obs obs_codes self_check b1) (\<lambda>b.
           Inr \<lparr>ev_ok = (bd_reasons b = [] \<and> bd_parity b = []), ev_gates = bd_gates b,
                ev_reasons = bd_reasons b, ev_parity = bd_parity b\<rparr>))))"

text \<open>The three-value form: reasons and parity together.\<close>

definition evaluate_vector ::
  "ctx \<Rightarrow> ustr \<Rightarrow> json \<Rightarrow> observed \<Rightarrow> string list option \<Rightarrow> (bool \<times> gates \<times> finding list) res" where
  "evaluate_vector cx kind entry obs self_check =
     bindr (evaluate_vector_detailed cx kind entry obs self_check) (\<lambda>ev.
       Inr (ev_ok ev, ev_gates ev, ev_reasons ev @ ev_parity ev))"

end
