(* ===== verification/Coherence.thy ===== *)
theory Coherence
  imports Evaluate
begin

text \<open>
  The report rows of the conformance runner and the coherence of a family of indeterminate vectors
  (\<open>family_coherence_failures\<close> of \<open>packaging/run_vectors.py\<close>): one declared reading must explain the
  rail's answers to every member of the family.
\<close>

section \<open>Report rows\<close>

text \<open>What a row carries beyond its columns when the vector could be read.\<close>

record detail =
  dt_conformance :: bool
  dt_parity :: status
  dt_observed :: observed
  dt_expected :: json
  dt_exclusion :: "ustr option"
  dt_in_manifest :: bool
  dt_conformance_reasons :: "finding list"
  dt_parity_findings :: "finding list"

record row =
  row_id :: ustr
  row_file :: ustr
  row_kind :: ustr
  row_pass :: bool
  row_gates :: gates
  row_reasons :: "finding list"
  row_ran :: "bool option"
  row_detail :: "detail option"

definition row_verdict :: "row \<Rightarrow> json" where
  "row_verdict r = (case row_detail r of None \<Rightarrow> JNull | Some d \<Rightarrow> ob_verdict (dt_observed d))"

definition row_primary :: "row \<Rightarrow> json" where
  "row_primary r = (case row_detail r of None \<Rightarrow> JNull | Some d \<Rightarrow> ob_primary (dt_observed d))"

definition row_codes :: "row \<Rightarrow> json list res" where
  "row_codes r = (case row_detail r of None \<Rightarrow> Inr [] | Some d \<Rightarrow> iter_or_empty (ob_codes (dt_observed d)))"

section \<open>Families\<close>

definition readings_of :: "ctx \<Rightarrow> json \<Rightarrow> (ustr \<times> ustr) list res" where
  "readings_of cx entry =
     bindr (expected_of entry) (\<lambda>expected.
       Inr (map (\<lambda>(k, v). (k, py_str cx v)) (as_dict (dget expected (u ''readings'')))))"

definition allr :: "('a \<Rightarrow> bool res) \<Rightarrow> 'a list \<Rightarrow> bool res" where
  "allr p xs = bindr (anyr (\<lambda>x. bindr (p x) (\<lambda>b. Inr (\<not> b))) xs) (\<lambda>b. Inr (\<not> b))"

lemma allr_True: "allr p xs = Inr True \<Longrightarrow> \<forall>x \<in> set xs. p x = Inr True"
  by (fastforce simp: allr_def bindr_Inr_iff dest!: anyr_False)

text \<open>Does this member's answer match what the reading predicts for it?\<close>

definition answers :: "ctx \<Rightarrow> jdict \<Rightarrow> bool \<Rightarrow> ustr \<Rightarrow> row \<Rightarrow> bool res" where
  "answers cx idx committed reading r =
     bindr (readings_of cx (dget idx (row_id r))) (\<lambda>readings.
       let predicted = map_of readings reading
       in if predicted = Some (u ''valid'') then Inr (row_verdict r = js ''valid'')
          else if committed then
            Inr (row_primary r = (case predicted of None \<Rightarrow> JNull | Some p \<Rightarrow> JStr p))
          else bindr (row_codes r) (\<lambda>codes.
            Inr (case predicted of None \<Rightarrow> False | Some p \<Rightarrow> p \<in> set (map (py_str cx) codes))))"

definition family_of :: "ctx \<Rightarrow> jdict \<Rightarrow> row \<Rightarrow> ustr res" where
  "family_of cx idx r =
     bindr (expected_of (dget idx (row_id r))) (\<lambda>expected.
       let v = dget expected (u ''family'') in Inr (if truthy v then py_str cx v else []))"

definition committed_family :: "row list \<Rightarrow> bool" where
  "committed_family members = list_all (\<lambda>m. truthy (row_primary m) \<or> row_verdict m = js ''valid'') members"

datatype family_note =
    Family_Matches ustr "ustr list" bool nat
  | Family_Fails finding

text \<open>What a failure reports of one member.\<close>

definition member_answer :: "bool \<Rightarrow> row \<Rightarrow> (ustr \<times> json) res" where
  "member_answer committed m =
     (if committed then Inr (row_id m, row_primary m)
      else bindr (row_codes m) (\<lambda>codes. bindr (sort_check codes) (\<lambda>_. Inr (row_id m, JArr codes))))"

definition matched_readings :: "ctx \<Rightarrow> jdict \<Rightarrow> row list \<Rightarrow> ustr list \<Rightarrow> ustr list res" where
  "matched_readings cx idx members declared =
     filterr (\<lambda>name. allr (answers cx idx (committed_family members) name) members) declared"

definition judge_family :: "ctx \<Rightarrow> jdict \<Rightarrow> ustr \<times> row list \<Rightarrow> family_note res" where
  "judge_family cx idx fam =
     (case fam of (family, members) \<Rightarrow>
       bindr (readings_of cx (dget idx (row_id (hd members)))) (\<lambda>readings.
       bindr (matched_readings cx idx members (sort (map fst readings))) (\<lambda>matched.
         if matched \<noteq> [] then
           Inr (Family_Matches family matched (committed_family members \<and> length matched = 1) (length members))
         else bindr (mapr (member_answer (committed_family members)) members) (\<lambda>ans.
           Inr (Family_Fails (Incoherent_Family family ans (sort (map fst readings))))))))"

definition families :: "ctx \<Rightarrow> jdict \<Rightarrow> row list \<Rightarrow> (ustr \<times> row list) list res" where
  "families cx idx rows =
     bindr (mapr (\<lambda>r. bindr (family_of cx idx r) (\<lambda>f. Inr (f, r)))
              (filter (\<lambda>r. row_kind r = u ''indeterminate'') rows)) (\<lambda>tagged.
       Inr (sort_key fst (map (\<lambda>(f, ms). (f, map snd ms)) (group_by fst (filter (\<lambda>(f, _). f \<noteq> []) tagged)))))"

fun note_failure :: "family_note \<Rightarrow> finding list" where
  "note_failure (Family_Fails f) = [f]"
| "note_failure _ = []"

definition family_coherence_failures ::
  "ctx \<Rightarrow> jdict \<Rightarrow> row list \<Rightarrow> (family_note list \<times> finding list) res" where
  "family_coherence_failures cx idx rows =
     bindr (families cx idx rows) (\<lambda>fams.
     bindr (mapr (judge_family cx idx) fams) (\<lambda>judged.
       Inr (filter (\<lambda>n. note_failure n = []) judged, concat (map note_failure judged))))"

end
