(* ===== verification/Closure.thy ===== *)
theory Closure
  imports Manifest
begin

text \<open>
  The closure of a suite's manifest over the suite's directory (\<open>manifest_closure\<close> of
  \<open>packaging/run_vectors.py\<close>): every row names a file that exists, every file of the vector directory is
  named by a row, every other directory is accounted for, and the published counts are the rows' counts.
\<close>

section \<open>The directory\<close>

text \<open>
  The suite's directory as \<open>os\<close> shows it, all paths relative to it: \<open>isfile\<close> and \<open>isdir\<close> of a joined
  path, \<open>listdir\<close>, and the normalized paths of the files \<open>os.walk\<close> visits under a directory, in its order
  with every level sorted. \<open>fs_read\<close> is a file's content, \<open>None\<close> when it cannot be read.
\<close>

record filesystem =
  fs_isfile :: "ustr \<Rightarrow> bool"
  fs_isdir :: "ustr \<Rightarrow> bool"
  fs_listdir :: "ustr \<Rightarrow> ustr list"
  fs_walk :: "ustr \<Rightarrow> ustr list"
  fs_read :: "ustr \<Rightarrow> bytes option"

text \<open>One constructor per message; the arguments are the values its text formats.\<close>

datatype closure_fault =
    Unscored_Kind ustr "ustr list"
  | Uncarried_Kind ustr
  | Row_Without_File ustr
  | Row_File_Missing ustr ustr
  | Unlisted_File ustr ustr
  | Members_Elsewhere ustr "ustr list" ustr
  | Undeclared_Directory ustr
  | Vectors_In_Exempt_Directory ustr nat
  | Counts_Absent
  | Counts_Not_An_Object json
  | Count_Missing ustr nat
  | Count_Differs ustr json nat
  | Files_Differ_From_Rows ustr nat nat
  | Count_Of_Unlisted_Kind ustr

type_synonym kinds = "(ustr \<times> ustr list) list"

definition REFERENCE_SUITE :: string where
  "REFERENCE_SUITE = ''adversarial-execution-evidence-conformance''"

definition SUITE_NON_VECTOR_DIRS :: "string list" where
  "SUITE_NON_VECTOR_DIRS = [''__pycache__'', ''keys'', ''.build'']"

definition vector_files_in :: "filesystem \<Rightarrow> ustr \<Rightarrow> ustr list" where
  "vector_files_in fs directory =
     (if \<not> fs_isdir fs directory then []
      else sort (map stem (filter (\<lambda>name. ends_with name (u ''.json'')) (fs_listdir fs directory))))"

definition ids_of :: "kinds \<Rightarrow> ustr \<Rightarrow> ustr list" where
  "ids_of listed kind = (case map_of listed kind of None \<Rightarrow> [] | Some ids \<Rightarrow> ids)"

section \<open>Kinds, rows and files\<close>

definition closure_kind_coverage :: "kinds \<Rightarrow> ustr list \<Rightarrow> closure_fault list" where
  "closure_kind_coverage listed required =
     map (\<lambda>kind. Unscored_Kind kind (ids_of listed kind))
       (filter (\<lambda>kind. \<not> replayed kind) (sort (map fst listed))) @
     map Uncarried_Kind (filter (\<lambda>kind. ids_of listed kind = []) required)"

definition row_file_fault :: "filesystem \<Rightarrow> jdict \<Rightarrow> ustr \<Rightarrow> closure_fault list" where
  "row_file_fault fs idx vid =
     (case member (dget idx vid) ''file'' of
        JStr declared \<Rightarrow>
          if declared = [] then [Row_Without_File vid]
          else if \<not> fs_isfile fs declared then [Row_File_Missing vid declared] else []
      | _ \<Rightarrow> [Row_Without_File vid])"

text \<open>The files of the vector directory no row names.\<close>

definition unlisted_files :: "filesystem \<Rightarrow> kinds \<Rightarrow> ustr \<Rightarrow> ustr list" where
  "unlisted_files fs listed flat =
     filter (\<lambda>vid. \<not> list_ex (\<lambda>(_, ids). vid \<in> set ids) listed) (sort (remdups (vector_files_in fs flat)))"

definition closure_flat ::
  "filesystem \<Rightarrow> jdict \<Rightarrow> kinds \<Rightarrow> ustr \<Rightarrow> closure_fault list \<times> (ustr \<times> ustr) list" where
  "closure_flat fs idx listed flat =
     (concat (map (\<lambda>kind. concat (map (row_file_fault fs idx) (ids_of listed kind)))
        (filter replayed (sort (map fst listed)))) @
      map (Unlisted_File flat) (unlisted_files fs listed flat),
      map (\<lambda>vid. (vid, flat)) (unlisted_files fs listed flat))"

definition closure_both_directions ::
  "filesystem \<Rightarrow> jdict \<Rightarrow> kinds \<Rightarrow> (closure_fault list \<times> (ustr \<times> ustr) list) res" where
  "closure_both_directions fs idx listed = bindr (flat_layout idx) (\<lambda>flat. Inr (closure_flat fs idx listed flat))"

section \<open>Directories\<close>

text \<open>Every string the manifest holds as a value.\<close>

fun json_strings :: "json \<Rightarrow> ustr list" where
  "json_strings (JStr s) = [s]"
| "json_strings (JArr xs) = concat (map json_strings xs)"
| "json_strings (JObj d) = concat (map (\<lambda>(k, v). json_strings v) d)"
| "json_strings _ = []"

definition manifest_referenced_paths :: "filesystem \<Rightarrow> json \<Rightarrow> ustr list" where
  "manifest_referenced_paths fs manifest =
     map normpath (filter (\<lambda>s. has_slash s \<and> fs_isfile fs s) (json_strings manifest))"

text \<open>\<open>^v[0-9a-f]{16}$\<close>.\<close>

definition vector_file_stem :: "ustr \<Rightarrow> bool" where
  "vector_file_stem s \<longleftrightarrow>
     starts [118] s \<and> 17 \<le> length s \<and> list_all is_lower_hex (take 16 (tl s)) \<and> at_end (drop 17 s)"

definition stray_vector_files :: "filesystem \<Rightarrow> ustr \<Rightarrow> ustr list \<Rightarrow> ustr list \<Rightarrow> ustr list" where
  "stray_vector_files fs directory member_ids referenced =
     filter (\<lambda>rel. rel \<notin> set referenced \<and>
       (before 46 (basename rel) \<in> set member_ids \<or> vector_file_stem (before 46 (basename rel))))
       (fs_walk fs directory)"

definition closure_directories_other_suite ::
  "filesystem \<Rightarrow> json \<Rightarrow> jdict \<Rightarrow> closure_fault list res" where
  "closure_directories_other_suite fs manifest idx =
     bindr (flat_layout idx) (\<lambda>flat.
       Inr (concat (map (\<lambda>name.
         if \<not> fs_isdir fs name \<or> name = flat then []
         else
           (let strays = stray_vector_files fs name (map fst idx) (manifest_referenced_paths fs manifest)
            in if strays \<noteq> [] then [Members_Elsewhere name strays flat] else []))
         (sort (fs_listdir fs [])))))"

definition directory_fault :: "filesystem \<Rightarrow> kinds \<Rightarrow> ustr \<Rightarrow> ustr \<Rightarrow> closure_fault list" where
  "directory_fault fs listed flat name =
     (if \<not> fs_isdir fs name then []
      else if name \<in> fst ` set listed then []
      else if name = flat then []
      else if name \<notin> u ` set SUITE_NON_VECTOR_DIRS then [Undeclared_Directory name]
      else
        (let held = vector_files_in fs name
         in if held \<noteq> [] then [Vectors_In_Exempt_Directory name (length held)] else []))"

definition closure_directories :: "filesystem \<Rightarrow> kinds \<Rightarrow> jdict \<Rightarrow> closure_fault list res" where
  "closure_directories fs listed idx =
     bindr (flat_layout idx) (\<lambda>flat.
       Inr (concat (map (directory_fault fs listed flat) (sort (fs_listdir fs [])))))"

section \<open>Counts\<close>

definition count_fault :: "jdict \<Rightarrow> kinds \<Rightarrow> ustr \<Rightarrow> closure_fault list" where
  "count_fault counts listed kind =
     (let held = length (ids_of listed kind)
      in if \<not> has_key counts kind then [Count_Missing kind held]
         else if \<not> py_eq (dget counts kind) (JInt (int held)) then [Count_Differs kind (dget counts kind) held]
         else [])"

definition counts_against_rows :: "filesystem \<Rightarrow> jdict \<Rightarrow> kinds \<Rightarrow> ustr \<Rightarrow> closure_fault list" where
  "counts_against_rows fs counts listed flat =
     (let total_files = length (vector_files_in fs flat); total_rows = sum_list (map (length \<circ> snd) listed)
      in concat (map (count_fault counts listed) (filter replayed (sort (map fst listed)))) @
         (if total_files \<noteq> total_rows then [Files_Differ_From_Rows flat total_files total_rows] else []))"

definition closure_counts :: "filesystem \<Rightarrow> json \<Rightarrow> kinds \<Rightarrow> jdict \<Rightarrow> closure_fault list res" where
  "closure_counts fs counts listed idx =
     (case counts of
        JNull \<Rightarrow> Inr [Counts_Absent]
      | JObj d \<Rightarrow>
          bindr (flat_layout idx) (\<lambda>flat.
            Inr (counts_against_rows fs d listed flat @
                 map Count_Of_Unlisted_Kind (filter (\<lambda>kind. kind \<notin> fst ` set listed) (sort (map fst d)))))
      | v \<Rightarrow> Inr [Counts_Not_An_Object v])"

section \<open>The closure\<close>

definition is_reference :: "jdict \<Rightarrow> bool" where
  "is_reference manifest \<longleftrightarrow>
     dget manifest (u ''suite'') = JNull \<or> dget manifest (u ''suite'') = js REFERENCE_SUITE"

definition manifest_closure ::
  "filesystem \<Rightarrow> jdict \<Rightarrow> jdict \<Rightarrow> (closure_fault list \<times> (ustr \<times> ustr) list) res" where
  "manifest_closure fs manifest idx =
     (let listed = manifest_kinds idx;
          kind_faults = closure_kind_coverage listed
            (if is_reference manifest then map u REPLAYED_KINDS else [])
      in bindr (closure_both_directions fs idx listed) (\<lambda>(direction_faults, unlisted).
         bindr (if is_reference manifest then closure_directories fs listed idx
                else closure_directories_other_suite fs (JObj manifest) idx) (\<lambda>directory_faults.
         bindr (closure_counts fs (dget manifest (u ''counts'')) listed idx) (\<lambda>count_faults.
           Inr (kind_faults @ direction_faults @ directory_faults @ count_faults, unlisted)))))"

end
