(* ===== verification/Runner.thy ===== *)
theory Runner
  imports Coherence Closure
begin

text \<open>
  The run of a suite (\<open>run_suite\<close> of \<open>packaging/run_vectors.py\<close> behind its dispatch to other readers):
  each vector is read, given to the rail and judged, then the manifest's closure, the number of vectors
  the named verifier answered and the coherence of the indeterminate families are added, and the exit
  status sums them up.
\<close>

section \<open>The test keys\<close>

definition KEY_ROLES :: "string list" where
  "KEY_ROLES = [''substrate-observation-test'', ''wrong-signer-test'', ''statement-test'']"

definition PINNED_ROLE :: string where
  "PINNED_ROLE = ''substrate-observation-test''"

record test_key =
  tk_seed :: bytes
  tk_public :: bytes
  tk_keyid :: ustr

definition derive_test_key :: "ctx \<Rightarrow> string \<Rightarrow> test_key" where
  "derive_test_key cx role =
     (let seed = cx_sha256 cx (u (''in-toto-aee-test-key/'' @ role @ ''/v1''));
          pub = ed25519_public_key (cx_sha512 cx) seed
      in \<lparr>tk_seed = seed, tk_public = pub, tk_keyid = sha256_hex cx pub\<rparr>)"

definition derive_test_keys :: "ctx \<Rightarrow> (string \<times> test_key) list" where
  "derive_test_keys cx = map (\<lambda>role. (role, derive_test_key cx role)) KEY_ROLES"

text \<open>The file the external verifier's key policy is read from.\<close>

definition pinned_key_policy :: "test_key \<Rightarrow> json" where
  "pinned_key_policy k =
     JObj [(u ''substrateObservationKeys'',
            JArr [JObj [(u ''keyid'', JStr (tk_keyid k)), (u ''publicKeyHex'', JStr (hex_of (tk_public k)))]])]"

text \<open>The reference verifier with the pinned test key.\<close>

definition pinned_ctx :: "ctx \<Rightarrow> ctx" where
  "pinned_ctx cx = cx\<lparr>cx_pins := [tk_public (derive_test_key cx PINNED_ROLE)]\<rparr>"

section \<open>One vector\<close>

text \<open>
  What surrounds a run: the suite's directory, the two runs of the named verifier on a file (with and
  without a key policy) when one is named, and whether the interpreter's recursion limit stops the parse
  of a text.
\<close>

record world =
  wd_fs :: filesystem
  wd_rail :: "(ustr \<Rightarrow> process \<times> process) option"
  wd_too_deep :: "ustr \<Rightarrow> bool"

definition MAX_STATEMENT_BYTES :: nat where
  "MAX_STATEMENT_BYTES = 64 * 2 ^ 20"

definition try_loads :: "world \<Rightarrow> ustr \<Rightarrow> json res" where
  "try_loads w s = (if wd_too_deep w s then Inl RecursionError else json_loads s)"

text \<open>The value of a statement's bytes, and whether it is a faithful reading of them.\<close>

definition load_statement :: "world \<Rightarrow> bytes \<Rightarrow> (json \<times> bool) res" where
  "load_statement w raw =
     (case (case utf8_decode raw of None \<Rightarrow> Inl UnicodeDecodeError | Some s \<Rightarrow> try_loads w s) of
        Inr v \<Rightarrow> Inr (v, True)
      | Inl e \<Rightarrow>
          if \<not> is_value_error e then Inl e
          else (case try_loads w (utf8_replace raw) of
                  Inr v \<Rightarrow> Inr (v, False)
                | Inl e' \<Rightarrow> if is_value_error e' then Inr (JNull, False) else Inl e'))"

text \<open>A file that cannot be opened, is too long, or nests too deep has no statement.\<close>

definition read_vector :: "world \<Rightarrow> ustr \<Rightarrow> (bytes \<times> json \<times> bool) option" where
  "read_vector w path =
     (case fs_read (wd_fs w) path of
        None \<Rightarrow> None
      | Some raw \<Rightarrow>
          if MAX_STATEMENT_BYTES < length raw then None
          else (case load_statement w raw of
                  Inl e \<Rightarrow> None
                | Inr (stmt, faithful) \<Rightarrow> Some (raw, stmt, faithful)))"

definition unreadable_row :: "world \<Rightarrow> ustr \<Rightarrow> ustr \<Rightarrow> row" where
  "unreadable_row w kind path =
     \<lparr>row_id = stem (basename path), row_file = path, row_kind = kind, row_pass = False,
      row_gates = (\<lambda>_. FAIL), row_reasons = [Vector_Unreadable],
      row_ran = (if wd_rail w = None then None else Some False), row_detail = None\<rparr>"

text \<open>The codes whose faults the vector carries on purpose.\<close>

definition exempt_codes :: "ctx \<Rightarrow> json \<Rightarrow> json list res" where
  "exempt_codes cx entry =
     bindr (expected_of entry) (\<lambda>expected.
     bindr (bindr (iter_or_empty (dget expected (u ''codes''))) py_set) (\<lambda>codes.
     bindr (bindr (iter_or_empty (dget expected (u ''alsoCarries''))) py_set) (\<lambda>carried.
     bindr (predicted_codes cx expected) (\<lambda>predicted.
       Inr (codes @ carried @ map JStr predicted)))))"

definition self_check :: "ctx \<Rightarrow> ustr \<Rightarrow> json \<Rightarrow> json \<Rightarrow> bool \<Rightarrow> string list option res" where
  "self_check cx kind entry stmt faithful =
     (if kind \<in> {u ''reject'', u ''indeterminate''} \<and> faithful
      then bindr (exempt_codes cx entry) (\<lambda>codes.
             bindr (second_fault_absence cx stmt codes) (\<lambda>fs. Inr (Some fs)))
      else Inr None)"

definition parity_status :: "ustr \<Rightarrow> finding list \<Rightarrow> status" where
  "parity_status kind parity =
     (if parity \<noteq> [] then FAIL else if kind = u ''reject'' then PASS else Not_Scored)"

definition judged_row ::
  "world \<Rightarrow> ustr \<Rightarrow> ustr \<Rightarrow> json \<Rightarrow> jdict \<Rightarrow> observed \<Rightarrow> evaluation \<Rightarrow> row" where
  "judged_row w kind path entry expected obs ev =
     \<lparr>row_id = stem (basename path), row_file = path, row_kind = kind, row_pass = ev_ok ev,
      row_gates = ev_gates ev, row_reasons = ev_reasons ev @ ev_parity ev,
      row_ran = (if wd_rail w = None then None else ob_ran obs),
      row_detail = Some
        \<lparr>dt_conformance = (ev_reasons ev = []), dt_parity = parity_status kind (ev_parity ev),
         dt_observed = obs, dt_expected = member entry ''expected'',
         dt_exclusion = declared_exclusion expected, dt_in_manifest = (entry \<noteq> JNull),
         dt_conformance_reasons = ev_reasons ev, dt_parity_findings = ev_parity ev\<rparr>\<rparr>"

definition process_vector :: "ctx \<Rightarrow> world \<Rightarrow> jdict \<Rightarrow> ustr \<times> ustr \<Rightarrow> row res" where
  "process_vector cx w idx v =
     (case v of (kind, path) \<Rightarrow>
       (case read_vector w path of
          None \<Rightarrow> Inr (unreadable_row w kind path)
        | Some (raw, stmt, faithful) \<Rightarrow>
            (let entry = dget idx (stem (basename path))
             in bindr (run_observe (pinned_ctx cx) (map_option (\<lambda>rail. rail path) (wd_rail w)) stmt raw) (\<lambda>obs.
                bindr (self_check cx kind entry stmt faithful) (\<lambda>sc.
                bindr (evaluate_vector_detailed cx kind entry obs sc) (\<lambda>ev.
                bindr (expected_of entry) (\<lambda>expected.
                  Inr (judged_row w kind path entry expected obs ev))))))))"

section \<open>The suite\<close>

text \<open>Writing a failure onto a row touches a member an unreadable row does not have.\<close>

definition fail_row :: "finding list \<Rightarrow> row \<Rightarrow> row res" where
  "fail_row fs r =
     (case row_detail r of
        None \<Rightarrow> Inl KeyError
      | Some d \<Rightarrow>
          Inr (r\<lparr>row_pass := False, row_reasons := row_reasons r @ fs,
                 row_gates := (row_gates r)(Gate0_Col := FAIL),
                 row_detail := Some (d\<lparr>dt_conformance := False,
                   dt_conformance_reasons := dt_conformance_reasons d @ fs\<rparr>)\<rparr>))"

definition mark_unlisted :: "(ustr \<times> ustr) list \<Rightarrow> row \<Rightarrow> row res" where
  "mark_unlisted unlisted r =
     (if map_of unlisted (row_id r) = Some (row_kind r) then fail_row [Not_In_Manifest] r else Inr r)"

definition run_manifest_closure ::
  "filesystem \<Rightarrow> json \<Rightarrow> jdict \<Rightarrow> row list \<Rightarrow> (row list \<times> closure_fault list) res" where
  "run_manifest_closure fs manifest idx rows =
     (case manifest of
        JObj m \<Rightarrow>
          bindr (manifest_closure fs m idx) (\<lambda>(faults, unlisted).
            bindr (mapr (mark_unlisted unlisted) rows) (\<lambda>rows'. Inr (rows', faults)))
      | _ \<Rightarrow> Inr (rows, []))"

text \<open>How many vectors the named verifier answered, and whether that falls short.\<close>

definition verifier_execution :: "bool \<Rightarrow> row list \<Rightarrow> nat option \<times> bool" where
  "verifier_execution external rows =
     (if \<not> external then (None, False)
      else
        (let executed = length (filter (\<lambda>r. row_ran r = Some True) rows); total = length rows
         in (Some executed, \<not> (executed = total \<and> 0 < total))))"

definition apply_coherence :: "finding list \<Rightarrow> row list \<Rightarrow> row list res" where
  "apply_coherence fs rows =
     (if fs = [] then Inr rows
      else mapr (\<lambda>r. if row_kind r = u ''indeterminate'' then fail_row fs r else Inr r) rows)"

record totals =
  tt_vectors :: nat
  tt_pass :: nat
  tt_fail :: nat
  tt_conform :: nat
  tt_parity_mismatch :: nat
  tt_refusals :: int
  tt_not_exercised :: nat

definition count_rows :: "(row \<Rightarrow> bool) \<Rightarrow> row list \<Rightarrow> nat" where
  "count_rows p rows = length (filter p rows)"

definition detail_is :: "(detail \<Rightarrow> bool) \<Rightarrow> row \<Rightarrow> bool" where
  "detail_is p r = (case row_detail r of None \<Rightarrow> False | Some d \<Rightarrow> p d)"

definition report_totals :: "row list \<Rightarrow> int \<Rightarrow> totals" where
  "report_totals rows refusals =
     \<lparr>tt_vectors = length rows, tt_pass = count_rows row_pass rows,
      tt_fail = count_rows (\<lambda>r. \<not> row_pass r) rows,
      tt_conform = count_rows (detail_is dt_conformance) rows,
      tt_parity_mismatch = count_rows (detail_is (\<lambda>d. dt_parity d = FAIL)) rows,
      tt_refusals = refusals,
      tt_not_exercised = count_rows (detail_is (\<lambda>d. dt_exclusion d \<noteq> None)) rows\<rparr>"

definition run_exit_status :: "nat \<Rightarrow> nat option \<Rightarrow> nat" where
  "run_exit_status failures executed =
     (if executed = Some 0 then 2 else if failures \<noteq> 0 then 1 else 0)"

record run =
  run_rows :: "row list"
  run_faults :: "closure_fault list"
  run_notes :: "family_note list"
  run_incoherent :: "finding list"
  run_short :: bool
  run_totals :: totals
  run_executed :: "nat option"
  run_exit :: nat

text \<open>The failures counted over the run and what is left of them for the suite itself.\<close>

definition suite_refusals :: "nat \<Rightarrow> row list \<Rightarrow> int" where
  "suite_refusals failures rows = max (int failures - int (count_rows (\<lambda>r. \<not> row_pass r) rows)) 0"

definition run_suite :: "ctx \<Rightarrow> world \<Rightarrow> json \<Rightarrow> run res" where
  "run_suite cx w manifest =
     bindr (manifest_index manifest) (\<lambda>idx.
     bindr (discover_vectors cx manifest) (\<lambda>vectors.
     bindr (mapr (process_vector cx w idx) vectors) (\<lambda>rows0.
     bindr (run_manifest_closure (wd_fs w) manifest idx rows0) (\<lambda>(rows1, faults).
     bindr (family_coherence_failures cx idx rows1) (\<lambda>(notes, incoherent).
     bindr (apply_coherence incoherent rows1) (\<lambda>rows2.
       let (executed, short) = verifier_execution (wd_rail w \<noteq> None) rows1;
           failures = count_rows (\<lambda>r. \<not> row_pass r) rows0 + length faults + (if short then 1 else 0)
             + length incoherent
       in Inr \<lparr>run_rows = rows2, run_faults = faults, run_notes = notes, run_incoherent = incoherent,
               run_short = short, run_totals = report_totals rows2 (suite_refusals failures rows2),
               run_executed = executed, run_exit = run_exit_status failures executed\<rparr>))))))"

end
