(* ===== verification/Judged.thy ===== *)
theory Judged
  imports Evaluate
begin

text \<open>
  What a judgement of the conformance runner means: each contract of \<open>Evaluate\<close> writes a finding exactly
  where its condition fails, so a vector passes exactly when every condition holds.
\<close>

section \<open>What the contracts write\<close>

definition clean :: "board \<Rightarrow> bool" where
  "clean b \<longleftrightarrow> bd_reasons b = [] \<and> bd_parity b = []"

lemma mark_simps [simp]:
  "bd_gates (mark g s b) = (bd_gates b)(g := s)" "bd_reasons (mark g s b) = bd_reasons b"
  "bd_parity (mark g s b) = bd_parity b"
  by (simp_all add: mark_def)

lemma blame_simps [simp]:
  "bd_gates (blame f b) = bd_gates b" "bd_reasons (blame f b) = bd_reasons b @ [f]"
  "bd_parity (blame f b) = bd_parity b"
  by (simp_all add: blame_def)

lemma fails_simps [simp]:
  "bd_gates (fails g f b) = (bd_gates b)(g := FAIL)" "bd_reasons (fails g f b) = bd_reasons b @ [f]"
  "bd_parity (fails g f b) = bd_parity b"
  by (simp_all add: fails_def)

lemma fold_mark [simp]:
  "bd_reasons (fold (\<lambda>x. mark (g x) s) xs b) = bd_reasons b"
  "bd_parity (fold (\<lambda>x. mark (g x) s) xs b) = bd_parity b"
  by (induction xs arbitrary: b) auto

lemma fold_blame [simp]:
  "bd_reasons (fold (\<lambda>x. blame (f x)) xs b) = bd_reasons b @ map f xs"
  "bd_parity (fold (\<lambda>x. blame (f x)) xs b) = bd_parity b"
  "bd_gates (fold (\<lambda>x. blame (f x)) xs b) = bd_gates b"
  by (induction xs arbitrary: b) auto

lemma clean_mark [simp]: "clean (mark g s b) = clean b"
  by (simp add: clean_def)

lemma clean_blame [simp]: "\<not> clean (blame f b)"
  by (simp add: clean_def)

lemma clean_fails [simp]: "\<not> clean (fails g f b)"
  by (simp add: clean_def)

lemma clean_fails_all [simp]: "\<not> clean (fails_all f b)"
  by (simp add: fails_all_def)

lemma blame_ne [simp]: "blame f b \<noteq> b" "b \<noteq> blame f b"
  by (metis append_self_conv blame_simps(2) not_Cons_self2)+

lemma fails_ne [simp]: "fails g f b \<noteq> b" "b \<noteq> fails g f b"
  by (metis append_self_conv fails_simps(2) not_Cons_self2)+

lemma clean_blank [simp]: "clean blank_board"
  by (simp add: clean_def blank_board_def)

section \<open>Establishment and verdict\<close>

definition key_independent :: "observed \<Rightarrow> bool" where
  "key_independent obs \<longleftrightarrow> ob_without obs = JNull \<or> py_eq (ob_without obs) (ob_verdict obs)"

lemma establishment_clean:
  "clean (eval_establishment obs v b) \<longleftrightarrow>
     clean b \<and> ob_errors obs = [] \<and> established obs \<and> key_independent obs"
  by (auto simp: eval_establishment_def Let_def clean_def key_independent_def)

lemma compare_verdict_clean:
  assumes "compare_verdict cx kind expected obs b = Inr b'" and "established obs"
  shows "clean b' \<longleftrightarrow> clean b \<and>
    (\<exists>vs. admissible_verdicts cx kind expected (expected_verdict kind expected) = Inr vs \<and> py_in (ob_verdict obs) vs)"
  using assms by (auto simp: compare_verdict_def bindr_Inr_iff split: if_split_asm)

section \<open>The accept contract\<close>

text \<open>A pinned tier column was reported and is the expected one.\<close>

definition column_answered :: "observed \<Rightarrow> json \<Rightarrow> string \<Rightarrow> json \<Rightarrow> bool" where
  "column_answered obs exp_tiers obs_key obs_tiers \<longleftrightarrow>
     exp_tiers = JNull \<or>
     obs_key \<notin> set (ob_absent obs) \<and>
     (\<exists>xs ys. py_iter exp_tiers = Inr xs \<and> iter_or_empty obs_tiers = Inr ys \<and> py_eq (JArr xs) (JArr ys))"

definition tiers_keep_result :: "observed \<Rightarrow> bool" where
  "tiers_keep_result obs \<longleftrightarrow>
     ob_tiers obs = JNull \<or> ob_result obs = JNull \<or>
     ''result_without_key'' \<notin> set (ob_absent obs) \<and> py_eq (ob_result_without obs) (ob_result obs)"

lemma tier_column_clean:
  "eval_tier_column obs field e k t b = Inr b' \<Longrightarrow> clean b' \<longleftrightarrow> clean b \<and> column_answered obs e k t"
  by (auto simp: eval_tier_column_def column_answered_def bindr_Inr_iff split: if_split_asm)

lemma tier_invariance_clean: "clean (eval_tier_result_invariance obs b) \<longleftrightarrow> clean b \<and> tiers_keep_result obs"
  by (auto simp: eval_tier_result_invariance_def tiers_keep_result_def)

lemma accept_tiers_clean:
  assumes "eval_accept_tiers expected obs b = Inr b'"
  shows "clean b' \<longleftrightarrow> clean b \<and>
    column_answered obs (dget expected (u ''tierWithPinnedKey'')) ''tiers_with_key'' (ob_tiers obs) \<and>
    column_answered obs (dget expected (u ''tierWithoutKey'')) ''tiers_without_key'' (ob_tiers_without obs) \<and>
    tiers_keep_result obs"
  using assms unfolding eval_accept_tiers_def
  by (auto simp: bindr_Inr_iff tier_invariance_clean dest!: tier_column_clean)

lemma accept_clean:
  assumes "eval_accept expected obs codes b = Inr b'"
  shows "clean b' \<longleftrightarrow> clean b \<and> ob_verdict obs = js ''valid'' \<and>
    (dget expected (u ''result'') = JNull \<or> py_eq (ob_result obs) (dget expected (u ''result''))) \<and>
    column_answered obs (dget expected (u ''tierWithPinnedKey'')) ''tiers_with_key'' (ob_tiers obs) \<and>
    column_answered obs (dget expected (u ''tierWithoutKey'')) ''tiers_without_key'' (ob_tiers_without obs) \<and>
    tiers_keep_result obs"
proof -
  from assms obtain b2 where
    b2: "(if ob_verdict obs \<noteq> js ''valid'' then
            bindr (sort_check codes) (\<lambda>_. Inr (blame (Expected_Valid codes)
              (fold (\<lambda>code. mark (code_stage code) FAIL) codes (mark Gate0_Col FAIL
                (fold (\<lambda>g. mark g PASS) [Gate0_Col, Gate1_Col, Recompute_Col, Tier_Col] b)))))
          else Inr (fold (\<lambda>g. mark g PASS) [Gate0_Col, Gate1_Col, Recompute_Col, Tier_Col] b)) = Inr b2"
    and t: "eval_accept_tiers expected obs
      (if ob_verdict obs = js ''valid'' \<and> dget expected (u ''result'') \<noteq> JNull \<and>
          \<not> py_eq (ob_result obs) (dget expected (u ''result''))
       then fails Recompute_Col (Result_Differs (dget expected (u ''result'')) (ob_result obs)) b2 else b2) = Inr b'"
    unfolding eval_accept_def Let_def bindr_Inr_iff by blast
  have "clean b2 \<longleftrightarrow> clean b \<and> ob_verdict obs = js ''valid''"
    using b2 by (auto simp: bindr_Inr_iff clean_def split: if_split_asm)
  with accept_tiers_clean [OF t] show ?thesis by auto
qed

section \<open>The reject contract\<close>

definition no_output :: "observed \<Rightarrow> bool" where
  "no_output obs \<longleftrightarrow> ob_result obs = JNull \<and> \<not> truthy (ob_tiers obs)"

lemma no_output_clean: "clean (eval_no_output obs b) \<longleftrightarrow> clean b \<and> no_output obs"
  by (auto simp: eval_no_output_def no_output_def)

lemma self_check_clean: "clean (eval_self_check sc b) \<longleftrightarrow> clean b \<and> (sc = None \<or> sc = Some [])"
  by (auto simp: eval_self_check_def clean_def split: option.splits)

lemma fold_marks_clean:
  "(\<And>x b. clean (f x b) = clean b) \<Longrightarrow> clean (fold f xs b) = clean b"
  by (induction xs arbitrary: b) auto

lemma reject_stages_clean:
  assumes "eval_reject_stages exp_codes obs_codes b = Inr b'"
  shows "clean b' \<longleftrightarrow> clean b \<and> (exp_codes = [] \<or> list_ex (\<lambda>c. py_in c obs_codes) exp_codes)"
proof -
  have f: "clean (fold (\<lambda>st b. case stage_hit exp_codes obs_codes st of None \<Rightarrow> b
      | Some seen \<Rightarrow> mark st (stage_status exp_codes obs_codes st seen) b) sts b) = clean b" for sts b
    by (rule fold_marks_clean) (simp split: option.split)
  show ?thesis
  proof (cases "exp_codes = []")
    case True
    with assms show ?thesis by (auto simp: eval_reject_stages_def)
  next
    case False
    with assms obtain b1 where
      b1: "(if \<not> list_ex (\<lambda>c. py_in c obs_codes) exp_codes then
              bindr (sort_check exp_codes) (\<lambda>_. bindr (sort_check obs_codes) (\<lambda>_.
                Inr (b\<lparr>bd_parity := bd_parity b @ [No_Expected_Code exp_codes obs_codes]\<rparr>)))
            else Inr b) = Inr b1"
      and b': "b' = fold (\<lambda>st b. case stage_hit exp_codes obs_codes st of None \<Rightarrow> b
        | Some seen \<Rightarrow> mark st (stage_status exp_codes obs_codes st seen) b) STAGE_ORDER b1"
      unfolding eval_reject_stages_def by (auto simp: bindr_Inr_iff)
    have "clean b1 \<longleftrightarrow> clean b \<and> list_ex (\<lambda>c. py_in c obs_codes) exp_codes"
      using b1 by (auto simp: bindr_Inr_iff clean_def split: if_split_asm)
    with False b' f show ?thesis by simp
  qed
qed

lemma reject_clean:
  assumes "eval_reject expected obs obs_codes sc b = Inr b'"
  shows "\<exists>exp_codes. bindr (iter_or_empty (dget expected (u ''codes''))) py_set = Inr exp_codes \<and>
    (clean b' \<longleftrightarrow> clean b \<and> ob_verdict obs = js ''invalid'' \<and>
      (exp_codes = [] \<or> list_ex (\<lambda>c. py_in c obs_codes) exp_codes) \<and> no_output obs \<and>
      (sc = None \<or> sc = Some []))"
proof -
  from assms obtain exp_codes b2 where e: "bindr (iter_or_empty (dget expected (u ''codes''))) py_set = Inr exp_codes"
    and b2: "(if ob_verdict obs \<noteq> js ''invalid'' then Inr (fails_all Expected_Invalid b)
      else bindr (eval_reject_stages exp_codes obs_codes b) (\<lambda>b1. Inr (eval_no_output obs b1))) = Inr b2"
    and b': "b' = eval_self_check sc b2"
    unfolding eval_reject_def bindr_Inr_iff [of "bindr _ _"] by (auto simp: bindr_Inr_iff)
  have "clean b2 \<longleftrightarrow> clean b \<and> ob_verdict obs = js ''invalid'' \<and>
      (exp_codes = [] \<or> list_ex (\<lambda>c. py_in c obs_codes) exp_codes) \<and> no_output obs"
    using b2 by (auto simp: bindr_Inr_iff no_output_clean reject_stages_clean split: if_split_asm)
  with e b' self_check_clean show ?thesis by auto
qed

section \<open>The indeterminate contract\<close>

lemma indeterminate_clean:
  assumes "eval_indeterminate cx expected obs obs_codes sc b = Inr b'"
  shows "\<exists>predicted. predicted_codes cx expected = Inr predicted \<and>
    (clean b' \<longleftrightarrow> clean b \<and>
      (if ob_verdict obs \<noteq> js ''invalid'' then u ''valid'' \<in> set predicted
       else (predicted = [] \<or> list_ex (\<lambda>p. JStr p \<in> set obs_codes) predicted) \<and> no_output obs) \<and>
      (sc = None \<or> sc = Some []))"
proof -
  from assms obtain predicted b3 where e: "predicted_codes cx expected = Inr predicted"
    and b3: "(if ob_verdict obs \<noteq> js ''invalid'' \<and> u ''valid'' \<in> set predicted then Inr (mark Gate0_Col PASS b)
      else if ob_verdict obs \<noteq> js ''invalid'' then Inr (fails_all Expected_Invalid b)
      else bindr (if predicted \<noteq> [] \<and> \<not> list_ex (\<lambda>p. JStr p \<in> set obs_codes) predicted then
             bindr (sort_check obs_codes) (\<lambda>_.
               Inr (fails Gate0_Col (No_Declared_Reading predicted obs_codes) (mark Gate0_Col PASS b)))
           else Inr (mark Gate0_Col PASS b)) (\<lambda>b2. Inr (eval_no_output obs b2))) = Inr b3"
    and b': "b' = eval_self_check sc b3"
    unfolding eval_indeterminate_def Let_def bindr_Inr_iff [of "predicted_codes _ _"]
    by (auto simp: bindr_Inr_iff)
  have "clean b3 \<longleftrightarrow> clean b \<and>
      (if ob_verdict obs \<noteq> js ''invalid'' then u ''valid'' \<in> set predicted
       else (predicted = [] \<or> list_ex (\<lambda>p. JStr p \<in> set obs_codes) predicted) \<and> no_output obs)"
    using b3 by (auto simp: bindr_Inr_iff no_output_clean split: if_split_asm)
  with e b' self_check_clean show ?thesis by auto
qed

section \<open>One vector\<close>

text \<open>The parts of a judgement that is not excluded.\<close>

lemma evaluate_parts:
  assumes "evaluate_vector_detailed cx kind entry obs sc = Inr ev"
    and "expected_of entry = Inr expected" and "declared_exclusion expected = None"
  shows "\<exists>codes b1 b. bindr (iter_or_empty (ob_codes obs)) py_set = Inr codes \<and>
    compare_verdict cx kind expected obs
      (eval_establishment obs (expected_verdict kind expected) blank_board) = Inr b1 \<and>
    eval_contract cx kind expected obs codes sc b1 = Inr b \<and>
    (ev_ok ev \<longleftrightarrow> clean b) \<and> ev_gates ev = bd_gates b \<and> ev_reasons ev = bd_reasons b \<and>
    ev_parity ev = bd_parity b"
proof -
  from assms obtain codes where c: "bindr (iter_or_empty (ob_codes obs)) py_set = Inr codes"
    and r: "bindr (compare_verdict cx kind expected obs
        (eval_establishment obs (expected_verdict kind expected) blank_board)) (\<lambda>b1.
      bindr (eval_contract cx kind expected obs codes sc b1) (\<lambda>b.
        Inr \<lparr>ev_ok = (bd_reasons b = [] \<and> bd_parity b = []), ev_gates = bd_gates b,
             ev_reasons = bd_reasons b, ev_parity = bd_parity b\<rparr>)) = Inr ev"
    unfolding evaluate_vector_detailed_def
    by (cases "bindr (iter_or_empty (ob_codes obs)) py_set") simp_all
  from r obtain b1 b where b: "compare_verdict cx kind expected obs
        (eval_establishment obs (expected_verdict kind expected) blank_board) = Inr b1"
      "eval_contract cx kind expected obs codes sc b1 = Inr b"
      "ev = \<lparr>ev_ok = (bd_reasons b = [] \<and> bd_parity b = []), ev_gates = bd_gates b,
             ev_reasons = bd_reasons b, ev_parity = bd_parity b\<rparr>"
    unfolding bindr_Inr_iff by auto
  with c show ?thesis unfolding clean_def by (intro exI conjI) (assumption | simp)+
qed

text \<open>The verdict of the rail was established, without a fault, whatever the key policy, and is one the
  manifest admits.\<close>

definition answered :: "ctx \<Rightarrow> ustr \<Rightarrow> jdict \<Rightarrow> observed \<Rightarrow> bool" where
  "answered cx kind expected obs \<longleftrightarrow>
     ob_errors obs = [] \<and> established obs \<and> key_independent obs \<and>
     (\<exists>vs. admissible_verdicts cx kind expected (expected_verdict kind expected) = Inr vs \<and>
       py_in (ob_verdict obs) vs)"

lemma verdict_clean:
  assumes "compare_verdict cx kind expected obs
      (eval_establishment obs (expected_verdict kind expected) blank_board) = Inr b1"
  shows "clean b1 \<longleftrightarrow> answered cx kind expected obs"
proof (cases "established obs")
  case True
  with compare_verdict_clean [OF assms] show ?thesis by (auto simp: establishment_clean answered_def)
next
  case False
  with assms have "b1 = eval_establishment obs (expected_verdict kind expected) blank_board"
    by (simp add: compare_verdict_def)
  with False show ?thesis by (simp add: establishment_clean answered_def)
qed

lemma contract_clean_start:
  assumes "eval_contract cx kind expected obs codes sc b1 = Inr b" and "clean b"
  shows "clean b1"
  using assms accept_clean indeterminate_clean reject_clean
  unfolding eval_contract_def by (metis (no_types, lifting))

lemma passed_answered:
  assumes "evaluate_vector_detailed cx kind entry obs sc = Inr ev" and "ev_ok ev"
    and "expected_of entry = Inr expected" and "declared_exclusion expected = None"
  shows "answered cx kind expected obs"
  using evaluate_parts [OF assms(1,3,4)] contract_clean_start verdict_clean assms(2) by blast

text \<open>A plain kind admits the one expected verdict.\<close>

lemma answered_plain:
  assumes "kind \<noteq> u ''indeterminate''" and "ob_verdict obs = js v"
  shows "answered cx kind expected obs \<longleftrightarrow>
    ob_errors obs = [] \<and> v \<in> {''valid'', ''invalid''} \<and> key_independent obs \<and> expected_verdict kind expected = js v"
proof -
  let ?e = "expected_verdict kind expected"
  have h: "hashable (js v)" by simp
  have eq: "py_in (js v) [?e] \<longleftrightarrow> ?e = js v" by auto
  have adm: "admissible_verdicts cx kind expected ?e = bindr (hash_check ?e) (\<lambda>_. Inr [?e])"
    using assms(1) by (simp add: admissible_verdicts_def)
  have "(\<exists>vs. admissible_verdicts cx kind expected ?e = Inr vs \<and> py_in (js v) vs) \<longleftrightarrow> ?e = js v"
    unfolding adm bindr_Inr_iff using eq h by auto
  then show ?thesis using assms(2) by (auto simp: answered_def established_def)
qed

lemma accept_passes_iff:
  assumes "evaluate_vector_detailed cx (u ''accept'') entry obs sc = Inr ev"
    and "expected_of entry = Inr expected" and "declared_exclusion expected = None"
  shows "ev_ok ev \<longleftrightarrow> ob_verdict obs = js ''valid'' \<and> expected_verdict (u ''accept'') expected = js ''valid'' \<and>
    ob_errors obs = [] \<and> key_independent obs \<and>
    (dget expected (u ''result'') = JNull \<or> py_eq (ob_result obs) (dget expected (u ''result''))) \<and>
    column_answered obs (dget expected (u ''tierWithPinnedKey'')) ''tiers_with_key'' (ob_tiers obs) \<and>
    column_answered obs (dget expected (u ''tierWithoutKey'')) ''tiers_without_key'' (ob_tiers_without obs) \<and>
    tiers_keep_result obs"
proof -
  from evaluate_parts [OF assms] obtain codes b1 b where
    v: "compare_verdict cx (u ''accept'') expected obs
      (eval_establishment obs (expected_verdict (u ''accept'') expected) blank_board) = Inr b1"
    and c: "eval_accept expected obs codes b1 = Inr b" and ok: "ev_ok ev \<longleftrightarrow> clean b"
    by (auto simp: eval_contract_def)
  have "u ''accept'' \<noteq> u ''indeterminate''" by simp
  note ans = answered_plain [OF this, of obs "''valid''" cx expected]
  show ?thesis
  proof (cases "ob_verdict obs = js ''valid''")
    case True
    then show ?thesis unfolding ok accept_clean [OF c] verdict_clean [OF v] ans [OF True] by blast
  next
    case False
    then show ?thesis unfolding ok accept_clean [OF c] by blast
  qed
qed

lemma reject_passes_iff:
  assumes "evaluate_vector_detailed cx (u ''reject'') entry obs sc = Inr ev"
    and "expected_of entry = Inr expected" and "declared_exclusion expected = None"
  shows "\<exists>exp_codes obs_codes.
    bindr (iter_or_empty (dget expected (u ''codes''))) py_set = Inr exp_codes \<and>
    bindr (iter_or_empty (ob_codes obs)) py_set = Inr obs_codes \<and>
    (ev_ok ev \<longleftrightarrow> ob_verdict obs = js ''invalid'' \<and> expected_verdict (u ''reject'') expected = js ''invalid'' \<and>
      ob_errors obs = [] \<and> key_independent obs \<and>
      (exp_codes = [] \<or> list_ex (\<lambda>c. py_in c obs_codes) exp_codes) \<and> no_output obs \<and>
      (sc = None \<or> sc = Some []))"
proof -
  from evaluate_parts [OF assms] obtain obs_codes b1 b where
    o: "bindr (iter_or_empty (ob_codes obs)) py_set = Inr obs_codes"
    and v: "compare_verdict cx (u ''reject'') expected obs
      (eval_establishment obs (expected_verdict (u ''reject'') expected) blank_board) = Inr b1"
    and c: "eval_reject expected obs obs_codes sc b1 = Inr b" and ok: "ev_ok ev \<longleftrightarrow> clean b"
    by (auto simp: eval_contract_def)
  have "u ''reject'' \<noteq> u ''indeterminate''" by simp
  note ans = answered_plain [OF this, of obs "''invalid''" cx expected]
  from reject_clean [OF c] obtain exp_codes where
    e: "bindr (iter_or_empty (dget expected (u ''codes''))) py_set = Inr exp_codes"
    and cl: "clean b \<longleftrightarrow> clean b1 \<and> ob_verdict obs = js ''invalid'' \<and>
      (exp_codes = [] \<or> list_ex (\<lambda>c. py_in c obs_codes) exp_codes) \<and> no_output obs \<and>
      (sc = None \<or> sc = Some [])" by blast
  show ?thesis
  proof (cases "ob_verdict obs = js ''invalid''")
    case True
    with e o cl ans [OF True] show ?thesis unfolding ok cl verdict_clean [OF v] by (intro exI conjI) auto
  next
    case False
    with e o show ?thesis unfolding ok cl by (intro exI conjI) auto
  qed
qed

end
