(* ===== verification/RunFacts.thy ===== *)
theory RunFacts
  imports Runner Judged
begin

text \<open>
  What a run of the conformance runner means: a run that exits with zero replayed every row of the
  manifest, every vector passed, the manifest is closed over the suite's directory, and one declared
  reading explains each family.
\<close>

section \<open>Coherence\<close>

lemma answers_all_iff: "allr p xs = Inr True \<longleftrightarrow> (\<forall>x \<in> set xs. p x = Inr True)"
proof
  assume "\<forall>x \<in> set xs. p x = Inr True"
  then have "anyr (\<lambda>x. bindr (p x) (\<lambda>b. Inr (\<not> b))) xs = Inr False"
    by (induction xs) auto
  then show "allr p xs = Inr True" by (simp add: allr_def)
qed (blast dest: allr_True)

lemma matched_readings_mem:
  assumes "matched_readings cx idx members declared = Inr ms"
  shows "name \<in> set ms \<longleftrightarrow>
    name \<in> set declared \<and> (\<forall>m \<in> set members. answers cx idx (committed_family members) name m = Inr True)"
  using filterr_mem [OF assms [unfolded matched_readings_def]] by (simp add: answers_all_iff)

text \<open>A family without a failure has a reading that explains every member.\<close>

definition explained :: "ctx \<Rightarrow> jdict \<Rightarrow> row list \<Rightarrow> bool" where
  "explained cx idx members \<longleftrightarrow>
     (\<exists>readings name. readings_of cx (dget idx (row_id (hd members))) = Inr readings \<and>
       name \<in> fst ` set readings \<and>
       (\<forall>m \<in> set members. answers cx idx (committed_family members) name m = Inr True))"

lemma judge_family_meaning:
  assumes "judge_family cx idx (family, members) = Inr n"
  shows "note_failure n = [] \<longleftrightarrow> explained cx idx members"
proof -
  from assms obtain readings ms where r: "readings_of cx (dget idx (row_id (hd members))) = Inr readings"
    and m: "matched_readings cx idx members (sort (map fst readings)) = Inr ms"
    and n: "(if ms \<noteq> [] then
         Inr (Family_Matches family ms (committed_family members \<and> length ms = 1) (length members))
       else bindr (mapr (member_answer (committed_family members)) members) (\<lambda>ans.
         Inr (Family_Fails (Incoherent_Family family ans (sort (map fst readings)))))) = Inr n"
    by (auto simp: judge_family_def bindr_Inr_iff)
  have "note_failure n = [] \<longleftrightarrow> ms \<noteq> []"
    using n by (auto simp: bindr_Inr_iff split: if_split_asm)
  moreover have "ms \<noteq> [] \<longleftrightarrow> (\<exists>name. name \<in> set ms)" by (cases ms) auto
  ultimately show ?thesis using r by (auto simp: explained_def matched_readings_mem [OF m])
qed

lemma judged_families:
  assumes "mapr (judge_family cx idx) fams = Inr judged"
  shows "concat (map note_failure judged) = [] \<longleftrightarrow> (\<forall>(f, ms) \<in> set fams. explained cx idx ms)"
  using assms
proof (induction fams arbitrary: judged)
  case (Cons fam fams)
  obtain f ms where fam: "fam = (f, ms)" by (cases fam)
  with Cons.prems obtain n js where n: "judge_family cx idx (f, ms) = Inr n"
    and js: "mapr (judge_family cx idx) fams = Inr js" "judged = n # js"
    by (auto simp: bindr_Inr_iff)
  from judge_family_meaning [OF n] Cons.IH [OF js(1)] fam js(2) show ?case by simp
qed simp

lemma tagged_mem:
  assumes "mapr (\<lambda>r. bindr (g r) (\<lambda>f. Inr (f, r))) xs = Inr tagged"
  shows "(f, r) \<in> set tagged \<longleftrightarrow> r \<in> set xs \<and> g r = Inr f"
  using assms by (induction xs arbitrary: tagged) (auto simp: bindr_Inr_iff)

text \<open>The families are the indeterminate rows grouped by their declared family.\<close>

lemma family_rows:
  assumes "families cx idx rows = Inr fams" and "(family, members) \<in> set fams"
  shows "family \<noteq> [] \<and> members \<noteq> [] \<and>
    (\<forall>r. r \<in> set members \<longleftrightarrow>
      r \<in> set rows \<and> row_kind r = u ''indeterminate'' \<and> family_of cx idx r = Inr family)"
proof -
  let ?ind = "filter (\<lambda>r. row_kind r = u ''indeterminate'') rows"
  from assms(1) obtain tagged where
    t: "mapr (\<lambda>r. bindr (family_of cx idx r) (\<lambda>f. Inr (f, r))) ?ind = Inr tagged"
    and f: "fams = sort_key fst (map (\<lambda>(f, ms). (f, map snd ms)) (group_by fst (filter (\<lambda>(f, _). f \<noteq> []) tagged)))"
    by (auto simp: families_def bindr_Inr_iff)
  from assms(2) f obtain ms where "(family, ms) \<in> set (group_by fst (filter (\<lambda>(f, _). f \<noteq> []) tagged))"
    and m: "members = map snd ms" by auto
  then have ms: "ms \<noteq> []" "ms = filter (\<lambda>x. fst x = family) (filter (\<lambda>(f, _). f \<noteq> []) tagged)"
    unfolding group_by_set by blast+
  have tag: "(f, r) \<in> set tagged \<longleftrightarrow> r \<in> set ?ind \<and> family_of cx idx r = Inr f" for f r
    by (rule tagged_mem [OF t])
  have "family \<noteq> []" using ms by (auto simp: filter_eq_Cons_iff neq_Nil_conv split_beta)
  moreover have "r \<in> set members \<longleftrightarrow> (family, r) \<in> set tagged" if "family \<noteq> []" for r
    using ms(2) m that by (force simp: image_iff)
  ultimately show ?thesis using ms(1) m tag by auto
qed

lemma coherent_families:
  assumes "family_coherence_failures cx idx rows = Inr (notes, failures)"
  shows "\<exists>fams. families cx idx rows = Inr fams \<and>
    (failures = [] \<longleftrightarrow> (\<forall>(f, ms) \<in> set fams. explained cx idx ms))"
  using assms judged_families by (fastforce simp: family_coherence_failures_def bindr_Inr_iff)

section \<open>Closure\<close>

lemma closure_flat_clean:
  assumes "closure_flat fs idx listed flat = ([], unlisted)"
  shows "unlisted = [] \<and>
    (\<forall>vid \<in> set (vector_files_in fs flat). \<exists>(kind, ids) \<in> set listed. vid \<in> set ids) \<and>
    (\<forall>(kind, ids) \<in> set listed. replayed kind \<longrightarrow> list_all (\<lambda>vid. row_file_fault fs idx vid = []) (ids_of listed kind))"
  using assms by (auto simp: closure_flat_def unlisted_files_def filter_empty_conv list_ex_iff list_all_iff)

lemma row_file_ok:
  "row_file_fault fs idx vid = [] \<longleftrightarrow>
     (\<exists>f. member (dget idx vid) ''file'' = JStr f \<and> f \<noteq> [] \<and> fs_isfile fs f)"
  by (auto simp: row_file_fault_def split: json.splits if_splits)

lemma manifest_closure_clean:
  assumes "manifest_closure fs manifest idx = Inr ([], unlisted)"
  shows "\<exists>flat counts. flat_layout idx = Inr flat \<and> closure_flat fs idx (manifest_kinds idx) flat = ([], unlisted) \<and>
    closure_kind_coverage (manifest_kinds idx)
      (if is_reference manifest then map u REPLAYED_KINDS else []) = [] \<and>
    dget manifest (u ''counts'') = JObj counts \<and>
    counts_against_rows fs counts (manifest_kinds idx) flat = []"
proof -
  from assms obtain ds cs where
    d: "closure_both_directions fs idx (manifest_kinds idx) = Inr ([], unlisted)"
    and k: "closure_kind_coverage (manifest_kinds idx)
      (if is_reference manifest then map u REPLAYED_KINDS else []) = []"
    and c: "closure_counts fs (dget manifest (u ''counts'')) (manifest_kinds idx) idx = Inr []"
    unfolding manifest_closure_def Let_def by (auto simp: bindr_Inr_iff simp del: bindr_simps split del: if_split)
  from d obtain flat where f: "flat_layout idx = Inr flat"
    "closure_flat fs idx (manifest_kinds idx) flat = ([], unlisted)"
    by (auto simp: closure_both_directions_def bindr_Inr_iff)
  from c obtain counts where "dget manifest (u ''counts'') = JObj counts"
    "counts_against_rows fs counts (manifest_kinds idx) flat = []"
    by (auto simp: closure_counts_def bindr_Inr_iff f(1) split: json.splits)
  with f k show ?thesis by blast
qed

section \<open>Rows and files\<close>

lemma index_entry_distinct: "distinct (map fst idx) \<Longrightarrow> distinct (map fst (index_entry e idx))"
  by (auto simp: index_entry_def distinct_dset split: json.splits)

lemma fold_distinct:
  assumes "\<And>x d. distinct (map fst d) \<Longrightarrow> distinct (map fst (f x d))" and "distinct (map fst d)"
  shows "distinct (map fst (fold f xs d))"
  using assms(2) by (induction xs arbitrary: d) (auto intro: assms(1))

lemma index_of_distinct: "distinct (map fst (index_of v))"
  by (cases v rule: index_of.cases)
     (auto intro!: fold_distinct simp: index_entry_distinct distinct_dset split_beta)

lemma manifest_index_distinct: "manifest_index manifest = Inr idx \<Longrightarrow> distinct (map fst idx)"
  by (auto simp: manifest_index_def bindr_Inr_iff index_of_distinct)

lemma dget_entry: "distinct (map fst idx) \<Longrightarrow> (vid, e) \<in> set idx \<Longrightarrow> dget idx vid = e"
  by (simp add: dget_def)

lemma sort_Nil: "sort xs = [] \<longleftrightarrow> xs = []"
  by (metis length_0_conv length_sort)

lemma listed_kind: "(kind, ids) \<in> set (manifest_kinds idx) \<longleftrightarrow>
    ids \<noteq> [] \<and> ids = sort (map fst (filter (\<lambda>(_, e). kind_of e = kind) idx))"
proof -
  have "(kind, ids) \<in> set (manifest_kinds idx) \<longleftrightarrow>
    (\<exists>rows. (kind, rows) \<in> set (group_by (\<lambda>(_, e). kind_of e) idx) \<and> ids = sort (map fst rows))"
    by (force simp: manifest_kinds_def)
  also have "\<dots> \<longleftrightarrow> (\<exists>rows. rows \<noteq> [] \<and> rows = filter (\<lambda>x. (case x of (_, e) \<Rightarrow> kind_of e) = kind) idx \<and>
      ids = sort (map fst rows))"
    unfolding group_by_set by blast
  finally show ?thesis by (auto simp: sort_Nil case_prod_unfold)
qed

lemma kinds_distinct: "distinct (map fst (manifest_kinds idx))"
proof -
  have "map fst (manifest_kinds idx) = map fst (group_by (\<lambda>(_, e). kind_of e) idx)"
    by (simp add: manifest_kinds_def split_beta comp_def)
  then show ?thesis using distinct_group_by by metis
qed

lemma ids_of_listed: "(kind, ids) \<in> set (manifest_kinds idx) \<Longrightarrow> ids_of (manifest_kinds idx) kind = ids"
  by (simp add: ids_of_def kinds_distinct)

lemma kind_rows: "(vid, e) \<in> set idx \<Longrightarrow> \<exists>ids. (kind_of e, ids) \<in> set (manifest_kinds idx) \<and> vid \<in> set ids"
proof -
  assume "(vid, e) \<in> set idx"
  then have "vid \<in> set (sort (map fst (filter (\<lambda>(_, e'). kind_of e' = kind_of e) idx)))" by force
  moreover from this have "sort (map fst (filter (\<lambda>(_, e'). kind_of e' = kind_of e) idx)) \<noteq> []"
    by (metis empty_iff list.set(1))
  ultimately show ?thesis unfolding listed_kind by blast
qed

lemma listed_ids: "(kind, ids) \<in> set (manifest_kinds idx) \<Longrightarrow> vid \<in> set ids \<Longrightarrow> has_key idx vid"
  unfolding listed_kind has_key_iff by force

lemma row_total: "sum_list (map (length \<circ> snd) (manifest_kinds idx)) = length idx"
proof -
  have "sum_list (map (length \<circ> snd) (manifest_kinds idx)) = size (mset (concat (map snd (manifest_kinds idx))))"
    by (simp add: length_concat comp_def)
  also have "\<dots> = length idx" unfolding manifest_kinds_rows by simp
  finally show ?thesis .
qed

text \<open>A manifest without a closure fault names every file of the vector directory, has as many rows as
  the directory has files, and each of its scored rows names a file of that directory that exists.\<close>

lemma closed_manifest_files:
  assumes "manifest_index (JObj m) = Inr idx" and "manifest_closure fs m idx = Inr ([], unlisted)"
  shows "\<exists>flat counts. flat_layout idx = Inr flat \<and> dget m (u ''counts'') = JObj counts \<and>
    (\<forall>vid \<in> set (vector_files_in fs flat). has_key idx vid) \<and>
    length (vector_files_in fs flat) = length idx \<and>
    (\<forall>(vid, e) \<in> set idx. replayed (kind_of e) \<longrightarrow>
      (\<exists>f. member e ''file'' = JStr f \<and> before 47 f = flat \<and> fs_isfile fs f)) \<and>
    (\<forall>(kind, ids) \<in> set (manifest_kinds idx). replayed kind \<longrightarrow>
      py_eq (dget counts kind) (JInt (int (length ids))))"
proof -
  let ?listed = "manifest_kinds idx"
  from manifest_closure_clean [OF assms(2)] obtain flat counts where
    flat: "flat_layout idx = Inr flat" and cf: "closure_flat fs idx ?listed flat = ([], unlisted)"
    and cs: "dget m (u ''counts'') = JObj counts" "counts_against_rows fs counts ?listed flat = []" by blast
  note c = closure_flat_clean [OF cf] and d = manifest_index_distinct [OF assms(1)]
  have files: "length (vector_files_in fs flat) = length idx"
    using cs(2) row_total [of idx] by (auto simp: counts_against_rows_def Let_def split: if_split_asm)
  have "\<exists>f. member e ''file'' = JStr f \<and> before 47 f = flat \<and> fs_isfile fs f"
    if e: "(vid, e) \<in> set idx" "replayed (kind_of e)" for vid e
  proof -
    from kind_rows [OF e(1)] obtain ids where ids: "(kind_of e, ids) \<in> set ?listed" "vid \<in> set ids" by blast
    then have "row_file_fault fs idx vid = []"
      using c e(2) ids_of_listed [OF ids(1)] by (auto simp: list_all_iff)
    then obtain f where f: "member e ''file'' = JStr f" "fs_isfile fs f"
      by (auto simp: row_file_ok dget_entry [OF d e(1)])
    with flat_layout_Inr [OF flat] e(1) show ?thesis by fastforce
  qed
  moreover have "py_eq (dget counts kind) (JInt (int (length ids)))"
    if k: "(kind, ids) \<in> set ?listed" "replayed kind" for kind ids
  proof -
    have "kind \<in> set (filter replayed (sort (map fst ?listed)))" using k by force
    then have "count_fault counts ?listed kind = []"
      using cs(2) by (auto simp: counts_against_rows_def Let_def)
    then show ?thesis using ids_of_listed [OF k(1)] by (auto simp: count_fault_def Let_def split: if_split_asm)
  qed
  moreover have "has_key idx vid" if "vid \<in> set (vector_files_in fs flat)" for vid
    using c that listed_ids by blast
  ultimately show ?thesis using flat cs(1) files by blast
qed

section \<open>The run\<close>

lemma closure_keeps_rows:
  assumes "run_manifest_closure fs manifest idx rows = Inr (rows', [])"
  shows "rows' = rows"
proof (cases "is_dict manifest")
  case True
  then obtain m where m: "manifest = JObj m" by (auto simp: is_dict_iff)
  with assms obtain unlisted where c: "manifest_closure fs m idx = Inr ([], unlisted)"
    and r: "mapr (mark_unlisted unlisted) rows = Inr rows'"
    by (auto simp: run_manifest_closure_def bindr_Inr_iff)
  from manifest_closure_clean [OF c] closure_flat_clean have "unlisted = []" by blast
  with r show ?thesis by (induction rows arbitrary: rows') (auto simp: mark_unlisted_def bindr_Inr_iff)
qed (use assms in \<open>cases manifest; simp add: run_manifest_closure_def\<close>)

lemma execution_complete:
  "verifier_execution ext rows = (executed, False) \<Longrightarrow> ext \<Longrightarrow>
   rows \<noteq> [] \<and> (\<forall>r \<in> set rows. row_ran r = Some True)"
proof -
  assume e: "verifier_execution ext rows = (executed, False)" and "ext"
  then have l: "length (filter (\<lambda>r. row_ran r = Some True) rows) = length rows" "rows \<noteq> []"
    by (auto simp: verifier_execution_def Let_def)
  then have "filter (\<lambda>r. row_ran r = Some True) rows = rows"
    by (metis length_filter_less less_irrefl filter_id_conv)
  with l(2) show ?thesis by (auto simp: filter_id_conv)
qed

text \<open>The only way to an exit status of zero.\<close>

lemma run_suite_zero:
  assumes "run_suite cx w manifest = Inr r" and "run_exit r = 0"
  shows "\<exists>idx vectors ns. manifest_index manifest = Inr idx \<and> discover_vectors cx manifest = Inr vectors \<and>
    mapr (process_vector cx w idx) vectors = Inr (run_rows r) \<and>
    run_manifest_closure (wd_fs w) manifest idx (run_rows r) = Inr (run_rows r, []) \<and>
    family_coherence_failures cx idx (run_rows r) = Inr (ns, []) \<and>
    (\<forall>x \<in> set (run_rows r). row_pass x) \<and>
    (wd_rail w \<noteq> None \<longrightarrow> run_rows r \<noteq> [] \<and> (\<forall>x \<in> set (run_rows r). row_ran x = Some True))"
proof -
  from assms(1) obtain idx vectors rows0 rows1 faults ns incoherent rows2 where
    i: "manifest_index manifest = Inr idx" "discover_vectors cx manifest = Inr vectors"
      "mapr (process_vector cx w idx) vectors = Inr rows0"
    and c: "run_manifest_closure (wd_fs w) manifest idx rows0 = Inr (rows1, faults)"
    and f: "family_coherence_failures cx idx rows1 = Inr (ns, incoherent)"
    and a: "apply_coherence incoherent rows1 = Inr rows2"
    and r: "(let (executed, short) = verifier_execution (wd_rail w \<noteq> None) rows1;
           failures = count_rows (\<lambda>r. \<not> row_pass r) rows0 + length faults + (if short then 1 else 0)
             + length incoherent
       in Inr \<lparr>run_rows = rows2, run_faults = faults, run_notes = ns, run_incoherent = incoherent,
               run_short = short, run_totals = report_totals rows2 (suite_refusals failures rows2),
               run_executed = executed, run_exit = run_exit_status failures executed\<rparr>) = (Inr r :: run res)"
    unfolding run_suite_def by (auto simp: bindr_Inr_iff simp del: bindr_simps)
  obtain executed short where e: "verifier_execution (wd_rail w \<noteq> None) rows1 = (executed, short)" by fastforce
  from r e assms(2) have z: "run_rows r = rows2"
    "run_exit_status (count_rows (\<lambda>r. \<not> row_pass r) rows0 + length faults + (if short then 1 else 0)
       + length incoherent) executed = 0"
    by (auto simp: Let_def)
  then have "count_rows (\<lambda>r. \<not> row_pass r) rows0 = 0" "faults = []" "\<not> short" "incoherent = []"
    by (auto simp: run_exit_status_def split: if_split_asm)
  moreover from this have "rows1 = rows0" using c closure_keeps_rows by blast
  moreover have "rows2 = rows1" using a \<open>incoherent = []\<close> by (simp add: apply_coherence_def)
  ultimately show ?thesis using i c f z(1) execution_complete [of "wd_rail w \<noteq> None" rows1 executed] e
    by (auto simp: count_rows_def filter_empty_conv)
qed

text \<open>A vector that passes was read, answered and judged.\<close>

lemma process_vector_pass:
  assumes "process_vector cx w idx (kind, path) = Inr r" and "row_pass r"
  shows "\<exists>raw stmt faithful obs sc ev. read_vector w path = Some (raw, stmt, faithful) \<and>
    run_observe (pinned_ctx cx) (map_option (\<lambda>rail. rail path) (wd_rail w)) stmt raw = Inr obs \<and>
    self_check cx kind (dget idx (stem (basename path))) stmt faithful = Inr sc \<and>
    evaluate_vector_detailed cx kind (dget idx (stem (basename path))) obs sc = Inr ev \<and> ev_ok ev"
  using assms
  by (auto simp: process_vector_def bindr_Inr_iff unreadable_row_def judged_row_def Let_def
      split: option.splits)

lemma zero_vector:
  assumes "run_suite cx w manifest = Inr r" and "run_exit r = 0"
    and "discover_vectors cx manifest = Inr vectors" and "(kind, path) \<in> set vectors"
    and "manifest_index manifest = Inr idx"
  shows "\<exists>raw stmt faithful obs sc ev. read_vector w path = Some (raw, stmt, faithful) \<and>
    run_observe (pinned_ctx cx) (map_option (\<lambda>rail. rail path) (wd_rail w)) stmt raw = Inr obs \<and>
    self_check cx kind (dget idx (stem (basename path))) stmt faithful = Inr sc \<and>
    evaluate_vector_detailed cx kind (dget idx (stem (basename path))) obs sc = Inr ev \<and> ev_ok ev"
proof -
  from run_suite_zero [OF assms(1,2)] assms(3,5) have
    m: "mapr (process_vector cx w idx) vectors = Inr (run_rows r)"
    and p: "\<forall>x \<in> set (run_rows r). row_pass x" by auto
  from mapr_mem [OF m assms(4)] obtain x where "x \<in> set (run_rows r)"
    "process_vector cx w idx (kind, path) = Inr x" by blast
  with p process_vector_pass show ?thesis by blast
qed

end
