(* ===== verification/RunMeaning.thy ===== *)
theory RunMeaning
  imports RunFacts
begin

text \<open>
  The composition of the runner with the reference rail, and two faults of the runner: an unreadable
  member of an indeterminate family makes the run raise, and a verdict that moves with the key policy
  leaves every column of an accept vector at PASS.
\<close>

section \<open>The reference rail behind a run\<close>

lemma py_set_strings: "\<exists>xs. py_set (map js cs) = Inr xs \<and> set xs = js ` set cs"
proof -
  have "mapr hash_check (map js cs) = Inr (map (\<lambda>_. ()) cs)" by (induction cs) auto
  moreover have "set (dedup (map js cs)) = js ` set cs" by (induction cs) (auto simp: py_in_JStr)
  ultimately show ?thesis by (simp add: py_set_def)
qed

lemma reference_codes: "iter_or_empty (ob_codes (reference_observed o1 o2)) = Inr (map js (out_codes o1))"
  by (cases "out_codes o1") (simp_all add: reference_observed_def iter_or_empty_def)

lemma reference_verdict:
  "ob_verdict (reference_observed o1 o2) = js ''valid'' \<longleftrightarrow> verdict_valid o1"
  "ob_verdict (reference_observed o1 o2) = js ''invalid'' \<longleftrightarrow> \<not> verdict_valid o1"
  by (simp_all add: reference_observed_def verdict_of_def)

lemma read_vector_bytes: "read_vector w path = Some (raw, stmt, faithful) \<Longrightarrow> fs_read (wd_fs w) path = Some raw"
  by (auto simp: read_vector_def split: option.splits if_splits sum.splits)

lemma zero_reference:
  assumes "run_suite cx w manifest = Inr r" and "run_exit r = 0" and "wd_rail w = None"
    and "discover_vectors cx manifest = Inr vectors" and "(kind, path) \<in> set vectors"
    and "manifest_index manifest = Inr idx"
    and "expected_of (dget idx (stem (basename path))) = Inr expected" and "declared_exclusion expected = None"
  shows "\<exists>raw stmt out. fs_read (wd_fs w) path = Some raw \<and>
    verify (pinned_ctx cx) stmt (Some raw) = Inr out \<and>
    (kind = u ''accept'' \<longrightarrow> verdict_valid out \<and>
      (dget expected (u ''result'') = JNull \<or> py_eq (out_result out) (dget expected (u ''result'')))) \<and>
    (kind = u ''reject'' \<longrightarrow> \<not> verdict_valid out \<and>
      (\<exists>codes. bindr (iter_or_empty (dget expected (u ''codes''))) py_set = Inr codes \<and>
        (codes = [] \<or> list_ex (\<lambda>c. py_in c (map js (out_codes out))) codes)))"
proof -
  from zero_vector [OF assms(1,2,4,5,6)] assms(3) obtain raw stmt faithful obs sc ev where
    rd: "read_vector w path = Some (raw, stmt, faithful)"
    and o: "run_observe (pinned_ctx cx) None stmt raw = Inr obs"
    and ev: "evaluate_vector_detailed cx kind (dget idx (stem (basename path))) obs sc = Inr ev" and ok: "ev_ok ev"
    by auto
  from o obtain o1 o2 where v: "verify (pinned_ctx cx) stmt (Some raw) = Inr o1" and obs: "obs = reference_observed o1 o2"
    by (auto simp: run_observe_def bindr_Inr_iff)
  have acc: "verdict_valid o1 \<and> (dget expected (u ''result'') = JNull \<or> py_eq (out_result o1) (dget expected (u ''result'')))"
    if k: "kind = u ''accept''"
  proof -
    from accept_passes_iff [OF ev [unfolded k] assms(7,8)] ok obs have
      "ob_verdict (reference_observed o1 o2) = js ''valid''"
      "dget expected (u ''result'') = JNull \<or> py_eq (ob_result (reference_observed o1 o2)) (dget expected (u ''result''))"
      by blast+
    then show ?thesis by (simp add: reference_verdict) (simp add: reference_observed_def)
  qed
  have rej: "\<not> verdict_valid o1 \<and>
      (\<exists>codes. bindr (iter_or_empty (dget expected (u ''codes''))) py_set = Inr codes \<and>
        (codes = [] \<or> list_ex (\<lambda>c. py_in c (map js (out_codes o1))) codes))" if k: "kind = u ''reject''"
  proof -
    from reject_passes_iff [OF ev [unfolded k] assms(7,8)] ok obs obtain codes got where
      c: "bindr (iter_or_empty (dget expected (u ''codes''))) py_set = Inr codes"
      and g: "bindr (iter_or_empty (ob_codes (reference_observed o1 o2))) py_set = Inr got"
      and h: "codes = [] \<or> list_ex (\<lambda>c. py_in c got) codes"
      and i: "ob_verdict (reference_observed o1 o2) = js ''invalid''" by auto
    from g obtain xs where "py_set (map js (out_codes o1)) = Inr got" by (simp add: reference_codes)
    with py_set_strings [of "out_codes o1"] have "set got = set (map js (out_codes o1))" by auto
    then have "py_in c got = py_in c (map js (out_codes o1))" for c
      unfolding py_in_def list_ex_iff by (simp only:)
    with c h i show ?thesis by (simp add: reference_verdict)
  qed
  from read_vector_bytes [OF rd] v acc rej show ?thesis by blast
qed

section \<open>An unreadable member of a family\<close>

lemma unreadable_answers:
  "row_detail r = None \<Longrightarrow> \<not> committed \<Longrightarrow> answers cx idx committed reading r \<noteq> Inr True"
  by (auto simp: answers_def bindr_Inr_iff Let_def row_verdict_def row_codes_def split: option.splits if_splits)

lemma family_listed:
  assumes "families cx idx rows = Inr fams" and "r \<in> set rows" and "row_kind r = u ''indeterminate''"
    and "family_of cx idx r = Inr family" and "family \<noteq> []"
  shows "\<exists>members. (family, members) \<in> set fams \<and> r \<in> set members"
proof -
  let ?ind = "filter (\<lambda>r. row_kind r = u ''indeterminate'') rows"
  from assms(1) obtain tagged where t: "mapr (\<lambda>r. bindr (family_of cx idx r) (\<lambda>f. Inr (f, r))) ?ind = Inr tagged"
    and fams: "fams = sort_key fst (map (\<lambda>(f, ms). (f, map snd ms)) (group_by fst (filter (\<lambda>(f, _). f \<noteq> []) tagged)))"
    by (auto simp: families_def bindr_Inr_iff)
  let ?ms = "filter (\<lambda>x. fst x = family) (filter (\<lambda>(f, _). f \<noteq> []) tagged)"
  have "(family, r) \<in> set tagged" using tagged_mem [OF t] assms by simp
  then have mem: "(family, r) \<in> set ?ms" using assms(5) by simp
  then have "?ms \<noteq> []" by (metis empty_iff empty_set)
  then have "(family, ?ms) \<in> set (group_by fst (filter (\<lambda>(f, _). f \<noteq> []) tagged))" by (simp add: group_by_set)
  then have "(family, map snd ?ms) \<in> set fams"
    unfolding fams set_sort set_map by (rule image_eqI [rotated]) simp
  moreover have "r \<in> set (map snd ?ms)" unfolding set_map by (rule image_eqI [OF _ mem]) simp
  ultimately show ?thesis by blast
qed

lemma family_explained:
  assumes "family_coherence_failures cx idx rows = Inr (ns, [])"
    and "r \<in> set rows" and "row_kind r = u ''indeterminate''"
    and "family_of cx idx r = Inr family" and "family \<noteq> []"
  shows "\<exists>members. r \<in> set members \<and> explained cx idx members \<and>
    (\<forall>m. m \<in> set members \<longleftrightarrow>
      m \<in> set rows \<and> row_kind m = u ''indeterminate'' \<and> family_of cx idx m = Inr family)"
proof -
  from coherent_families [OF assms(1)] obtain fams where f: "families cx idx rows = Inr fams"
    and e: "\<forall>(f, ms) \<in> set fams. explained cx idx ms" by blast
  from family_listed [OF f assms(2-5)] obtain members where
    m: "(family, members) \<in> set fams" "r \<in> set members" by blast
  with e family_rows [OF f m(1)] show ?thesis by blast
qed

lemma unreadable_family:
  assumes "family_coherence_failures cx idx rows = Inr (ns, fs)"
    and "r \<in> set rows" and "row_detail r = None" and "row_kind r = u ''indeterminate''"
    and "family_of cx idx r = Inr family" and "family \<noteq> []"
  shows "fs \<noteq> []"
proof
  assume "fs = []"
  with family_explained [OF _ assms(2,4,5,6)] assms(1) obtain members where
    r: "r \<in> set members" and ex: "explained cx idx members" by blast
  have "\<not> committed_family members"
    unfolding committed_family_def list_all_iff
    by (rule notI, drule bspec [OF _ r]) (simp add: assms(3) row_primary_def row_verdict_def)
  with ex r unreadable_answers [OF assms(3)] show False unfolding explained_def by blast
qed

lemma mapr_raises:
  assumes "x \<in> set xs" and "f x = Inl e" and "\<And>y e'. y \<in> set xs \<Longrightarrow> f y = Inl e' \<Longrightarrow> e' = e"
  shows "mapr f xs = Inl e"
  using assms
proof (induction xs)
  case (Cons y ys)
  note only = Cons.prems(3)
  show ?case
  proof (cases "f y")
    case (Inl e')
    then have "e' = e" by (rule only [OF list.set_intros(1)])
    with Inl show ?thesis by simp
  next
    case (Inr z)
    then have "x \<noteq> y" using Cons.prems(2) by auto
    then have "x \<in> set ys" using Cons.prems(1) by simp
    from Cons.IH [OF this Cons.prems(2) only [OF list.set_intros(2)]] Inr show ?thesis by simp
  qed
qed simp

lemma unreadable_member_raises:
  assumes "family_coherence_failures cx idx rows = Inr (ns, fs)"
    and "r \<in> set rows" and "row_detail r = None" and "row_kind r = u ''indeterminate''"
    and "family_of cx idx r = Inr family" and "family \<noteq> []"
  shows "apply_coherence fs rows = Inl KeyError"
proof -
  have "fs \<noteq> []" by (rule unreadable_family [OF assms])
  moreover have "mapr (\<lambda>r. if row_kind r = u ''indeterminate'' then fail_row fs r else Inr r) rows = Inl KeyError"
    by (rule mapr_raises [OF assms(2)])
       (use assms(3,4) in \<open>auto simp: fail_row_def split: if_splits option.splits\<close>)
  ultimately show ?thesis by (simp add: apply_coherence_def)
qed

section \<open>Columns of an accept vector\<close>

lemma column_answered_board:
  "eval_tier_column obs field e k t b = Inr b' \<Longrightarrow> column_answered obs e k t \<Longrightarrow> b' = b"
  by (auto simp: eval_tier_column_def column_answered_def bindr_Inr_iff split: if_split_asm)

lemma accept_columns:
  assumes "evaluate_vector_detailed cx (u ''accept'') entry obs sc = Inr ev"
    and "expected_of entry = Inr expected" and "declared_exclusion expected = None"
    and "ob_verdict obs = js ''valid''"
    and "dget expected (u ''result'') = JNull \<or> py_eq (ob_result obs) (dget expected (u ''result''))"
    and "column_answered obs (dget expected (u ''tierWithPinnedKey'')) ''tiers_with_key'' (ob_tiers obs)"
    and "column_answered obs (dget expected (u ''tierWithoutKey'')) ''tiers_without_key'' (ob_tiers_without obs)"
    and "tiers_keep_result obs"
    and "g \<in> {Gate0_Col, Gate1_Col, Recompute_Col, Tier_Col}"
  shows "ev_gates ev g = PASS"
proof -
  from evaluate_parts [OF assms(1-3)] obtain codes b1 b where
    c: "eval_accept expected obs codes b1 = Inr b" and g: "ev_gates ev = bd_gates b"
    by (auto simp: eval_contract_def)
  let ?b = "fold (\<lambda>g. mark g PASS) [Gate0_Col, Gate1_Col, Recompute_Col, Tier_Col] b1"
  from c assms(4,5) have "eval_accept_tiers expected obs ?b = Inr b"
    by (auto simp: eval_accept_def Let_def)
  then obtain b2 b3 where
    "eval_tier_column obs ''tierWithPinnedKey'' (dget expected (u ''tierWithPinnedKey'')) ''tiers_with_key''
      (ob_tiers obs) ?b = Inr b2"
    "eval_tier_column obs ''tierWithoutKey'' (dget expected (u ''tierWithoutKey'')) ''tiers_without_key''
      (ob_tiers_without obs) b2 = Inr b3"
    "b = eval_tier_result_invariance obs b3"
    unfolding eval_accept_tiers_def by (auto simp: bindr_Inr_iff simp del: fold.simps)
  moreover from this column_answered_board assms(6,7) have "b3 = ?b" by blast
  moreover have "eval_tier_result_invariance obs ?b = ?b"
    using assms(8) by (auto simp: eval_tier_result_invariance_def tiers_keep_result_def)
  ultimately have "b = ?b" by simp
  with assms(9) g show ?thesis by auto
qed

end
