(* ===== verification/ScanFacts.thy ===== *)
theory ScanFacts
  imports FaultScan ValidStatement
begin

text \<open>
  The single-fault scan against the verifier: the scan recomputes the batch root, the vocabulary digest
  and the corpus digest on its own, and on a statement the verifier accepts it finds no fault of the
  three. The scan of a corpus manifest that holds a surrogate raises.
\<close>

lemma valid_no_root_fault:
  assumes "valid_state cx stmt raw out st"
  shows "sfa_batch_root cx (stmt_pred stmt) expected fs = Inr fs"
proof (cases "stmt_records stmt = []")
  case True
  then show ?thesis
    by (auto simp: sfa_batch_root_def stmt_records_def split: json.splits)
next
  case False
  note read = valid_records_read [OF assms]
  then have "st_has_records st" using False by simp
  from valid_records [OF assms this] valid_pred [OF assms] obtain r where
    v: "list_all (\<lambda>v. rv_pae v \<noteq> None \<and> rv_sigs v \<noteq> 0 \<and> \<not> rv_decode_err v) (st_views st)"
    and r: "dget (stmt_pred stmt) (u ''batchRoot'') = JStr r"
      "merkle_root_hex (cx_sha256 cx) (map pae_of (st_views st)) = Inr r" by auto
  from v have "list_all (\<lambda>v. rv_pae v \<noteq> None) (st_views st)" by (auto simp: list_all_iff)
  with r read have "sfa_root_recompute cx (stmt_records stmt) r fs = Inr fs"
    by (simp add: sfa_root_recompute_def read_views_def pae_leaves_all)
  with r(1) show ?thesis
    by (auto simp: sfa_batch_root_def stmt_records_def split: json.splits)
qed

lemma valid_no_vocabulary_fault:
  assumes "valid_state cx stmt raw out st"
  shows "sfa_vocabulary cx (stmt_env stmt) expected fs = Inr fs"
proof -
  from valid_vocabulary [OF assms] obtain ls cs b where
    l: "member (stmt_vocab stmt) ''labels'' = JArr (map JStr ls)"
    and c: "member (stmt_vocab stmt) ''caught'' = JArr (map JStr cs)"
    and b: "jcs_dumps (JObj [(u ''caught'', JArr (map JStr cs)), (u ''labels'', JArr (map JStr ls))]) = Inr b"
      "digest_of (stmt_vocab stmt) = JStr (sha256_hex cx b)" by blast
  then obtain vocab where v: "stmt_vocab stmt = JObj vocab" by (cases "stmt_vocab stmt") auto
  with l c b show ?thesis
    by (simp add: sfa_vocabulary_def stmt_vocab_def [symmetric])
qed

lemma corpus_manifest_digest:
  assumes "check_corpus cx s [] = Inr (s', [])"
    and "dget (st_env s) (u ''corpus'') = JObj corpus" and "dget corpus (u ''manifest'') = JObj manifest"
  shows "\<exists>b. jcs_dumps (JObj manifest) = Inr b \<and> digest_of (JObj corpus) = JStr (sha256_hex cx b)"
proof -
  let ?k = "dget manifest (u ''classes'')"
  from assms obtain c2 c4 d e where
    d: "corpus_digest cx (JObj corpus) (JObj manifest) [] = Inr c2"
    and 1: "(if is_dict ?k then corpus_dupes [] (manifest_ids (as_dict ?k)) (corpus_declares_attack ?k c2)
      else Inr (corpus_declares_attack ?k c2)) = Inr c4"
    and 2: "corpus_expected (JObj manifest) d c4 = Inr (e, [])"
    unfolding check_corpus_def Let_def assms(2) member.simps assms(3)
    by (auto simp: bindr_Inr_iff add_if_def simp del: corpus_dupes.simps split del: if_split)
  have "c4 = []" using corpus_expected_extends [OF 2] by simp
  with corpus_dupes_if_extends [OF 1] have "corpus_declares_attack ?k c2 = []" by simp
  then have "c2 = []" using declares_extends [OF extends_refl, of c2 ?k] by simp
  with d show ?thesis by (auto simp: corpus_digest_def exceptr_Inr_iff bindr_Inr_iff)
qed

lemma valid_no_corpus_fault:
  assumes "valid_state cx stmt raw out st"
  shows "sfa_corpus cx (stmt_env stmt) expected fs = Inr fs"
proof -
  from assms obtain st0 ss where r: "clean_run cx st0 ss" "ss ! 13 = st" by (rule valid_state_run)
  from clean_final(12) [OF r] obtain s s' where c: "check_corpus cx s [] = Inr (s', [])" "same_gate0 s st" by blast
  then have env: "st_env s = stmt_env stmt" using valid_env [OF assms] by (simp add: same_defs)
  show ?thesis
  proof (cases "\<exists>corpus manifest. dget (stmt_env stmt) (u ''corpus'') = JObj corpus \<and>
      dget corpus (u ''manifest'') = JObj manifest")
    case True
    then obtain corpus manifest where m: "dget (stmt_env stmt) (u ''corpus'') = JObj corpus"
      "dget corpus (u ''manifest'') = JObj manifest" by blast
    from corpus_manifest_digest [OF c(1)] m env obtain b where
      "jcs_dumps (JObj manifest) = Inr b" "digest_of (JObj corpus) = JStr (sha256_hex cx b)" by auto
    with m show ?thesis by (simp add: sfa_corpus_def)
  qed (auto simp: sfa_corpus_def split: json.splits)
qed

lemma valid_scan:
  assumes "verify cx stmt raw = Inr out" and "verdict_valid out"
    and "expects expected ''binding'' \<or> \<not> list_ex (\<lambda>r. dget r (u ''basis'') = js ''substrate'') (stmt_rows stmt)"
  shows "second_fault_absence cx stmt expected = Inr []"
proof -
  obtain st where st: "valid_state cx stmt raw out st" using valid_state_exists [OF assms(1,2)] by blast
  have b: "sfa_binding cx s (stmt_pred stmt) env expected fs = Inr fs" for s env fs
    using assms(3) by (auto simp: sfa_binding_def stmt_rows_def Let_def)
  show ?thesis
    using valid_no_root_fault [OF st] valid_no_vocabulary_fault [OF st] valid_no_corpus_fault [OF st] b
    by (auto simp: second_fault_absence_def stmt_pred_def stmt_env_def split: json.splits)
qed

section \<open>A surrogate in the corpus manifest\<close>

text \<open>\<open>_sfa_vocabulary\<close> answers an encoding error, \<open>_sfa_corpus\<close> lets it escape.\<close>

lemma surrogate_manifest_raises:
  assumes "surrogate c"
  shows "second_fault_absence cx (JObj [(u ''predicate'', JObj [(u ''observationEnvironment'',
      JObj [(u ''corpus'', JObj [(u ''manifest'', JObj [([c], JNull)])])])])]) [] = Inl UnicodeEncodeError"
  using assms
  by (simp add: second_fault_absence_def sfa_batch_root_def sfa_vocabulary_def sfa_corpus_def expects_def
      jcs_dumps_def has_surrogate_def list_ex_iff)

end
