(* ===== verification/Example.thy ===== *)
theory Example
  imports ValidStatement ParsedValue
begin

text \<open>
  A concrete statement the reference verifier accepts, for the witnesses: two attacks, a clean row
  covered by an arming and a sealed record, a caught row covered by an interception record. The hash
  functions of its context are constant, so every carried digest is the same string; the payloads are
  the canonical bytes of their objects.
\<close>

section \<open>The statement\<close>

text \<open>The encoding of the neutral point, as a public key, and a signature that verifies under it when the
  hash of every message is zero.\<close>

definition ident_key :: bytes where
  "ident_key = 1 # replicate 31 0"

definition ident_sig :: bytes where
  "ident_sig = ident_key @ replicate 32 0"

definition toy_ctx :: ctx where
  "toy_ctx = \<lparr>cx_sha256 = (\<lambda>b. replicate 32 0), cx_sha512 = (\<lambda>b. replicate 64 0),
     cx_repr = (\<lambda>v. []), cx_pins = [ident_key]\<rparr>"

definition zeros :: ustr where
  "zeros = replicate 64 48"

definition digest_member :: "ustr \<times> json" where
  "digest_member = (u ''digest'', JObj [(u ''sha256'', JStr zeros)])"

definition arming_payload :: jdict where
  "arming_payload =
     [(u ''aeeAssessedAttacks'', JArr [js ''a1'', js ''a2'']),
      (u ''aeeKind'', js ''arming''),
      (u ''aeeMethod'', js ''intercepted''),
      (u ''aeePostureDigest'', JStr zeros),
      (u ''aeeRunBinding'', JStr zeros),
      (u ''armedAt'', js ''2026-01-02T03:04:05Z'')]"

definition sealed_payload :: jdict where
  "sealed_payload =
     [(u ''aeeDropCount'', JInt 0),
      (u ''aeeKind'', js ''sealed''),
      (u ''aeeMethod'', js ''intercepted''),
      (u ''aeeObservedAttacks'', JArr [js ''a2'']),
      (u ''aeeObservedSet'', JStr zeros),
      (u ''aeePostureDigest'', JStr zeros),
      (u ''aeeRunBinding'', JStr zeros),
      (u ''aeeStillArmed'', JBool True)]"

definition interception_payload :: jdict where
  "interception_payload =
     [(u ''aeeKind'', js ''interception''),
      (u ''aeeMethod'', js ''intercepted''),
      (u ''aeePayloadCommitment'', JArr [JStr zeros]),
      (u ''aeeRunBinding'', JStr zeros)]"

definition toy_record :: "jdict \<Rightarrow> json" where
  "toy_record d =
     JObj [(u ''payloadType'', js ''application/x+json''),
           (u ''payload'', JStr (b64encode (payload_bytes d))),
           (u ''signatures'', JArr [JObj [(u ''sig'', JStr (b64encode ident_sig))]])]"

definition clean_row :: json where
  "clean_row =
     JObj [(u ''attackId'', js ''a1''), (u ''containmentObserved'', js ''blocked''),
           (u ''basis'', js ''substrate''), (u ''method'', js ''intercepted''),
           (u ''attribution'', js ''paired''), (u ''actualLayer'', js ''none''),
           (u ''observationRefs'', JArr [JInt 0, JInt 1])]"

definition caught_row :: json where
  "caught_row =
     JObj [(u ''attackId'', js ''a2''), (u ''containmentObserved'', js ''caught''),
           (u ''basis'', js ''substrate''), (u ''method'', js ''intercepted''),
           (u ''attribution'', js ''pinned''), (u ''actualLayer'', js ''kernel''),
           (u ''observationRefs'', JArr [JInt 2])]"

definition toy_env :: jdict where
  "toy_env =
     [(u ''substrate'', JObj [digest_member]),
      (u ''catchPolicy'', JObj [digest_member]),
      (u ''runEntropy'', JObj [digest_member]),
      (u ''networkPosture'', JObj [(u ''posture'', js ''sinkhole''), digest_member]),
      (u ''corpus'', JObj
        [(u ''manifest'', JObj
           [(u ''classes'', JObj [(u ''XA'', JArr [js ''a1'', js ''a2''])]),
            (u ''expectedPayloads'', JObj [(u ''a2'', JArr [JStr zeros])])]),
         digest_member]),
      (u ''observationVocabulary'', JObj
        [(u ''labels'', JArr [js ''blocked'', js ''caught'']),
         (u ''caught'', JArr [js ''caught'']), digest_member])]"

definition toy_pred :: "string \<Rightarrow> jdict" where
  "toy_pred result =
     [(u ''result'', js result), (u ''issuedAt'', js ''2026-01-02T03:04:06Z''),
      (u ''observationEnvironment'', JObj toy_env),
      (u ''coverage'', JObj [(u ''assessedClasses'', JArr [js ''XA''])]),
      (u ''attackResults'', JArr [clean_row, caught_row]),
      (u ''observationRecords'', JArr (map toy_record [arming_payload, sealed_payload, interception_payload])),
      (u ''batchRoot'', JStr zeros)]"

definition toy_stmt :: "string \<Rightarrow> json" where
  "toy_stmt result =
     JObj [(u ''_type'', js STATEMENT_TYPE), (u ''predicateType'', js AEE_PREDICATE_TYPE),
           (u ''subject'', JArr [JObj [digest_member]]), (u ''predicate'', JObj (toy_pred result))]"

section \<open>Its parts\<close>

text \<open>Strings that serialize as themselves.\<close>

definition printable :: "ustr \<Rightarrow> bool" where
  "printable s \<longleftrightarrow> list_all (\<lambda>c. 32 \<le> c \<and> c < 127 \<and> c \<noteq> 34 \<and> c \<noteq> 92) s"

lemma printable_u [simp]:
  "printable (u s) \<longleftrightarrow> list_all (\<lambda>c. 32 \<le> (of_char c :: nat) \<and> (of_char c :: nat) < 127 \<and>
     (of_char c :: nat) \<noteq> 34 \<and> (of_char c :: nat) \<noteq> 92) s"
  by (simp add: printable_def u_def list_all_iff)

lemma printable_string: "printable s \<Longrightarrow> jcs_string s = [34] @ s @ [34]"
  by (induction s) (auto simp: printable_def jcs_string_def jcs_char_def)

lemma printable_good: "printable s \<Longrightarrow> list_all good_cp s"
  by (auto simp: printable_def list_all_iff good_cp_def is_noncharacter_def)

lemma enc_ascii: "list_all (\<lambda>c. c < 128) s \<Longrightarrow> enc s = s"
  by (induction s) auto

fun simple :: "json \<Rightarrow> bool" where
  "simple (JFloat f) = False"
| "simple (JInt i) = (i = 0)"
| "simple (JStr s) = printable s"
| "simple (JArr xs) = list_all simple xs"
| "simple (JObj d) = list_all (\<lambda>(k, v). printable k \<and> simple v) d"
| "simple _ = True"

fun weight :: "json \<Rightarrow> nat" where
  "weight (JStr s) = length s + 2"
| "weight (JArr xs) = sum_list (map weight xs) + length xs + 2"
| "weight (JObj d) = sum_list (map (\<lambda>(k, v). length k + weight v) d) + 4 * length d + 2"
| "weight _ = 5"

lemma length_join: "length (join_with [44] xs) \<le> sum_list (map length xs) + length xs"
  by (induction "[44 :: nat]" xs rule: join_with.induct) auto

lemma join_ascii:
  "(\<And>x. x \<in> set xs \<Longrightarrow> list_all P x) \<Longrightarrow> P 44 \<Longrightarrow> list_all P (join_with [44] xs)"
  by (induction "[44 :: nat]" xs rule: join_with.induct) auto

lemma printable_ascii: "printable s \<Longrightarrow> list_all (\<lambda>c. c < 128) s"
  by (auto simp: printable_def list_all_iff)

lemma simple_text:
  "simple v \<Longrightarrow> list_all (\<lambda>c. c < 128) (text_of v) \<and> length (text_of v) \<le> weight v"
proof (induction v)
  case (JInt i)
  then show ?case by (simp add: int_str_def nat_str.simps)
next
  case (JStr s)
  then show ?case by (simp add: printable_string printable_ascii)
next
  case (JArr xs)
  then have "list_all (\<lambda>c. c < 128) (join_with [44] (map text_of xs))"
    by (intro join_ascii) (auto simp: list_all_iff)
  moreover have "sum_list (map (length \<circ> text_of) xs) \<le> sum_list (map weight xs)"
    using JArr by (intro sum_list_mono) (auto simp: list_all_iff)
  ultimately show ?case using length_join [of "map text_of xs"] by simp
next
  case (JObj d)
  let ?t = "\<lambda>(k, v). jcs_string k @ [58] @ text_of v"
  have m: "list_all (\<lambda>c. c < 128) (?t p) \<and> length (?t p) \<le> (case p of (k, v) \<Rightarrow> length k + weight v + 3)"
    if "p \<in> set d" for p
    using JObj that by (cases p) (fastforce simp: list_all_iff printable_string dest: printable_ascii)
  then have "list_all (\<lambda>c. c < 128) (join_with [44] (map ?t d))"
    by (intro join_ascii) auto
  moreover have "sum_list (map (length \<circ> ?t) d) \<le> sum_list (map (\<lambda>(k, v). length k + weight v + 3) d)"
    using m by (intro sum_list_mono) fastforce
  moreover have "sum_list (map (\<lambda>(k, v). length k + weight v + 3) d)
      = sum_list (map (\<lambda>(k, v). length k + weight v) d) + 3 * length d"
    by (induction d) auto
  ultimately show ?case using length_join [of "map ?t d"] by simp
qed (simp_all add: u_def)

lemma simple_bounds:
  assumes "simple (JObj d)" and "canonical (JObj d)" and "member_names_bmp (JObj d)"
    and "nesting (JObj d) \<le> 128" and "weight (JObj d) \<le> 20971520"
  shows "payload_bounds d"
proof -
  have "length (enc (text_of (JObj d))) \<le> weight (JObj d)"
    using simple_text [OF assms(1)] enc_ascii [of "text_of (JObj d)"] by simp
  then show ?thesis using assms
    by (simp add: payload_bounds_def payload_bytes_def MAX_PARSE_DEPTH_def MAX_PARSE_BYTES_def del: canonical.simps)
qed

lemma member_order_sorted: "sorted (map (\<lambda>p. utf16_bytes (fst p)) d) \<Longrightarrow> member_order d = d"
  unfolding member_order_def by (rule sort_key_id_if_sorted)

lemma hex_of_zeros: "hex_of (replicate n 0) = replicate (2 * n) 48"
  by (induction n) (simp_all add: hex_digit_def)

lemma toy_hash [simp]: "sha256_hex toy_ctx b = zeros"
  by (simp add: sha256_hex_def toy_ctx_def zeros_def hex_of_zeros)

lemma zeros_digest [simp]: "is_hex64_lower (JStr zeros)"
  by code_simp

lemma zeros_printable [simp]: "printable zeros"
  by (simp add: printable_def zeros_def list_all_iff)

lemma length_zeros [simp]: "length zeros = 64"
  by (simp add: zeros_def)

lemma of_char_bound: "(of_char c :: nat) < 256"
  using is_bytes_u [of "[c]"] by (simp add: u_def)

lemma utf16_char: "utf16_cp (of_char c) = [0, of_char c]"
  using of_char_bound [of c] order_less_trans [OF of_char_bound [of c], of 65536]
  by (simp add: utf16_cp_def)

lemma utf16_le_u [simp]:
  "utf16_bytes (u []) \<le> k"
  "\<not> utf16_bytes (u (c # s)) \<le> utf16_bytes (u [])"
  "utf16_bytes (u (c # s)) \<le> utf16_bytes (u (d # t)) \<longleftrightarrow>
     (of_char c :: nat) < of_char d \<or> c = d \<and> utf16_bytes (u s) \<le> utf16_bytes (u t)"
  by (auto simp: u_def utf16_char inj_eq [OF inj_of_char])

lemma bmp_u [simp]: "list_all (\<lambda>c. c \<le> 65535) (u s)"
proof -
  have "(of_char c :: nat) \<le> 65535" for c using of_char_bound [of c] by linarith
  then show ?thesis by (simp add: u_def list_all_iff)
qed

lemma bmp_char [simp]: "all_bmp [u s]"
  by (simp add: all_bmp_def)

lemma toy_payloads:
  "list_all (\<lambda>d. payload_bounds d \<and> simple (JObj d)) [arming_payload, sealed_payload, interception_payload]"
  by (auto intro!: simple_bounds member_order_sorted
      simp: arming_payload_def sealed_payload_def interception_payload_def printable_good
        SAFE_INT_LIMIT_def)

lemma toy_payload_parsed: "strict_payload_parse (payload_bytes interception_payload) = Inr interception_payload"
proof -
  have "payload_bounds interception_payload" using toy_payloads by simp
  then show ?thesis by (rule strict_parse_of_canonical)
qed

section \<open>Its records\<close>

definition toy_type :: string where
  "toy_type = ''application/x+json''"

definition toy_pae :: "jdict \<Rightarrow> bytes" where
  "toy_pae d = u ''DSSEv1 '' @ nat_str (length toy_type) @ u '' '' @ u toy_type @ u '' ''
     @ nat_str (length (payload_bytes d)) @ u '' '' @ payload_bytes d"

definition toy_view :: "nat \<Rightarrow> jdict \<Rightarrow> view" where
  "toy_view i d =
     \<lparr>rv_idx = i, rv_raw = toy_record d, rv_type = js toy_type, rv_bytes = Some (payload_bytes d),
      rv_pae = Some (toy_pae d), rv_payload = Some d, rv_error = None, rv_decode_err = False,
      rv_media_ok = True, rv_sigs = 1\<rparr>"

lemma utf8_u: "list_all (\<lambda>c. (of_char c :: nat) < 128) s \<Longrightarrow> utf8_encode (u s) = Inr (u s)"
  using enc_ascii [of "u s"] scalar_no_surrogate [of "u s"]
  by (simp add: utf8_encode_def u_def list_all_iff)

lemma simple_bytes: "simple (JObj d) \<Longrightarrow> is_bytes (payload_bytes d)"
  using simple_text [of "JObj d"] enc_ascii [of "text_of (JObj d)"]
  by (auto simp: payload_bytes_def is_bytes_def list_all_iff)

lemma toy_pae_of: "pae (u toy_type) (payload_bytes d) = Inr (toy_pae d)"
  by (simp add: pae_def toy_pae_def utf8_u toy_type_def)

lemma toy_type_scalar: "list_all scalar (u toy_type)"
  by (simp add: toy_type_def u_def)

lemma toy_record_view:
  assumes "payload_bounds d" and "simple (JObj d)"
  shows "record_view i (toy_record d) = Inr (toy_view i d)"
proof -
  have "strict_b64decode (b64encode (payload_bytes d)) = Inr (payload_bytes d)"
    using simple_bytes [OF assms(2)] by (simp add: strict_b64decode_iff)
  moreover note toy_pae_of [of d]
  moreover have "media_type_ok (js toy_type)"
    by (simp add: toy_type_def ends_with_def u_def)
  ultimately show ?thesis
    using strict_parse_of_canonical [OF assms(1)]
    by (simp add: record_view_def toy_record_def toy_view_def view_pae_def view_payload_def toy_type_def Let_def)
qed

lemma toy_pae_eq:
  assumes "payload_bounds d" "payload_bounds e"
  shows "toy_pae d = toy_pae e \<longleftrightarrow> d = e"
proof
  assume eq: "toy_pae d = toy_pae e"
  then have "payload_bytes d = payload_bytes e" using toy_pae_of toy_type_scalar pae_inj by metis
  then show "d = e" using strict_parse_of_canonical assms by (metis sum.inject(2))
qed simp

lemma toy_merkle: "ls \<noteq> [] \<Longrightarrow> merkle_root_hex (cx_sha256 toy_ctx) ls = Inr zeros"
  by (cases ls; cases "tl ls")
     (simp_all add: merkle_root_hex_def merkle_node.simps [of _ "_ # _"] toy_ctx_def Let_def
       hex_of_zeros zeros_def)

definition toy_views :: "view list" where
  "toy_views = [toy_view 0 arming_payload, toy_view 1 sealed_payload, toy_view 2 interception_payload]"

lemma toy_record_views:
  "mapr (\<lambda>(i, rec). record_view i rec)
     (enumerate 0 (map toy_record [arming_payload, sealed_payload, interception_payload])) = Inr toy_views"
  using toy_payloads by (simp add: toy_record_view toy_views_def numeral_2_eq_2)

lemma toy_distinct:
  "sealed_payload \<noteq> arming_payload" "interception_payload \<noteq> sealed_payload"
  "interception_payload \<noteq> arming_payload"
  by (simp_all add: arming_payload_def sealed_payload_def interception_payload_def)

lemma toy_no_duplicates: "records_duplicates toy_ctx toy_views [] = Inr []"
  using toy_payloads toy_distinct
  by (simp add: records_duplicates_def record_duplicate_def record_key_def toy_views_def toy_view_def
      toy_pae_eq add_if_def)

section \<open>The run\<close>

definition toy_0 :: vstate where
  "toy_0 = (init_state (as_dict (toy_stmt ''fail'')))\<lparr>st_pred := toy_pred ''fail''\<rparr>"

definition toy_vocab :: jdict where
  "toy_vocab = as_dict (dget toy_env (u ''observationVocabulary''))"

definition toy_1 :: vstate where
  "toy_1 = toy_0\<lparr>st_result := js ''fail'', st_issued_at := js ''2026-01-02T03:04:06Z'', st_env := toy_env,
     st_vocab := Some toy_vocab\<rparr>"

definition toy_2 :: vstate where
  "toy_2 = toy_1\<lparr>st_labels := Some [js ''blocked'', js ''caught''], st_caught := Some [js ''caught'']\<rparr>"

definition toy_classes :: jdict where
  "toy_classes = [(u ''XA'', JArr [js ''a1'', js ''a2''])]"

definition toy_3 :: vstate where
  "toy_3 = toy_2\<lparr>st_classes := Some toy_classes, st_declared := [u ''a1'', u ''a2''],
     st_expected := JObj [(u ''a2'', JArr [JStr zeros])]\<rparr>"

definition toy_4 :: vstate where
  "toy_4 = toy_3\<lparr>st_rows := [as_dict clean_row, as_dict caught_row], st_has_substrate := True\<rparr>"

definition toy_5 :: vstate where
  "toy_5 = toy_4\<lparr>st_coverage := JObj [(u ''assessedClasses'', JArr [js ''XA''])]\<rparr>"

definition toy_6 :: vstate where
  "toy_6 = toy_5\<lparr>st_has_records := True, st_views := toy_views\<rparr>"

definition toy_7 :: vstate where
  "toy_7 = toy_6\<lparr>st_binding := JStr zeros\<rparr>"

definition toy_8 :: vstate where
  "toy_8 = toy_7\<lparr>st_posture := JStr zeros,
     st_covering := [(0, [toy_view 0 arming_payload, toy_view 1 sealed_payload]),
                     (1, [toy_view 2 interception_payload])]\<rparr>"

lemmas toy_states = toy_0_def toy_1_def toy_2_def toy_3_def toy_4_def toy_5_def toy_6_def toy_7_def toy_8_def

lemma toy_times [simp]:
  "timestamp_ok (js ''2026-01-02T03:04:05Z'')" "timestamp_ok (js ''2026-01-02T03:04:06Z'')"
  "\<not> later (u ''2026-01-02T03:04:05Z'') (u ''2026-01-02T03:04:06Z'')"
  by code_simp+

declare timestamp_ok.simps [simp del] is_hex64_lower.simps [simp del] digest_of.simps [simp del]

text \<open>The members the checks read.\<close>

lemma toy_pred_members [simp]:
  "dget (toy_pred r) (u ''result'') = js r"
  "dget (toy_pred r) (u ''issuedAt'') = js ''2026-01-02T03:04:06Z''"
  "dget (toy_pred r) (u ''observationEnvironment'') = JObj toy_env"
  "dget (toy_pred r) (u ''coverage'') = JObj [(u ''assessedClasses'', JArr [js ''XA''])]"
  "dget (toy_pred r) (u ''attackResults'') = JArr [clean_row, caught_row]"
  "dget (toy_pred r) (u ''observationRecords'') =
     JArr (map toy_record [arming_payload, sealed_payload, interception_payload])"
  "dget (toy_pred r) (u ''batchRoot'') = JStr zeros"
  "\<not> has_key (toy_pred r) (u ''does_not_assert'')"
  "has_key (toy_pred r) (u ''attackResults'')" "has_key (toy_pred r) (u ''result'')"
  by (simp_all add: toy_pred_def)

lemma toy_env_members [simp]:
  "dget toy_env (u ''substrate'') = JObj [digest_member]"
  "dget toy_env (u ''catchPolicy'') = JObj [digest_member]"
  "dget toy_env (u ''runEntropy'') = JObj [digest_member]"
  "dget toy_env (u ''networkPosture'') = JObj [(u ''posture'', js ''sinkhole''), digest_member]"
  "has_key toy_env (u ''substrate'')" "has_key toy_env (u ''catchPolicy'')"
  "has_key toy_env (u ''runEntropy'')" "has_key toy_env (u ''networkPosture'')"
  "has_key toy_env (u ''corpus'')" "dget toy_env (u ''observationVocabulary'') = JObj toy_vocab"
  by (simp_all add: toy_env_def toy_vocab_def)

lemma toy_type_step: "check_statement_type (toy_stmt ''fail'') [] = (Some toy_0, [])"
  by (simp add: toy_0_def toy_stmt_def check_statement_type_def)

lemma toy_gate0: "check_gate0_wellformed toy_0 [] = Inr (toy_1, [])"
proof -
  have "st_pred toy_0 = toy_pred ''fail''" by (simp add: toy_0_def)
  moreover have "in_keys (js ''fail'') RESULT_ORDER = Inr True" by (simp add: in_keys_Inr RESULT_ORDER_def)
  ultimately show ?thesis
    by (simp add: check_gate0_wellformed_def toy_1_def
        issued_at_codes_def environment_codes_def posture_codes_def EGRESS_POSTURES_def add_if_def)
qed

lemma digest_simps [simp]:
  "digest_of (JObj [digest_member]) = JStr zeros"
  "k \<noteq> u ''digest'' \<Longrightarrow> digest_of (JObj [(k, v), digest_member]) = JStr zeros"
  by (simp_all add: digest_member_def digest_of.simps)

lemma dump_labels:
  "\<exists>b. jcs_dumps (JObj [(u ''caught'', JArr [js ''caught'']), (u ''labels'', JArr [js ''blocked'', js ''caught''])]) = Inr b"
proof -
  have "canonical (JObj [(u ''caught'', JArr [js ''caught'']), (u ''labels'', JArr [js ''blocked'', js ''caught''])])"
    by (simp add: printable_good member_order_sorted)
  then show ?thesis using jcs_dumps_text by blast
qed

lemma sort_key_u [simp]: "utf16_sort_key (u s) = Inr (utf16_bytes (u s))" if "list_all (\<lambda>c. (of_char c :: nat) < 128) s"
  using that scalar_no_surrogate [of "u s"] by (simp add: utf16_sort_key_def u_def list_all_iff)

lemma zeros_sort_key: "\<exists>k. utf16_sort_key zeros = Inr k"
  using scalar_no_surrogate [of zeros] by (auto simp: utf16_sort_key_def zeros_def list_all_iff)

lemma toy_vocabulary: "check_vocabulary toy_ctx toy_1 [] = Inr (toy_2, [])"
proof -
  let ?l = "JArr [js ''blocked'', js ''caught'']" and ?c = "JArr [js ''caught'']"
  have v: "st_vocab toy_1 = Some toy_vocab" by (simp add: toy_1_def)
  have m: "dget toy_vocab (u ''labels'') = ?l" "dget toy_vocab (u ''caught'') = ?c"
    "digest_of (JObj toy_vocab) = JStr zeros"
    by (simp_all add: toy_vocab_def toy_env_def digest_member_def digest_of.simps)
  have "vocab_shape_ok ?l ?c = Inr True" by (simp add: vocab_shape_ok_def vocab_array_ok_def)
  moreover have "py_subset [js ''caught''] [js ''blocked'', js ''caught''] = Inr True"
    by (simp add: py_subset_def py_set_def)
  ultimately show ?thesis
    using dump_labels by (auto simp: check_vocabulary_def v m vocab_check_pairs_def add_if_def toy_2_def)
qed

lemma toy_corpus: "check_corpus toy_ctx toy_2 [] = Inr (toy_3, [])"
proof -
  let ?m = "[(u ''classes'', JObj toy_classes), (u ''expectedPayloads'', JObj [(u ''a2'', JArr [JStr zeros])])]"
  have "st_env toy_2 = toy_env" by (simp add: toy_2_def toy_1_def)
  moreover have "dget toy_env (u ''corpus'') = JObj [(u ''manifest'', JObj ?m), digest_member]"
    by (simp add: toy_env_def toy_classes_def)
  moreover have "\<exists>b. jcs_dumps (JObj ?m) = Inr b"
  proof -
    have "canonical (JObj ?m)"
      by (simp add: printable_good member_order_sorted toy_classes_def)
    then show ?thesis using jcs_dumps_text by blast
  qed
  moreover have "corpus_dupes [] (manifest_ids toy_classes) [] = Inr []"
    by (simp add: manifest_ids_def toy_classes_def add_if_def)
  moreover have "str_values (manifest_ids toy_classes) = [u ''a1'', u ''a2'']"
    by (simp add: str_values_def manifest_ids_def toy_classes_def)
  moreover have "corpus_declares_attack (JObj toy_classes) [] = []"
    by (simp add: corpus_declares_attack_def declared_count_def toy_classes_def)
  moreover have "expected_payloads_ok (JObj [(u ''a2'', JArr [JStr zeros])]) [u ''a1'', u ''a2''] = Inr True"
    using zeros_sort_key by (auto simp: expected_payloads_ok_def commitment_array_ok_def sorted_no_dupes_def ascending_def)
  ultimately show ?thesis
    by (auto simp: check_corpus_def Let_def corpus_digest_def corpus_expected_def add_if_def toy_3_def)
qed

lemma toy_rows: "check_rows_setup toy_3 [] = Inr (toy_4, [])"
  by (simp add: check_rows_setup_def toy_4_def toy_3_def toy_2_def toy_1_def toy_0_def add_if_def
      clean_row_def caught_row_def)

lemma toy_subject: "check_subject_cardinality toy_4 [] = Inr (toy_4, [])"
  by (simp add: check_subject_cardinality_def toy_states init_state_def toy_stmt_def add_if_def)

lemma toy_row_members:
  "dget (as_dict clean_row) (u ''attackId'') = js ''a1''"
  "dget (as_dict caught_row) (u ''attackId'') = js ''a2''"
  by (simp_all add: clean_row_def caught_row_def)

lemma toy_coverage: "check_coverage toy_4 [] = Inr (toy_5, [])"
proof -
  have s: "st_pred toy_4 = toy_pred ''fail''" "st_classes toy_4 = Some toy_classes"
    "st_rows toy_4 = [as_dict clean_row, as_dict caught_row]" by (simp_all add: toy_states)
  have "coverage_partition_ok toy_classes [js ''XA''] [] [] = Inr True"
    by (simp add: coverage_partition_ok_def toy_classes_def count_class_def str_keys_def)
  moreover have "coverage_check_rows [as_dict clean_row, as_dict caught_row] toy_classes [js ''XA''] [] = Inr []"
    by (simp add: coverage_check_rows_def coverage_index_def toy_classes_def class_attacks_def
        index_attack_def class_ids_def coverage_row_def toy_row_members add_if_def)
  ultimately show ?thesis by (simp add: check_coverage_def s Let_def add_if_def toy_5_def)
qed

lemma toy_per_row: "check_per_row_statements toy_5 [] = Inr (toy_5, [])"
proof -
  have s: "st_rows toy_5 = [as_dict clean_row, as_dict caught_row]"
    "st_labels toy_5 = Some [js ''blocked'', js ''caught'']" "st_caught toy_5 = Some [js ''caught'']"
    by (simp_all add: toy_states)
  show ?thesis
    by (simp add: check_per_row_statements_def s row_type_codes_def clean_row_def caught_row_def add_if_def
        clean_layer_bad_def)
qed

lemma toy_inputs: "check_substrate_binding_inputs toy_5 [] = Inr (toy_5, [])"
proof -
  have s: "st_env toy_5 = toy_env" "st_stmt toy_5 = as_dict (toy_stmt ''fail'')" by (simp_all add: toy_states init_state_def)
  have c: "digest_of (dget toy_env (u ''corpus'')) = JStr zeros" by (simp add: toy_env_def)
  have "dget (as_dict (toy_stmt ''fail'')) (u ''subject'') = JArr [JObj [digest_member]]"
    by (simp add: toy_stmt_def)
  then show ?thesis
    by (simp add: check_substrate_binding_inputs_def s Let_def binding_digest_canonical_def c add_if_def)
qed

lemma toy_fail_closed: "check_fail_closed_rows toy_5 [] = Inr (toy_5, [])"
  by (simp add: check_fail_closed_rows_def toy_states init_state_def row_fail_closed_def clean_row_def caught_row_def)

lemma toy_records: "check_records toy_ctx toy_5 [] = Inr (toy_6, [])"
proof -
  have s: "st_pred toy_5 = toy_pred ''fail''" by (simp add: toy_states)
  have "records_codes toy_ctx (toy_pred ''fail'') toy_views [] = Inr []"
    using toy_no_duplicates
    by (simp add: records_codes_def toy_views_def toy_view_def records_batch_root_def pae_leaves_def
        toy_merkle add_if_def)
  with toy_record_views show ?thesis
    by (simp add: check_records_def s toy_6_def)
qed

lemma toy_binding: "check_run_binding toy_ctx toy_6 [] = Inr (toy_7, [])"
proof -
  have s: "st_env toy_6 = toy_env" "st_stmt toy_6 = as_dict (toy_stmt ''fail'')" "st_has_substrate toy_6"
    by (simp_all add: toy_states init_state_def)
  have "derive_binding toy_ctx (as_dict (toy_stmt ''fail'')) toy_env = Inr (JStr zeros)"
  proof -
    have i: "map_of (as_dict (toy_stmt ''fail'')) (u ''subject'') = Some (JArr [JObj [digest_member]])"
      by (simp add: toy_stmt_def)
    have p: "pinned_digest toy_env k = Inr (JStr zeros)"
      if "k \<in> {''catchPolicy'', ''corpus'', ''observationVocabulary'', ''runEntropy'', ''substrate''}" for k
      using that by (auto simp: pinned_digest_def toy_env_def digest_member_def)
    have "\<exists>b. jcs_dumps (JObj [(u ''posture'', js ''sinkhole''), digest_member]) = Inr b"
      by (rule dumpable_dumps) (simp add: digest_member_def printable_good)
    then have "posture_preimage_digest toy_ctx toy_env = Inr (JStr zeros)"
      by (auto simp: posture_preimage_digest_def Let_def)
    moreover have "\<exists>b. jcs_dumps (JObj
        [(u ''aeeBindingVersion'', js BINDING_VERSION), (u ''catchPolicy'', JStr zeros),
         (u ''corpus'', JStr zeros), (u ''networkPosture'', JStr zeros),
         (u ''observationVocabulary'', JStr zeros), (u ''runEntropy'', JStr zeros),
         (u ''subject'', JStr zeros), (u ''substrate'', JStr zeros)]) = Inr b"
      by (rule dumpable_dumps) (simp add: printable_good BINDING_VERSION_def)
    ultimately show ?thesis
      by (auto simp: derive_binding_def i digest_member_def binding_preimage_def p)
  qed
  then show ?thesis by (simp add: check_run_binding_def s toy_7_def)
qed

text \<open>The records the rows reference.\<close>

lemma toy_view_simps [simp]:
  "rv_idx (toy_view i d) = i" "rv_payload (toy_view i d) = Some d" "rv_media_ok (toy_view i d)"
  "rv_error (toy_view i d) = None" "payload_get (toy_view i d) k = dget d (u k)"
  "payload_has (toy_view i d) k = has_key d (u k)" "rv_kind (toy_view i d) = dget d (u ''aeeKind'')"
  "rv_method (toy_view i d) = dget d (u ''aeeMethod'')" "payload_of (toy_view i d) = d"
  by (simp_all add: toy_view_def payload_get_def payload_has_def rv_kind_def rv_method_def payload_of_def)

lemma utf16_eq_u [simp]:
  "utf16_bytes (u (c # s)) = utf16_bytes (u (d # t)) \<longleftrightarrow> c = d \<and> utf16_bytes (u s) = utf16_bytes (u t)"
  by (auto simp: u_def utf16_char inj_eq [OF inj_of_char])

lemma ids_ok: "sorted_no_dupes [js ''a1'', js ''a2''] = Inr True" "sorted_no_dupes [js ''a2''] = Inr True"
  by (simp_all add: sorted_no_dupes_def ascending_def less_le)

lemma toy_ids_ok:
  "attack_id_array_ok (JArr [js ''a2'']) [u ''a1'', u ''a2''] = Inr True"
  "attack_id_array_ok (JArr [js ''a1'', js ''a2'']) [u ''a1'', u ''a2''] = Inr True"
  by (simp_all add: attack_id_array_ok_def ids_ok)

lemma toy_arming_ok:
  "arming_ok (toy_view 0 arming_payload) (JStr zeros) (js ''2026-01-02T03:04:06Z'') [u ''a1'', u ''a2''] = Inr True"
  by (simp add: arming_ok_def arming_payload_def arming_chain_ok_def attack_id_array_ok_def ids_ok)

lemma toy_sealed_ok:
  "set ps \<subseteq> {JStr zeros} \<Longrightarrow>
   sealed_ok (toy_view 1 sealed_payload) (JStr zeros) ps [u ''a1'', u ''a2''] = Inr True"
  by (auto simp: sealed_ok_def sealed_payload_def sealed_commitments_ok_def drops_ok_def
      attack_id_array_ok_def ids_ok list_ex_iff Let_def)

lemma toy_commitment_ok: "commitment_array_ok (JArr [JStr zeros]) = Inr True"
  using zeros_sort_key by (auto simp: commitment_array_ok_def sorted_no_dupes_def ascending_def)

lemma toy_kinds [simp]:
  "dget arming_payload (u ''aeeKind'') = js ''arming''"
  "dget sealed_payload (u ''aeeKind'') = js ''sealed''"
  "dget interception_payload (u ''aeeKind'') = js ''interception''"
  "dget interception_payload (u ''aeePayloadCommitment'') = JArr [JStr zeros]"
  "dget arming_payload (u ''aeePostureDigest'') = JStr zeros"
  "dget arming_payload (u ''aeeAssessedAttacks'') = JArr [js ''a1'', js ''a2'']"
  "dget sealed_payload (u ''aeeObservedAttacks'') = JArr [js ''a2'']"
  "dget sealed_payload (u ''aeeObservedSet'') = JStr zeros"
  by (simp_all add: arming_payload_def sealed_payload_def interception_payload_def)

lemma toy_common:
  "d \<in> {arming_payload, sealed_payload, interception_payload} \<Longrightarrow>
   dget d (u ''aeeRunBinding'') = JStr zeros \<and> dget d (u ''aeeMethod'') = js ''intercepted'' \<and>
   list_all (\<lambda>m. has_key d (u m)) RESERVED_MEMBERS"
  by (auto simp: arming_payload_def sealed_payload_def interception_payload_def RESERVED_MEMBERS_def)

lemma toy_payload_checked:
  "d \<in> {arming_payload, sealed_payload, interception_payload} \<Longrightarrow>
   gate1_check_payload (JStr zeros) (toy_view i d) [] = []"
  using toy_common [of d] by (simp add: gate1_check_payload_def list_all_iff list_ex_iff add_if_def)

lemma toy_7_fields:
  "st_rows toy_7 = [as_dict clean_row, as_dict caught_row]" "st_views toy_7 = toy_views"
  "st_has_records toy_7" "st_fail_closed toy_7 = []" "st_binding toy_7 = JStr zeros"
  "st_caught toy_7 = Some [js ''caught'']" "st_declared toy_7 = [u ''a1'', u ''a2'']"
  "st_issued_at toy_7 = js ''2026-01-02T03:04:06Z''" "st_env toy_7 = toy_env"
  by (simp_all add: toy_states init_state_def)

lemma toy_cap:
  "dget r (u ''method'') = js ''intercepted'' \<Longrightarrow>
   list_all (\<lambda>v. rv_method v = js ''intercepted'') vs \<Longrightarrow> gate1_method_cap r vs [] = Inr []"
proof -
  assume r: "dget r (u ''method'') = js ''intercepted''" and vs: "list_all (\<lambda>v. rv_method v = js ''intercepted'') vs"
  have k: "in_keys (js ''intercepted'') METHOD_ORDER = Inr True" by (simp add: in_keys_Inr METHOD_ORDER_def)
  have "filterr (\<lambda>rv. in_keys (rv_method rv) METHOD_ORDER) vs = Inr vs"
    using vs by (induction vs) (simp_all add: k)
  moreover have one: "rank METHOD_ORDER (js ''intercepted'') = 1" by (simp add: rank_def METHOD_ORDER_def)
  then have "(\<lambda>rv. rank METHOD_ORDER (rv_method rv)) ` set vs = {1}" if "vs \<noteq> []"
    using vs that by (cases vs) (auto simp: list_all_iff)
  ultimately show ?thesis
    using r k one by (cases "vs = []") (simp_all add: gate1_method_cap_def add_if_def)
qed

lemma toy_refs:
  "as_list (refs_of (as_dict clean_row)) = [JInt 0, JInt 1]"
  "as_list (refs_of (as_dict caught_row)) = [JInt 2]"
  by (simp_all add: refs_of_def clean_row_def caught_row_def)

lemma toy_resolved:
  "resolve_refs toy_views [JInt 0, JInt 1] [] = ([toy_view 0 arming_payload, toy_view 1 sealed_payload], [], True)"
  "resolve_refs toy_views [JInt 2] [] = ([toy_view 2 interception_payload], [], True)"
  by (simp_all add: resolve_refs_def toy_views_def ref_fault_def add_fault_def numeral_2_eq_2)

lemma toy_rows_gate1:
  "gate1_row toy_7 0 (as_dict clean_row) (JStr zeros) [] =
     Inr (Some [toy_view 0 arming_payload, toy_view 1 sealed_payload], [])"
  "gate1_row toy_7 1 (as_dict caught_row) (JStr zeros) [] = Inr (Some [toy_view 2 interception_payload], [])"
proof -
  have b: "dget (as_dict clean_row) (u ''basis'') = js ''substrate''" "dget (as_dict caught_row) (u ''basis'') = js ''substrate''"
    "dget (as_dict clean_row) (u ''method'') = js ''intercepted''" "dget (as_dict caught_row) (u ''method'') = js ''intercepted''"
    by (simp_all add: clean_row_def caught_row_def)
  have m: "\<not> is_caught toy_7 (as_dict clean_row)" "is_caught toy_7 (as_dict caught_row)"
    by (simp_all add: is_caught_def toy_7_fields clean_row_def caught_row_def)
  have cn: "covers_nothing vs = Inr None" if "list_all (\<lambda>v. one_of (rv_kind v) COVERING_KINDS) vs" for vs
    using that
    by (induction vs) (auto simp: covers_nothing_def view_covers_nothing_def COVERING_KINDS_def
        REGISTERED_NONCOVERING_def u_def)
  have a: "arming_postures [toy_view 0 arming_payload, toy_view 1 sealed_payload] = [JStr zeros]"
    by (simp add: arming_postures_def of_kind_def)
  have "gate1_class_match toy_7 (as_dict clean_row) [toy_view 0 arming_payload, toy_view 1 sealed_payload] (JStr zeros) []
      = Inr ([toy_view 0 arming_payload, toy_view 1 sealed_payload], [])"
    by (simp add: gate1_class_match_def cn COVERING_KINDS_def b m cover_clean_def clean_arm_def clean_seal_def
        of_kind_def toy_7_fields toy_arming_ok toy_sealed_ok a add_if_def Let_def
        del: One_nat_def)
  then show "gate1_row toy_7 0 (as_dict clean_row) (JStr zeros) [] =
      Inr (Some [toy_view 0 arming_payload, toy_view 1 sealed_payload], [])"
    using toy_common by (simp add: gate1_row_def b toy_7_fields toy_refs toy_resolved toy_payload_checked toy_cap)
  have "gate1_class_match toy_7 (as_dict caught_row) [toy_view 2 interception_payload] (JStr zeros) []
      = Inr ([toy_view 2 interception_payload], [])"
    by (simp add: gate1_class_match_def cn COVERING_KINDS_def b m cover_caught_def of_kind_def toy_commitment_ok)
  then show "gate1_row toy_7 1 (as_dict caught_row) (JStr zeros) [] = Inr (Some [toy_view 2 interception_payload], [])"
    using toy_common by (simp add: gate1_row_def b toy_7_fields toy_refs toy_resolved toy_payload_checked toy_cap)
qed

lemma toy_gate1: "check_gate1_coverage toy_7 [] = Inr (toy_8, [])"
proof -
  have "check_refs_in_range toy_7 [] = []"
    by (simp add: check_refs_in_range_def toy_7_fields toy_refs ref_beyond_def toy_views_def add_if_def)
  then show ?thesis
    using toy_rows_gate1 by (simp add: check_gate1_coverage_def toy_7_fields gate1_step_def toy_8_def Let_def)
qed

text \<open>The commitments of its records.\<close>

lemma toy_8_fields:
  "st_rows toy_8 = [as_dict clean_row, as_dict caught_row]" "st_views toy_8 = toy_views"
  "st_has_records toy_8" "st_binding toy_8 = JStr zeros" "st_has_substrate toy_8"
  "st_caught toy_8 = Some [js ''caught'']" "st_labels toy_8 = Some [js ''blocked'', js ''caught'']"
  "st_declared toy_8 = [u ''a1'', u ''a2'']" "st_posture toy_8 = JStr zeros"
  "st_issued_at toy_8 = js ''2026-01-02T03:04:06Z''" "st_classes toy_8 = Some toy_classes"
  "st_coverage toy_8 = JObj [(u ''assessedClasses'', JArr [js ''XA''])]"
  "st_expected toy_8 = JObj [(u ''a2'', JArr [JStr zeros])]"
  "st_pred toy_8 = toy_pred ''fail''" "st_result toy_8 = js ''fail''"
  by (simp_all add: toy_states init_state_def)

lemma toy_resolved_views:
  "resolved_views toy_8 (as_dict clean_row) = [toy_view 0 arming_payload, toy_view 1 sealed_payload]"
  "resolved_views toy_8 (as_dict caught_row) = [toy_view 2 interception_payload]"
  by (simp_all add: resolved_views_def toy_8_fields toy_refs toy_views_def ref_fault_def numeral_2_eq_2)

lemma toy_caught: "\<not> is_caught toy_8 (as_dict clean_row)" "is_caught toy_8 (as_dict caught_row)"
  by (simp_all add: is_caught_def toy_8_fields clean_row_def caught_row_def)

lemma toy_rows_committed:
  "commit_clean_row_contradicted toy_8 [] = []" "commit_interception_orphaned toy_8 [] = []"
  "commit_attribution toy_8 [] = Inr []"
proof -
  have r: "dget (as_dict caught_row) (u ''containmentObserved'') = js ''caught''"
    "dget (as_dict clean_row) (u ''attribution'') = js ''paired''"
    "dget (as_dict caught_row) (u ''attribution'') = js ''pinned''"
    by (simp_all add: clean_row_def caught_row_def)
  show "commit_clean_row_contradicted toy_8 [] = []"
    by (simp add: commit_clean_row_contradicted_def toy_8_fields clean_row_contradicted_def toy_resolved_views
        is_interception_def r)
  show "commit_interception_orphaned toy_8 [] = []"
    by (simp add: commit_interception_orphaned_def toy_8_fields toy_views_def is_interception_def
        resolved_by_caught_def toy_caught toy_resolved_views)
  show "commit_attribution toy_8 [] = Inr []"
    by (simp add: commit_attribution_def toy_8_fields row_attribution_def toy_resolved_views
        is_interception_def r expected_for_def toy_row_members pin_unmatched_def add_fault_def)
qed

lemma toy_bound:
  "d \<in> {arming_payload, sealed_payload, interception_payload} \<Longrightarrow>
   bound_kind toy_8 k (toy_view i d) \<longleftrightarrow> dget d (u ''aeeKind'') = js k"
  using toy_common [of d] by (auto simp: bound_kind_def toy_8_fields)

lemma toy_observed: "observed_set_digest toy_ctx toy_views = Inr zeros"
proof -
  have "set (observed_leaves toy_ctx toy_views) \<subseteq> {zeros}"
    by (auto simp: observed_leaves_def toy_ctx_def hex_of_zeros zeros_def split: option.splits if_splits)
  then have "dumpable (JArr (map JStr (observed_leaves toy_ctx toy_views)))"
    using printable_good [OF zeros_printable] by (auto simp: list_all_iff)
  from dumpable_dumps [OF this] show ?thesis by (auto simp: observed_set_digest_def)
qed

lemma toy_sealing:
  "commit_observed_set toy_ctx toy_8 [] = Inr []" "commit_sealed_present toy_8 [] = Inr []"
  "commit_carried_cover toy_8 [] = Inr []"
proof -
  have a: "arming_postures toy_views = [JStr zeros]" by (simp add: arming_postures_def of_kind_def toy_views_def)
  show "commit_observed_set toy_ctx toy_8 [] = Inr []"
    by (simp add: commit_observed_set_def toy_8_fields toy_views_def observed_set_bad_def toy_bound Let_def
        toy_observed [unfolded toy_views_def] add_if_def
        del: One_nat_def)
  show "commit_sealed_present toy_8 [] = Inr []"
  proof -
    have "seal_present toy_8 (toy_view 0 arming_payload) = Inr False"
      by (simp add: seal_present_def toy_bound)
    moreover have "seal_present toy_8 (toy_view 1 sealed_payload) = Inr True"
      using toy_sealed_ok [of "[JStr zeros]"] by (simp add: seal_present_def toy_8_fields toy_bound a)
    ultimately show ?thesis
      by (simp add: commit_sealed_present_def toy_8_fields toy_views_def add_if_def del: One_nat_def)
  qed
  have k: "in_keys (js ''intercepted'') METHOD_ORDER = Inr True" by (simp add: in_keys_Inr METHOD_ORDER_def)
  have "carried_record_fault toy_8 (toy_view 0 arming_payload) = Inr None"
    "carried_record_fault toy_8 (toy_view 1 sealed_payload) = Inr None"
    using toy_sealed_ok [of "[]"]
    by (simp_all add: carried_record_fault_def toy_8_fields toy_arming_ok fault_unless_def)
  moreover have "carried_record_fault toy_8 (toy_view 2 interception_payload) = Inr None"
    using toy_common [of interception_payload] k
    by (simp add: carried_record_fault_def carried_interception_fault_def toy_commitment_ok)
      (simp add: interception_payload_def)
  ultimately show "commit_carried_cover toy_8 [] = Inr []"
    by (simp add: commit_carried_cover_def toy_8_fields toy_views_def carried_step_def add_fault_def)
qed

lemma toy_attacks: "commit_seal_attacks toy_8 [] = Inr []" "commit_assessed_subset toy_8 [] = Inr []"
proof -
  note ids = toy_ids_ok
  show "commit_seal_attacks toy_8 [] = Inr []"
    by (simp add: commit_seal_attacks_def toy_8_fields toy_caught toy_row_members py_set_def toy_views_def
        seal_uncaught_def toy_bound ids add_if_def)
  show "commit_assessed_subset toy_8 [] = Inr []"
    by (simp add: commit_assessed_subset_def toy_8_fields toy_classes_def class_ids_def str_values_def toy_views_def
        arming_exceeded_def toy_bound ids add_if_def)
qed

lemma toy_commitments: "check_commitments toy_ctx toy_8 [] = Inr (toy_8, [])"
  by (simp add: check_commitments_def toy_rows_committed toy_sealing toy_attacks toy_8_fields)

lemma toy_result: "check_result_recompute toy_8 [] = Inr (toy_8, [])"
proof -
  have "row_effect [js ''blocked'', js ''caught''] [js ''caught''] (as_dict caught_row) = Forces_Fail"
    by (simp add: row_effect_def caught_row_def)
  moreover have "in_keys (js ''fail'') RESULT_ORDER = Inr True" by (simp add: in_keys_Inr RESULT_ORDER_def)
  ultimately show ?thesis
    by (simp add: check_result_recompute_def toy_8_fields recompute_eq carried_def add_if_def)
qed

lemma toy_run: "run_checks (checks toy_ctx) toy_0 [] = Inr (toy_8, [])"
  by (simp add: checks_def toy_gate0 toy_vocabulary toy_corpus toy_rows toy_subject toy_coverage toy_per_row
      toy_inputs toy_fail_closed toy_records toy_binding toy_gate1 toy_commitments toy_result)

definition toy_outcome :: outcome where
  "toy_outcome = check_gate2_tiers toy_ctx toy_8"

lemma toy_verify: "verify toy_ctx (toy_stmt ''fail'') None = Inr toy_outcome"
  by (simp add: verify_def toy_type_step toy_run toy_outcome_def)

lemma toy_valid: "verdict_valid toy_outcome"
  by (simp add: toy_outcome_def verdict_valid_def check_gate2_tiers_def)

section \<open>Its signatures and its members\<close>

lemma le_int_zeros: "le_int (replicate n 0) = 0"
  by (induction n) simp_all

lemma root_of_0: "root_of 0 = 0"
proof -
  have "0 < nat ((ed_P + 3) div 8)" by (simp add: ed_P_def)
  from zero_power [OF this] have "(0 :: int) ^ nat ((ed_P + 3) div 8) = 0" .
  then have "powm 0 (nat ((ed_P + 3) div 8)) ed_P = 0" by (simp only: powm_eq mod_0)
  then show ?thesis by (simp add: root_of_def)
qed

lemma ident_decompress: "pt_decompress ident_key = Some ed_IDENT"
proof -
  have i: "le_int ident_key = 1" "length ident_key = 32" by (simp_all add: ident_key_def le_int_zeros)
  have big: "(1 :: int) < m \<Longrightarrow> 1 div m = 0 \<and> 1 mod m = 1" for m by simp
  have "pt_recover 0 1 = Some ed_IDENT"
    using ed_P_pos(2) by (simp add: pt_recover_def xx_of_def root_of_0 ed_IDENT_def)
  with big [of "2 ^ 255"] show ?thesis by (simp add: pt_decompress_def i)
qed

lemma ident_verifies: "ed25519_verify (\<lambda>b. replicate 64 0) ident_key msg ident_sig"
proof -
  have i: "length ident_key = 32" by (simp add: ident_key_def)
  have z: "pt_mul 0 p = ed_IDENT" for p by (simp add: pt_mul_def pt_mul_loop.simps)
  have "pt_eq ed_IDENT (pt_add ed_IDENT ed_IDENT)"
    using ed_P_pos by (simp add: pt_add_def ed_IDENT_def Let_def mod_simps)
  moreover have "0 < ed_L" by (simp add: ed_L_def)
  ultimately show ?thesis
    by (simp add: ed25519_verify_def i ident_sig_def ident_decompress le_int_zeros z)
qed

lemma toy_signed: "record_verifies toy_ctx (toy_view i d)"
proof -
  have "is_bytes ident_sig" by (simp add: ident_sig_def ident_key_def is_bytes_def list_all_iff)
  then have "strict_b64decode (b64encode ident_sig) = Inr ident_sig" by (simp add: strict_b64decode_iff)
  then show ?thesis
    by (simp add: record_verifies_def toy_view_def toy_record_def signature_verifies_def toy_ctx_def ident_verifies)
qed

lemma toy_result_fail: "out_result toy_outcome = js ''fail''"
  by (simp add: toy_outcome_def check_gate2_tiers_def toy_8_fields)

lemma toy_tiers: "out_with_key toy_outcome = Some [Attested, Attested]"
proof -
  have "dget (as_dict clean_row) (u ''basis'') = js ''substrate''" "dget (as_dict caught_row) (u ''basis'') = js ''substrate''"
    by (simp_all add: clean_row_def caught_row_def)
  moreover have "cx_pins toy_ctx \<noteq> []" by (simp add: toy_ctx_def)
  moreover have "st_covering toy_8 = [(0, [toy_view 0 arming_payload, toy_view 1 sealed_payload]),
      (1, [toy_view 2 interception_payload])]" by (simp add: toy_8_def)
  ultimately show ?thesis
    by (simp add: toy_outcome_def check_gate2_tiers_def toy_8_fields tiers_def row_tier_def toy_signed)
qed

lemma toy_stmt_pred: "stmt_pred (toy_stmt r) = toy_pred r"
  by (simp add: stmt_pred_def toy_stmt_def)

lemma toy_stmt_rows: "stmt_rows (toy_stmt r) = [as_dict clean_row, as_dict caught_row]"
  by (simp add: stmt_rows_def toy_stmt_pred clean_row_def caught_row_def)

lemma toy_row_1: "1 < length (stmt_rows (toy_stmt r))" "dget (stmt_rows (toy_stmt r) ! 1) (u ''basis'') = js ''substrate''"
  by (simp_all add: toy_stmt_rows caught_row_def)

lemma toy_stmt_records: "stmt_records (toy_stmt r) \<noteq> []"
  by (simp add: stmt_records_def toy_stmt_pred)

lemma toy_stmt_classes: "stmt_classes (toy_stmt r) = JObj toy_classes"
  by (simp add: stmt_classes_def stmt_env_def toy_stmt_pred) (simp add: toy_env_def toy_classes_def)

lemma toy_has_substrate: "list_ex (\<lambda>r. dget r (u ''basis'') = js ''substrate'') (stmt_rows (toy_stmt r))"
  by (simp add: toy_stmt_rows clean_row_def)

lemma toy_caught_row:
  "as_dict caught_row \<in> set (stmt_rows (toy_stmt r))" "dget (as_dict caught_row) (u ''attribution'') = js ''pinned''"
  by (simp_all add: toy_stmt_rows caught_row_def)

lemma zero_accepted: "\<not> statement_strict_fault [48]"
proof -
  have "utf8_decode [48] = Some [48]"
    using utf8_decode_concat [of "[48]"] by (simp add: utf8_cp_def)
  moreover have "max_json_depth [48] = 0" by (simp add: max_json_depth_def depth_step_def)
  moreover have "loads lax_hooks [48] = Inr (JInt 0)"
    using pv_digit [of 48 lax_hooks "[]"]
    by (auto simp: is_digit_def scan_number_def lex_number_def lex_int_def lex_frac_def lex_exp_def is_float_lexeme_def
        int_lexeme_def MAX_STR_DIGITS_def skip_ws_def)
  moreover have "check_string_scalars [48] = Inr ()"
    using check_scalars_plain [of "[48]" "[]"] by (simp add: check_string_scalars.simps [of "[]"])
  ultimately show ?thesis by (simp add: statement_strict_fault_def MAX_PARSE_BYTES_def MAX_PARSE_DEPTH_def)
qed

lemma toy_verify_raw: "verify toy_ctx (toy_stmt ''fail'') (Some [48]) = Inr toy_outcome"
  using zero_accepted by (simp add: verify_def toy_type_step toy_run toy_outcome_def)

lemma le_bytes_0: "le_bytes n 0 = replicate n 0"
  by (induction n) simp_all

lemma ident_bytes: "is_bytes ident_key"
  by (simp add: ident_key_def is_bytes_def list_all_iff)

lemma ident_zero_verifies: "ed25519_verify (\<lambda>b. replicate 64 0) ident_key msg (ident_key @ le_bytes 32 0)"
  using ident_verifies by (simp add: ident_sig_def le_bytes_0)

end
