(* ===== verification/Hollow.thy ===== *)
theory Hollow
  imports Example
begin

text \<open>
  A statement whose \<open>corpus\<close> member is a string. \<open>_check_corpus\<close> looks into an object only, so no
  manifest is read, no attack is asked for and the coverage member is not compared with anything.
\<close>

text \<open>The canonical bytes of empty vocabulary arrays.\<close>

definition empty_vocab_text :: bytes where
  "empty_vocab_text = text_of (JObj [(u ''caught'', JArr []), (u ''labels'', JArr [])])"

definition hollow_vocab :: "ctx \<Rightarrow> jdict" where
  "hollow_vocab cx =
     [(u ''labels'', JArr []), (u ''caught'', JArr []),
      (u ''digest'', JObj [(u ''sha256'', JStr (sha256_hex cx (empty_vocab_text)))])]"

definition hollow_pred :: "ctx \<Rightarrow> jdict" where
  "hollow_pred cx =
     [(u ''result'', js ''pass''), (u ''issuedAt'', js ''2026-01-02T03:04:06Z''),
      (u ''observationEnvironment'', JObj
        [(u ''substrate'', JNull), (u ''corpus'', js ''none''), (u ''catchPolicy'', JNull),
         (u ''networkPosture'', JNull), (u ''observationVocabulary'', JObj (hollow_vocab cx))]),
      (u ''coverage'', JObj []),
      (u ''attackResults'', JArr [])]"

definition hollow_stmt :: "ctx \<Rightarrow> json" where
  "hollow_stmt cx =
     JObj [(u ''_type'', js STATEMENT_TYPE), (u ''predicateType'', js AEE_PREDICATE_TYPE),
           (u ''subject'', JArr [JNull]), (u ''predicate'', JObj (hollow_pred cx))]"

definition hollow_outcome :: outcome where
  "hollow_outcome =
     \<lparr>out_codes = [], out_result = js ''pass'', out_with_key = Some [], out_without_key = Some []\<rparr>"

lemma hollow_dumps:
  "jcs_dumps (JObj [(u ''caught'', JArr []), (u ''labels'', JArr [])]) = Inr empty_vocab_text"
proof -
  let ?v = "JObj [(u ''caught'', JArr []), (u ''labels'', JArr [])]"
  have c: "canonical ?v" by (simp add: printable_good member_order_sorted)
  have "simple ?v" by simp
  from simple_text [OF this] have "enc (text_of ?v) = text_of ?v" by (intro enc_ascii) simp
  then show ?thesis using jcs_dumps_text [OF c] by (simp only: empty_vocab_text_def)
qed

lemma hollow_verify: "verify cx (hollow_stmt cx) None = Inr hollow_outcome"
proof -
  define s0 where "s0 = (init_state (as_dict (hollow_stmt cx)))\<lparr>st_pred := hollow_pred cx\<rparr>"
  define s1 where "s1 = s0\<lparr>st_result := js ''pass'', st_issued_at := js ''2026-01-02T03:04:06Z'',
    st_env := as_dict (dget (hollow_pred cx) (u ''observationEnvironment'')), st_vocab := Some (hollow_vocab cx)\<rparr>"
  define s2 where "s2 = s1\<lparr>st_labels := Some [], st_caught := Some []\<rparr>"
  define s3 where "s3 = s2\<lparr>st_coverage := JObj []\<rparr>"
  note s = s0_def s1_def s2_def s3_def
  have k: "in_keys (js ''pass'') RESULT_ORDER = Inr True" by (simp add: in_keys_Inr RESULT_ORDER_def)
  have t: "check_statement_type (hollow_stmt cx) [] = (Some s0, [])"
    by (simp add: s0_def hollow_stmt_def check_statement_type_def)
  have 0: "check_gate0_wellformed s0 [] = Inr (s1, [])"
    by (simp add: Let_def s hollow_pred_def check_gate0_wellformed_def k issued_at_codes_def environment_codes_def
        posture_codes_def add_if_def Let_def)
  have 1: "check_vocabulary cx s1 [] = Inr (s2, [])"
    by (simp add: Let_def s check_vocabulary_def hollow_vocab_def vocab_shape_ok_def vocab_array_ok_def
        vocab_check_pairs_def py_subset_def py_set_def hollow_dumps add_if_def digest_of.simps
        Let_def)
  have 2: "check_corpus cx s2 [] = Inr (s2, [])"
    by (simp add: Let_def s check_corpus_def hollow_pred_def init_state_def)
  have 3: "check_rows_setup s2 [] = Inr (s2, [])"
    by (simp add: Let_def s check_rows_setup_def hollow_pred_def init_state_def add_if_def)
  have 4: "check_subject_cardinality s2 [] = Inr (s2, [])"
    by (simp add: Let_def s check_subject_cardinality_def hollow_stmt_def init_state_def add_if_def)
  have 5: "check_coverage s2 [] = Inr (s3, [])"
    by (simp add: Let_def s check_coverage_def hollow_pred_def init_state_def)
  have f: "st_rows s3 = []" "\<not> st_has_substrate s3" "st_labels s3 = Some []" "st_caught s3 = Some []"
    "st_pred s3 = hollow_pred cx" "\<not> st_has_records s3" "st_fail_closed s3 = []" "st_views s3 = []"
    "st_binding s3 = JNull" "st_coverage s3 = JObj []" "st_result s3 = js ''pass''"
    "st_posture s3 = JNull" "st_covering s3 = []"
    "st_env s3 = as_dict (dget (hollow_pred cx) (u ''observationEnvironment''))"
    by (simp_all add: s init_state_def)
  have 6: "check_per_row_statements s3 [] = Inr (s3, [])" by (simp add: Let_def check_per_row_statements_def f)
  have 7: "check_substrate_binding_inputs s3 [] = Inr (s3, [])" by (simp add: Let_def check_substrate_binding_inputs_def f)
  have 8: "check_fail_closed_rows s3 [] = Inr (s3, [])" by (simp add: Let_def check_fail_closed_rows_def f)
  have 9: "check_records cx s3 [] = Inr (s3, [])" by (simp add: Let_def check_records_def f hollow_pred_def add_if_def)
  have 10: "check_run_binding cx s3 [] = Inr (s3, [])" by (simp add: Let_def check_run_binding_def f)
  have 11: "check_gate1_coverage s3 [] = Inr (s3, [])"
    by (simp add: Let_def check_gate1_coverage_def f hollow_pred_def digest_of.simps)
  have 12: "check_commitments cx s3 [] = Inr (s3, [])"
    by (simp add: Let_def check_commitments_def f commit_clean_row_contradicted_def commit_interception_orphaned_def
        commit_attribution_def add_fault_def)
  have 13: "check_result_recompute s3 [] = Inr (s3, [])"
    by (simp add: Let_def check_result_recompute_def f k recompute_eq coverage_partial_def hollow_pred_def add_if_def)
  have "run_checks (checks cx) s0 [] = Inr (s3, [])"
    by (simp add: checks_def 0 1 2 3 4 5 6 7 8 9 10 11 12 13)
  then show ?thesis
    by (simp add: verify_def t check_gate2_tiers_def f tiers_def hollow_outcome_def)
qed

lemma hollow_members: "stmt_rows (hollow_stmt cx) = []" "stmt_records (hollow_stmt cx) = []"
  by (simp_all add: stmt_rows_def stmt_records_def stmt_pred_def hollow_stmt_def hollow_pred_def)

end
