(* ===== verification/ToySuite.thy ===== *)
theory ToySuite
  imports RunMeaning ScanFacts Hollow
begin

text \<open>
  A suite of one reject vector, the two bytes of an empty array, on which the facts about runs are
  applied: the reference verifier refuses it with the expected code and the run exits with zero.
\<close>

definition toy_entry :: json where
  "toy_entry =
     JObj [(u ''id'', js ''a''), (u ''kind'', js ''reject''), (u ''file'', js ''s/a.json''),
           (u ''expected'', JObj [(u ''codes'', JArr [js ''statement-type-unsupported''])])]"

definition toy_manifest :: jdict where
  "toy_manifest =
     [(u ''suite'', js ''toy''), (u ''counts'', JObj [(u ''reject'', JInt 1)]),
      (u ''vectors'', JArr [toy_entry])]"

definition toy_fs :: filesystem where
  "toy_fs =
     \<lparr>fs_isfile = (\<lambda>p. p = u ''s/a.json''), fs_isdir = (\<lambda>p. p = u ''s''),
      fs_listdir = (\<lambda>p. if p = [] then [u ''s''] else [u ''a.json'']), fs_walk = (\<lambda>_. []),
      fs_read = (\<lambda>_. Some (u ''[]''))\<rparr>"

definition toy_world :: world where
  "toy_world = \<lparr>wd_fs = toy_fs, wd_rail = None, wd_too_deep = (\<lambda>_. False)\<rparr>"

lemma u_eq_Nil [simp]: "u s = [] \<longleftrightarrow> s = []"
  by (simp add: u_def)

lemma toy_stem: "stem (basename (u ''s/a.json'')) = u ''a'' \<and> before 47 (u ''s/a.json'') = u ''s'' \<and> has_slash (u ''s/a.json'')"
  by code_simp

lemma toy_index: "manifest_index (JObj toy_manifest) = Inr [(u ''a'', toy_entry)]"
  by (simp add: manifest_index_def toy_manifest_def manifest_vectors_def index_entry_def toy_entry_def Let_def)

lemma toy_flat: "flat_layout [(u ''a'', toy_entry)] = Inr (u ''s'')"
  using toy_stem by (simp add: flat_layout_def entry_dir_def toy_entry_def replayed_def REPLAYED_KINDS_def)

lemma toy_vectors: "discover_vectors cx (JObj toy_manifest) = Inr [(u ''reject'', u ''s/a.json'')]"
  using toy_flat
  by (simp add: discover_vectors_def toy_manifest_def manifest_vectors_def Let_def toy_entry_def row_entry_def)

lemma toy_suite_kinds: "manifest_kinds [(u ''a'', toy_entry)] = [(u ''reject'', [u ''a''])]"
  by (simp add: manifest_kinds_def group_by_def kind_of_def toy_entry_def)

lemma toy_files: "vector_files_in toy_fs (u ''s'') = [u ''a'']"
proof -
  have "stem (u ''a.json'') = u ''a'' \<and> ends_with (u ''a.json'') (u ''.json'')" by code_simp
  then show ?thesis by (simp add: vector_files_in_def toy_fs_def)
qed

lemma toy_closure: "manifest_closure toy_fs toy_manifest [(u ''a'', toy_entry)] = Inr ([], [])"
  using toy_flat toy_files toy_suite_kinds
  by (simp add: manifest_closure_def is_reference_def toy_manifest_def REFERENCE_SUITE_def
      closure_kind_coverage_def replayed_def REPLAYED_KINDS_def closure_both_directions_def closure_flat_def
      ids_of_def row_file_fault_def toy_entry_def unlisted_files_def closure_directories_other_suite_def
      closure_counts_def counts_against_rows_def count_fault_def toy_fs_def Let_def)

section \<open>The vector\<close>

lemma toy_text: "utf8_decode (u ''[]'') = Some (u ''[]'')"
  by code_simp

lemma toy_loads: "json_loads (u ''[]'') = Inr (JArr [])" "loads lax_hooks (u ''[]'') = Inr (JArr [])"
proof -
  have t: "u ''[]'' = [91, 93]" by code_simp
  have f: "2 * length [91, 93 :: nat] + 2 = Suc 5" by simp
  show "json_loads (u ''[]'') = Inr (JArr [])" "loads lax_hooks (u ''[]'') = Inr (JArr [])"
    unfolding json_loads_def loads_def t f pv.simps by (simp_all add: skip_ws_def is_ws_def)
qed

lemma toy_strict: "\<not> statement_strict_fault (u ''[]'')"
proof -
  have "max_json_depth (u ''[]'') = 1" by code_simp
  moreover have "check_string_scalars (u ''[]'') = Inr ()" by code_simp
  ultimately show ?thesis
    by (simp add: statement_strict_fault_def toy_text toy_loads MAX_PARSE_BYTES_def MAX_PARSE_DEPTH_def)
qed

lemma toy_refused: "verify cx (JArr []) (Some (u ''[]'')) = Inr (refused [''statement-type-unsupported''])"
  using toy_strict by (simp add: verify_def check_statement_type_def add_code_def add_if_def STATEMENT_TYPE_def)

lemma toy_read: "read_vector toy_world p = Some (u ''[]'', JArr [], True)"
  by (simp add: read_vector_def toy_world_def toy_fs_def MAX_STATEMENT_BYTES_def load_statement_def toy_text
      try_loads_def toy_loads)

definition toy_observed :: observed where
  "toy_observed = reference_observed (refused [''statement-type-unsupported'']) (refused [''statement-type-unsupported''])"

lemma toy_observe: "run_observe cx None (JArr []) (u ''[]'') = Inr toy_observed"
  by (simp add: run_observe_def toy_refused toy_observed_def)

lemma toy_fields:
  "ob_verdict toy_observed = js ''invalid''" "ob_without toy_observed = js ''invalid''"
  "ob_codes toy_observed = JArr [js ''statement-type-unsupported'']" "ob_errors toy_observed = []"
  "ob_result toy_observed = JNull" "ob_tiers toy_observed = JNull"
  by (simp_all add: toy_observed_def reference_observed_def refused_def verdict_of_def verdict_valid_def tiers_value_def)

lemma toy_expected:
  "expected_of toy_entry = Inr [(u ''codes'', JArr [js ''statement-type-unsupported''])]"
  "declared_exclusion [(u ''codes'', JArr [js ''statement-type-unsupported''])] = None"
  by (simp_all add: expected_of_def toy_entry_def declared_exclusion_def)

lemma toy_self_check: "self_check cx (u ''reject'') toy_entry (JArr []) True = Inr (Some [])"
  by (simp add: self_check_def exempt_codes_def toy_expected predicted_codes_def py_set_def second_fault_absence_def)

lemma toy_codes: "py_set [js c] = Inr [js c]"
  by (simp add: py_set_def)

lemma toy_evaluation:
  "\<exists>ev. evaluate_vector_detailed cx (u ''reject'') toy_entry toy_observed (Some []) = Inr ev \<and> ev_ok ev"
  by (simp add: evaluate_vector_detailed_def toy_expected toy_codes compare_verdict_def admissible_verdicts_def
      expected_verdict_def established_def eval_establishment_def eval_contract_def eval_reject_def toy_fields
      eval_reject_stages_def eval_no_output_def eval_self_check_def Let_def STAGE_ORDER_def blank_board_def split: option.split)

section \<open>The run\<close>

lemma toy_process:
  "\<exists>r. process_vector cx toy_world [(u ''a'', toy_entry)] (u ''reject'', u ''s/a.json'') = Inr r \<and> row_pass r \<and>
     row_kind r = u ''reject''"
proof -
  obtain ev where ev: "evaluate_vector_detailed cx (u ''reject'') toy_entry toy_observed (Some []) = Inr ev" "ev_ok ev"
    using toy_evaluation by blast
  have "wd_rail toy_world = None" by (simp add: toy_world_def)
  with ev toy_stem show ?thesis
    by (simp add: process_vector_def toy_read toy_observe toy_self_check toy_expected judged_row_def Let_def)
qed

lemma toy_suite_run: "\<exists>r. run_suite cx toy_world (JObj toy_manifest) = Inr r \<and> run_exit r = 0"
proof -
  obtain r where r: "process_vector cx toy_world [(u ''a'', toy_entry)] (u ''reject'', u ''s/a.json'') = Inr r"
    "row_pass r" "row_kind r = u ''reject''" using toy_process by blast
  have w: "wd_fs toy_world = toy_fs" "wd_rail toy_world = None" by (simp_all add: toy_world_def)
  have c: "run_manifest_closure toy_fs (JObj toy_manifest) [(u ''a'', toy_entry)] [r] = Inr ([r], [])"
    by (simp add: run_manifest_closure_def toy_closure mark_unlisted_def)
  have f: "family_coherence_failures cx [(u ''a'', toy_entry)] [r] = Inr ([], [])"
    using r(3) by (simp add: family_coherence_failures_def families_def group_by_def)
  show ?thesis
    using r(2)
    by (simp add: run_suite_def toy_index toy_vectors r(1) c f w apply_coherence_def verifier_execution_def
        count_rows_def run_exit_status_def)
qed

section \<open>Rows of a family\<close>

text \<open>A family of one member with two readings, and two rows for it: one that reports the code of a
  reading, one that could not be read.\<close>

definition family_entry :: json where
  "family_entry =
     JObj [(u ''expected'', JObj [(u ''family'', js ''f''),
       (u ''readings'', JObj [(u ''early'', js ''refs-empty''), (u ''late'', js ''records-absent'')])])]"

definition family_row :: row where
  "family_row =
     \<lparr>row_id = u ''a'', row_file = u ''s/a.json'', row_kind = u ''indeterminate'', row_pass = True,
      row_gates = (\<lambda>_. Not_Scored), row_reasons = [], row_ran = None,
      row_detail = Some \<lparr>dt_conformance = True, dt_parity = Not_Scored,
        dt_observed = toy_observed\<lparr>ob_primary := js ''refs-empty''\<rparr>, dt_expected = JNull, dt_exclusion = None,
        dt_in_manifest = True, dt_conformance_reasons = [], dt_parity_findings = []\<rparr>\<rparr>"

definition broken_row :: row where
  "broken_row = family_row\<lparr>row_detail := None\<rparr>"

lemma family_reads:
  "expected_of family_entry = Inr [(u ''family'', js ''f''),
     (u ''readings'', JObj [(u ''early'', js ''refs-empty''), (u ''late'', js ''records-absent'')])]"
  "readings_of cx family_entry = Inr [(u ''early'', u ''refs-empty''), (u ''late'', u ''records-absent'')]"
  by (simp_all add: readings_of_def expected_of_def family_entry_def)

lemma family_of_rows:
  "family_of cx [(u ''a'', family_entry)] family_row = Inr (u ''f'')"
  "family_of cx [(u ''a'', family_entry)] broken_row = Inr (u ''f'')"
  by (simp_all add: family_of_def family_reads broken_row_def family_row_def Let_def)

lemma reading_names: "u ''early'' \<le> u ''late''"
  by code_simp

lemma family_row_kinds: "row_kind family_row = u ''indeterminate''" "row_kind broken_row = u ''indeterminate''"
  by (simp_all add: family_row_def broken_row_def)

lemma family_families:
  "families cx [(u ''a'', family_entry)] [family_row] = Inr [(u ''f'', [family_row])]"
  "families cx [(u ''a'', family_entry)] [broken_row] = Inr [(u ''f'', [broken_row])]"
proof -
  show "families cx [(u ''a'', family_entry)] [family_row] = Inr [(u ''f'', [family_row])]"
    "families cx [(u ''a'', family_entry)] [broken_row] = Inr [(u ''f'', [broken_row])]"
    by (simp_all add: families_def family_of_rows family_row_kinds group_by_def)
qed

lemma family_coherent: "\<exists>ns. family_coherence_failures cx [(u ''a'', family_entry)] [family_row] = Inr (ns, [])"
proof -
  have row: "row_id family_row = u ''a''" "row_primary family_row = js ''refs-empty''"
    "row_verdict family_row = js ''invalid''"
    by (simp_all add: family_row_def row_primary_def row_verdict_def toy_fields)
  have c: "committed_family [family_row]" by (simp add: committed_family_def row)
  have "matched_readings cx [(u ''a'', family_entry)] [family_row] [u ''early'', u ''late''] = Inr [u ''early'']"
    by (simp add: matched_readings_def allr_def answers_def row family_reads c Let_def)
  then show ?thesis
    by (simp add: family_coherence_failures_def family_families judge_family_def row family_reads reading_names)
qed

lemma family_broken:
  "\<exists>ns fs. family_coherence_failures cx [(u ''a'', family_entry)] [broken_row] = Inr (ns, fs)"
proof -
  have row: "row_id broken_row = u ''a''" "row_primary broken_row = JNull" "row_verdict broken_row = JNull"
    "row_codes broken_row = Inr []"
    by (simp_all add: broken_row_def family_row_def row_primary_def row_verdict_def row_codes_def)
  have c: "\<not> committed_family [broken_row]" by (simp add: committed_family_def row)
  have "matched_readings cx [(u ''a'', family_entry)] [broken_row] [u ''early'', u ''late''] = Inr []"
    by (simp add: matched_readings_def allr_def answers_def row family_reads c Let_def)
  then show ?thesis
    by (simp add: family_coherence_failures_def family_families judge_family_def row family_reads reading_names c
        member_answer_def)
qed

section \<open>An accepted vector\<close>

text \<open>A rail that answers \<open>valid\<close>, and one whose verdict moves with the key policy.\<close>

definition valid_observed :: observed where
  "valid_observed = reference_observed
     \<lparr>out_codes = [], out_result = js ''pass'', out_with_key = Some [], out_without_key = Some []\<rparr>
     \<lparr>out_codes = [], out_result = js ''pass'', out_with_key = Some [], out_without_key = Some []\<rparr>"

definition moved_observed :: observed where
  "moved_observed = valid_observed\<lparr>ob_without := js ''invalid''\<rparr>"

lemma valid_fields:
  "ob_verdict valid_observed = js ''valid''" "ob_without valid_observed = js ''valid''"
  "ob_codes valid_observed = JArr []" "ob_errors valid_observed = []"
  "ob_result valid_observed = js ''pass''" "ob_tiers valid_observed = JArr []"
  "ob_tiers_without valid_observed = JArr []" "ob_result_without valid_observed = js ''pass''"
  "''result_without_key'' \<notin> set (ob_absent valid_observed)"
  by (simp_all add: valid_observed_def reference_observed_def verdict_of_def verdict_valid_def tiers_value_def
      reference_absent_def)

lemma moved_fields:
  "ob_verdict moved_observed = js ''valid''" "ob_without moved_observed = js ''invalid''"
  "ob_codes moved_observed = JArr []" "ob_errors moved_observed = []"
  "ob_result moved_observed = js ''pass''" "ob_tiers moved_observed = JArr []"
  "ob_tiers_without moved_observed = JArr []" "ob_result_without moved_observed = js ''pass''"
  "''result_without_key'' \<notin> set (ob_absent moved_observed)"
  using valid_fields by (simp_all add: moved_observed_def)

lemma plain_expected: "expected_of JNull = Inr []" "declared_exclusion [] = None"
  by (simp_all add: expected_of_def declared_exclusion_def)

lemma accept_evaluations:
  "\<exists>ev. evaluate_vector_detailed cx (u ''accept'') JNull valid_observed None = Inr ev \<and> ev_ok ev"
  "\<exists>ev. evaluate_vector_detailed cx (u ''accept'') JNull moved_observed None = Inr ev"
  by (simp_all add: evaluate_vector_detailed_def plain_expected py_set_def compare_verdict_def
      admissible_verdicts_def expected_verdict_def established_def eval_establishment_def eval_contract_def
      eval_accept_def eval_accept_tiers_def eval_tier_column_def eval_tier_result_invariance_def valid_fields
      moved_fields blank_board_def Let_def)

end
