(* ===== verification/Dumps.thy ===== *)
theory Dumps
  imports StdLib
begin

text \<open>
  \<open>json.dumps\<close> with \<open>sort_keys=True\<close>, as the corpus readers under \<open>packaging/agent_evidence_vectors\<close> use it: the
  compact form their digests are taken over and the indented form a manifest's entries are digested
  in. On values without floats whose strings are printable ASCII the compact form is the canonical
  serialization of the statement verifier.
\<close>

section \<open>Strings\<close>

text \<open>\<open>ensure_ascii\<close>: a code point outside \<open>0x20\<close> to \<open>0x7E\<close> is escaped, beyond the BMP as a surrogate pair.\<close>

definition unit_escape :: "nat \<Rightarrow> ustr" where
  "unit_escape n =
     [92, 117, hex_digit (n div 4096 mod 16), hex_digit (n div 256 mod 16), hex_digit (n div 16 mod 16),
      hex_digit (n mod 16)]"

definition ascii_char :: "nat \<Rightarrow> ustr" where
  "ascii_char c =
     (if c = 34 then [92, 34]
      else if c = 92 then [92, 92]
      else if 32 \<le> c \<and> c \<le> 126 then [c]
      else if c = 8 then [92, 98] else if c = 9 then [92, 116] else if c = 10 then [92, 110]
      else if c = 12 then [92, 102] else if c = 13 then [92, 114]
      else if c < 65536 then unit_escape c
      else unit_escape (55296 + (c - 65536) div 1024) @ unit_escape (56320 + (c - 65536) mod 1024))"

definition ascii_string :: "ustr \<Rightarrow> ustr" where
  "ascii_string s = [34] @ concat (map ascii_char s) @ [34]"

section \<open>Values\<close>

text \<open>\<open>separators=(",", ":")\<close>, or \<open>indent=2\<close> with its default separators.\<close>

datatype json_layout = Compact | Indented

fun line_break :: "json_layout \<Rightarrow> nat \<Rightarrow> ustr" where
  "line_break Compact level = []"
| "line_break Indented level = 10 # replicate (2 * level) 32"

fun colon :: "json_layout \<Rightarrow> ustr" where
  "colon Compact = [58]"
| "colon Indented = [58, 32]"

definition bracketed :: "json_layout \<Rightarrow> nat \<Rightarrow> nat \<Rightarrow> nat \<Rightarrow> ustr list \<Rightarrow> ustr" where
  "bracketed lay level l r ts =
     (if ts = [] then [l, r]
      else [l] @ line_break lay (Suc level) @ join_with (44 # line_break lay (Suc level)) ts
        @ line_break lay level @ [r])"

fun float_text :: "ctx \<Rightarrow> pyfloat \<Rightarrow> ustr" where
  "float_text cx (Fin m e) = cx_repr cx (JFloat (Fin m e))"
| "float_text cx PInf = u ''Infinity''"
| "float_text cx NInf = u ''-Infinity''"
| "float_text cx NaN = u ''NaN''"

fun dumps :: "ctx \<Rightarrow> json_layout \<Rightarrow> nat \<Rightarrow> json \<Rightarrow> ustr" where
  "dumps cx lay level JNull = u ''null''"
| "dumps cx lay level (JBool b) = u (if b then ''true'' else ''false'')"
| "dumps cx lay level (JInt i) = int_str i"
| "dumps cx lay level (JFloat f) = float_text cx f"
| "dumps cx lay level (JStr s) = ascii_string s"
| "dumps cx lay level (JArr xs) = bracketed lay level 91 93 (map (dumps cx lay (Suc level)) xs)"
| "dumps cx lay level (JObj d) =
     bracketed lay level 123 125
       (map (\<lambda>(k, t). ascii_string k @ colon lay @ t)
         (sort_key fst (map (\<lambda>(k, v). (k, dumps cx lay (Suc level) v)) d)))"

section \<open>The canonical subset\<close>

text \<open>\<open>_canonical_values\<close> of the containment journal: integers below \<open>2 ^ 53\<close> in magnitude and printable ASCII.\<close>

definition printable :: "ustr \<Rightarrow> bool" where
  "printable s \<longleftrightarrow> list_all (\<lambda>c. 32 \<le> c \<and> c \<le> 126) s"

fun canonical_values :: "json \<Rightarrow> bool" where
  "canonical_values JNull = True"
| "canonical_values (JBool b) = True"
| "canonical_values (JInt i) = (- (2 ^ 53) < i \<and> i < 2 ^ 53)"
| "canonical_values (JStr s) = printable s"
| "canonical_values (JArr xs) = list_all canonical_values xs"
| "canonical_values (JObj d) = list_all (\<lambda>(k, v). printable k \<and> canonical_values v) d"
| "canonical_values (JFloat f) = False"

text \<open>\<open>canonical\<close>: \<open>.encode("ascii")\<close> of a text the escapes keep inside ASCII.\<close>

definition canonical_bytes :: "ctx \<Rightarrow> json \<Rightarrow> bytes" where
  "canonical_bytes cx v = dumps cx Compact 0 v"

lemma ascii_char_printable: "32 \<le> c \<Longrightarrow> c \<le> 126 \<Longrightarrow> ascii_char c = jcs_char c"
  by (auto simp: ascii_char_def jcs_char_def)

lemma ascii_string_printable: "printable s \<Longrightarrow> ascii_string s = jcs_string s"
  by (auto simp: ascii_string_def jcs_string_def printable_def list_all_iff ascii_char_printable
      intro!: arg_cong [of _ _ concat])

lemma bracketed_compact: "bracketed Compact level l r ts = [l] @ join_with [44] ts @ [r]"
  by (cases ts) (auto simp: bracketed_def)

section \<open>The compact form is the canonical serialization\<close>

lemma insort_key_order:
  assumes "\<And>y. y \<in> set ys \<Longrightarrow> f x \<le> f y \<longleftrightarrow> g x \<le> g y"
  shows "insort_key f x ys = insort_key g x ys"
  using assms by (induction ys) auto

lemma sort_key_order:
  assumes "\<And>x y. x \<in> set xs \<Longrightarrow> y \<in> set xs \<Longrightarrow> f x \<le> f y \<longleftrightarrow> g x \<le> g y"
  shows "sort_key f xs = sort_key g xs"
  using assms
proof (induction xs)
  case (Cons x xs)
  have "sort_key f xs = sort_key g xs" by (rule Cons.IH) (rule Cons.prems; simp)
  moreover have "insort_key f x (sort_key g xs) = insort_key g x (sort_key g xs)"
    by (rule insort_key_order) (rule Cons.prems; simp)
  ultimately show ?case by simp
qed simp

text \<open>Printable ASCII sorts by its UTF-16 bytes as by its code points.\<close>

lemma utf16_printable:
  "printable s \<Longrightarrow> utf16_bytes s = concat (map (\<lambda>c. [0, c]) s)"
proof (induction s)
  case (Cons c s)
  then have "32 \<le> c" "c \<le> 126" "printable s" by (simp_all add: printable_def)
  with Cons.IH show ?case by (simp add: utf16_cp_basic)
qed simp

lemma pairs_le: "concat (map (\<lambda>c. [0, c]) a) \<le> concat (map (\<lambda>c. [0, c]) b) \<longleftrightarrow> (a :: nat list) \<le> b"
  by (induction a arbitrary: b; case_tac b) auto

lemma printable_order:
  "printable a \<Longrightarrow> printable b \<Longrightarrow> utf16_bytes a \<le> utf16_bytes b \<longleftrightarrow> a \<le> b"
  by (simp add: utf16_printable pairs_le)

lemma member_order_printable:
  "list_all (\<lambda>(k, v). printable k) d \<Longrightarrow> member_order d = sort_key fst d"
  unfolding member_order_def
  by (rule sort_key_order) (auto simp: list_all_iff intro!: printable_order)

lemma printable_no_surrogate: "printable s \<Longrightarrow> \<not> has_surrogate s"
  by (auto simp: printable_def has_surrogate_def surrogate_def list_all_iff list_ex_iff)

lemma ser_canonical: "canonical_values v \<Longrightarrow> ser v = Inr (dumps cx Compact level v)"
proof (induction v arbitrary: level)
  case (JBool b)
  then show ?case by (cases b) auto
next
  case (JStr s)
  then show ?case by (simp add: ascii_string_printable)
next
  case (JArr xs)
  then have "mapr ser xs = Inr (map (dumps cx Compact (Suc level)) xs)"
    by (intro mapr_total) (auto simp: list_all_iff)
  then show ?case by (simp add: bracketed_compact)
next
  case (JObj d)
  let ?t = "map (\<lambda>(k, v). (k, dumps cx Compact (Suc level) v)) d"
  have k: "list_all (\<lambda>(k, v). printable k) d" using JObj.prems by (auto simp: list_all_iff)
  then have s: "\<not> list_ex (\<lambda>(k, v). has_surrogate k) d"
    by (auto simp: list_all_iff list_ex_iff printable_no_surrogate)
  have "ser v = Inr (dumps cx Compact (Suc level) v)" if "(k, v) \<in> set d" for k v
    using JObj.IH [OF that, of v] JObj.prems that by (auto simp: list_all_iff)
  then have "map (\<lambda>(k, v). (k, ser v)) d = map (\<lambda>(k, t). (k, Inr t)) ?t" by auto
  moreover have "member_order ?t = sort_key fst ?t"
    by (rule member_order_printable) (use k in \<open>auto simp: list_all_iff\<close>)
  ultimately have o: "member_order (map (\<lambda>(k, v). (k, ser v)) d) = map (\<lambda>(k, t). (k, Inr t)) (sort_key fst ?t)"
    by (simp only: member_order_map)
  have "mapr (\<lambda>(k, r). bindr r (\<lambda>t. Inr (jcs_string k @ [58] @ t))) (map (\<lambda>(k, t). (k, Inr t)) (sort_key fst ?t))
      = Inr (map (\<lambda>(k, t). ascii_string k @ [58] @ t) (sort_key fst ?t))"
  proof -
    have *: "jcs_string (fst p) = ascii_string (fst p)" if "p \<in> set (sort_key fst ?t)" for p
      using k that by (auto simp: list_all_iff ascii_string_printable)
    show ?thesis unfolding mapr_map
      by (rule mapr_total) (simp add: * split_beta)
  qed
  with s o show ?case by (simp add: bracketed_compact)
qed auto

end
