(* ===== verification/Journal.thy ===== *)
theory Journal
  imports Dumps "HOL-Library.Product_Lexorder"
begin

text \<open>
  The containment journal of \<open>packaging/agent_evidence_vectors/containmentjournal.py\<close> up to its walk: the
  strict load, the shapes of the record's members, the closed vocabularies, the entries as typed
  events, and the chain of digests and times.
\<close>

section \<open>Constants\<close>

definition BASE :: string where
  "BASE = ''https://probityai.github.io/agent-evidence-vectors/predicate/v1/''"

definition CONTRACT_ID :: ustr where
  "CONTRACT_ID = u BASE @ u ''containment-journal''"

definition ZERO :: ustr where
  "ZERO = u ''sha256:'' @ replicate 64 48"

definition PROOF_DEPTH :: nat where
  "PROOF_DEPTH = 64"

definition CLOSED :: "(string \<times> string list) list" where
  "CLOSED =
     [(''enforcement'', [''advisory'', ''enforced'']),
      (''event'', [''topology'', ''delivery'', ''decision'', ''fallback'', ''restart'', ''assessment'',
                   ''restoration'', ''response'', ''tool_call'', ''retrieval'', ''refusal'']),
      (''basis'', [''detector_online_label'', ''detector_no_label'', ''random_rate_matched'',
                   ''ground_truth_oracle'', ''fixed_schedule'', ''evidence_gate'']),
      (''responseFunction'', [''restriction'', ''isolation'', ''restoration'']),
      (''failurePosture'', [''fail_open'', ''fail_closed'']),
      (''availability'', [''scored'', ''no_output'', ''judge_missing'']),
      (''witness'', [''SELF'', ''EXTERNAL'']),
      (''decision'', [''act'', ''continue'', ''escalate'']),
      (''side'', [''left'', ''right'']),
      (''reasonCode'', [''budget_exhausted'', ''purpose_out_of_scope'', ''permit_revoked'',
                        ''authority_chain_violation''])]"

definition closed_words :: "string \<Rightarrow> json list" where
  "closed_words name = (case map_of CLOSED name of None \<Rightarrow> [] | Some ws \<Rightarrow> map js ws)"

section \<open>The strict load\<close>

text \<open>
  \<open>_strict_load\<close> parses with hooks that only raise a flag: on a repeated member (the last value stays),
  on a float and on a constant (both become 0). The flag is what a parse whose hooks fail would see.
  Nesting deeper than the interpreter's recursion limit is outside the model.
\<close>

definition journal_hooks :: hooks where
  "journal_hooks =
     \<lparr>pairs_hook = (\<lambda>ps. Inr (JObj (foldl (\<lambda>d (k, v). dset d k v) [] ps))),
      float_hook = (\<lambda>n. Inr (JInt 0))\<rparr>"

definition flagging_hooks :: hooks where
  "flagging_hooks = \<lparr>pairs_hook = dup_hook, float_hook = (\<lambda>n. Inl ValueError)\<rparr>"

fun zero_constants :: "json \<Rightarrow> json" where
  "zero_constants (JFloat f) = JInt 0"
| "zero_constants (JArr xs) = JArr (map zero_constants xs)"
| "zero_constants (JObj d) = JObj (map (\<lambda>(k, v). (k, zero_constants v)) d)"
| "zero_constants v = v"

definition load_flag :: "ustr \<Rightarrow> bool" where
  "load_flag text = (case loads flagging_hooks text of Inl e \<Rightarrow> True | Inr v \<Rightarrow> \<not> no_floats v)"

definition strict_load :: "bytes \<Rightarrow> (json \<times> bool) res" where
  "strict_load raw =
     (case utf8_decode raw of
        None \<Rightarrow> Inl UnicodeDecodeError
      | Some text \<Rightarrow>
          bindr (loads journal_hooks text) (\<lambda>v.
            Inr (zero_constants v, load_flag text \<or> \<not> canonical_values (zero_constants v))))"

section \<open>Times\<close>

text \<open>
  A time is spelled \<open>YYYY-MM-DDTHH:MM:SSZ\<close>: the RFC 3339 pattern at length 20. An instant is the number
  of seconds since the first day of the year 1, which orders and subtracts as \<open>datetime\<close> does.
\<close>

definition is_time :: "ustr \<Rightarrow> bool" where
  "is_time s \<longleftrightarrow> length s = 20 \<and> rfc3339_key s \<noteq> None"

definition days_before :: "nat \<Rightarrow> nat \<Rightarrow> nat" where
  "days_before y m =
     (y - 1) * 365 + (y - 1) div 4 - (y - 1) div 100 + (y - 1) div 400
       + sum_list (map (days_in_month y) [1..<m])"

definition instant :: "ustr \<Rightarrow> int" where
  "instant s =
     (case rfc3339_match s of
        None \<Rightarrow> 0
      | Some t \<Rightarrow>
          int (((days_before (ts_year t) (ts_month t) + ts_day t) * 24 + ts_hour t) * 60 + ts_min t) * 60
            + int (ts_sec t))"

section \<open>Shapes\<close>

datatype kind =
    K_bool | K_word | K_text | K_count | K_score | K_score10 | K_agent | K_digest | K_time
  | K_digests | K_agents | K_words | K_edges | K_estimates | K_proof

definition sorted_unique :: "'a::linorder list \<Rightarrow> bool" where
  "sorted_unique xs \<longleftrightarrow> list_all (\<lambda>(a, b). a < b) (zip xs (tl xs))"

fun is_integer :: "int \<Rightarrow> int option \<Rightarrow> json \<Rightarrow> bool" where
  "is_integer low high (JInt i) = (low \<le> i \<and> (case high of None \<Rightarrow> True | Some h \<Rightarrow> i \<le> h))"
| "is_integer low high _ = False"

fun is_bool :: "json \<Rightarrow> bool" where
  "is_bool (JBool _) = True" | "is_bool _ = False"

fun as_str :: "json \<Rightarrow> ustr" where
  "as_str (JStr s) = s" | "as_str _ = []"

definition str_list :: "json \<Rightarrow> ustr list" where
  "str_list v = map as_str (as_list v)"

text \<open>\<open>_DIGEST.fullmatch\<close> and \<open>_DECIMAL.fullmatch\<close>.\<close>

definition digest_match :: "ustr \<Rightarrow> bool" where
  "digest_match s \<longleftrightarrow> length s = 71 \<and> starts (u ''sha256:'') s \<and> list_all is_lower_hex (drop 7 s)"

definition decimal_match :: "ustr \<Rightarrow> bool" where
  "decimal_match s \<longleftrightarrow>
     length s = 8 \<and> is_digit (s ! 0) \<and> s ! 1 = 46 \<and> list_all is_digit (drop 2 s)"

definition is_agent :: "ustr list \<Rightarrow> json \<Rightarrow> bool" where
  "is_agent agents v \<longleftrightarrow> is_str v \<and> as_str v \<in> set agents"

definition is_digest :: "json \<Rightarrow> bool" where
  "is_digest v \<longleftrightarrow> is_str v \<and> digest_match (as_str v)"

definition edge_ok :: "ustr list \<Rightarrow> json \<Rightarrow> bool" where
  "edge_ok agents v \<longleftrightarrow>
     (case v of
        JArr [a, b] \<Rightarrow> \<not> py_eq a b \<and> is_agent agents a \<and> is_agent agents b
      | _ \<Rightarrow> False)"

definition as_edge :: "json \<Rightarrow> ustr \<times> ustr" where
  "as_edge v = (case v of JArr [a, b] \<Rightarrow> (as_str a, as_str b) | _ \<Rightarrow> ([], []))"

definition estimates_ok :: "ustr list \<Rightarrow> json \<Rightarrow> bool" where
  "estimates_ok agents v \<longleftrightarrow>
     (case v of
        JObj d \<Rightarrow> set (map fst d) = set agents \<and> list_all (\<lambda>(_, e). is_str e \<and> decimal_match (as_str e)) d
      | _ \<Rightarrow> False)"

definition step_ok :: "json \<Rightarrow> bool" where
  "step_ok v \<longleftrightarrow> (case v of JArr [side, sibling] \<Rightarrow> is_str side \<and> is_digest sibling | _ \<Rightarrow> False)"

fun shape_ok :: "kind \<Rightarrow> ustr list \<Rightarrow> json \<Rightarrow> bool" where
  "shape_ok K_bool agents v = is_bool v"
| "shape_ok K_word agents v = is_str v"
| "shape_ok K_text agents v = (is_str v \<and> length (as_str v) \<le> 300)"
| "shape_ok K_count agents v = is_integer 0 None v"
| "shape_ok K_score agents v = (v = JNull \<or> is_integer 0 (Some 10) v)"
| "shape_ok K_score10 agents v = is_integer 0 (Some 10) v"
| "shape_ok K_agent agents v = is_agent agents v"
| "shape_ok K_digest agents v = is_digest v"
| "shape_ok K_time agents v = (is_str v \<and> is_time (as_str v))"
| "shape_ok K_digests agents v = (is_list v \<and> list_all is_digest (as_list v))"
| "shape_ok K_agents agents v = (is_list v \<and> list_all (is_agent agents) (as_list v) \<and> sorted_unique (str_list v))"
| "shape_ok K_words agents v = (is_list v \<and> list_all is_str (as_list v) \<and> sorted_unique (str_list v))"
| "shape_ok K_edges agents v =
     (is_list v \<and> list_all (edge_ok agents) (as_list v) \<and> sorted_unique (map as_edge (as_list v)))"
| "shape_ok K_estimates agents v = estimates_ok agents v"
| "shape_ok K_proof agents v = (is_list v \<and> length (as_list v) \<le> PROOF_DEPTH \<and> list_all step_ok (as_list v))"

section \<open>The members of each event\<close>

definition BASE_MEMBERS :: "(string \<times> kind) list" where
  "BASE_MEMBERS = [(''seq'', K_count), (''prev'', K_digest), (''at'', K_time), (''event'', K_word)]"

definition EVENT_MEMBERS :: "(string \<times> (string \<times> kind) list) list" where
  "EVENT_MEMBERS =
     [(''topology'', [(''edges'', K_edges)]),
      (''delivery'', [(''sender'', K_agent), (''receiver'', K_agent), (''bodyDigest'', K_digest),
                      (''edgeInForce'', K_bool), (''dropped'', K_bool)]),
      (''decision'', [(''basis'', K_word), (''responseFunction'', K_word), (''edges'', K_edges),
                      (''removed'', K_edges), (''added'', K_edges), (''isolated'', K_agents)]),
      (''fallback'', [(''edges'', K_edges), (''failurePosture'', K_word), (''error'', K_text)]),
      (''restart'', [(''agent'', K_agent), (''remediated'', K_bool), (''memoryCleared'', K_bool),
                     (''configBefore'', K_digest), (''configAfter'', K_digest)]),
      (''assessment'', [(''agent'', K_agent), (''score'', K_score), (''availability'', K_word),
                        (''witness'', K_word)]),
      (''restoration'', [(''agent'', K_agent), (''admitted'', K_bool), (''threshold'', K_score10),
                         (''evidence'', K_digests), (''ruleDigest'', K_digest)]),
      (''response'', [(''decision'', K_word), (''alertAt'', K_time), (''authority'', K_text),
                      (''reason'', K_text)]),
      (''tool_call'', [(''agent'', K_agent), (''tool'', K_text)]),
      (''retrieval'', [(''agent'', K_agent), (''documentDigest'', K_digest), (''admitted'', K_bool),
                       (''proof'', K_proof)]),
      (''refusal'', [(''sender'', K_agent), (''receiver'', K_agent), (''bodyDigest'', K_digest),
                     (''reasonCode'', K_word)])]"

definition TOOL_CALL_OPTIONAL :: "(string \<times> kind) list" where
  "TOOL_CALL_OPTIONAL = [(''refused'', K_bool), (''refusalReason'', K_text), (''grantChainDigest'', K_digest)]"

definition DETECTOR_MEMBERS :: "(string \<times> kind) list" where
  "DETECTOR_MEMBERS = [(''riskEstimates'', K_estimates), (''detectorInputs'', K_words)]"

definition CLAIM_KINDS :: "(string \<times> kind) list" where
  "CLAIM_KINDS =
     [(''channelsClosed'', K_bool), (''restorationGated'', K_bool), (''defendedThroughout'', K_bool),
      (''detectorDriven'', K_bool), (''responseBoundSeconds'', K_count), (''retrievalAttested'', K_bool),
      (''authorityChainChecked'', K_bool)]"

definition TOP_MEMBERS :: "string list" where
  "TOP_MEMBERS =
     [''contractId'', ''runId'', ''agents'', ''enforcement'', ''messageFields'', ''claims'', ''entries'']"

definition TOP_OPTIONAL :: "(string \<times> kind) list" where
  "TOP_OPTIONAL = [(''snapshotRoot'', K_digest), (''componentProfileDigest'', K_digest)]"

definition keys_of :: "jdict \<Rightarrow> ustr set" where
  "keys_of d = set (map fst d)"

definition names_of :: "(string \<times> 'a) list \<Rightarrow> ustr set" where
  "names_of ms = set (map (\<lambda>(k, _). u k) ms)"

text \<open>\<open>basis\<close> of a decision names a detector: \<open>str\<close> of anything but a string starts otherwise.\<close>

definition detector_basis :: "jdict \<Rightarrow> bool" where
  "detector_basis e \<longleftrightarrow> starts (u ''detector_'') (as_str (dget e (u ''basis'')))"

definition event_members :: "jdict \<Rightarrow> (string \<times> kind) list" where
  "event_members e =
     (let event = dget e (u ''event'')
      in (case find (\<lambda>(name, _). event = js name) EVENT_MEMBERS of None \<Rightarrow> [] | Some (_, ms) \<Rightarrow> ms) @
         (if event = js ''decision'' \<and> detector_basis e then DETECTOR_MEMBERS else []) @
         (if event = js ''response'' \<and> dget e (u ''decision'') = js ''act'' then [(''actedAt'', K_time)] else []) @
         (if event = js ''tool_call'' then filter (\<lambda>(k, _). has_key e (u k)) TOOL_CALL_OPTIONAL else []))"

definition registered_event :: "jdict \<Rightarrow> bool" where
  "registered_event e \<longleftrightarrow> list_ex (\<lambda>(name, _). dget e (u ''event'') = js name) EVENT_MEMBERS"

definition shapes_ok :: "ustr list \<Rightarrow> jdict \<Rightarrow> (string \<times> kind) list \<Rightarrow> bool" where
  "shapes_ok agents e ms \<longleftrightarrow> list_all (\<lambda>(k, s). shape_ok s agents (dget e (u k))) ms"

definition entry_malformed :: "ustr list \<Rightarrow> json \<Rightarrow> bool" where
  "entry_malformed agents v =
     (case v of
        JObj e \<Rightarrow>
          if list_ex (\<lambda>(k, s). \<not> has_key e (u k) \<or> \<not> shape_ok s agents (dget e (u k))) BASE_MEMBERS then True
          else if dget e (u ''event'') = js ''tool_call'' \<and>
                  has_key e (u ''refusalReason'') \<noteq> (dget e (u ''refused'') = JBool True) then True
          else if registered_event e \<and>
                  keys_of e \<noteq> names_of BASE_MEMBERS \<union> names_of (event_members e) then True
          else \<not> shapes_ok agents e (event_members e)
      | _ \<Rightarrow> True)"

definition agents_ok :: "json \<Rightarrow> bool" where
  "agents_ok v \<longleftrightarrow>
     is_list v \<and> 2 \<le> length (as_list v) \<and> list_all is_str (as_list v) \<and> sorted_unique (str_list v)"

definition claims_ok :: "ustr list \<Rightarrow> json \<Rightarrow> bool" where
  "claims_ok agents v \<longleftrightarrow>
     (case v of
        JObj c \<Rightarrow> list_all (\<lambda>(k, x). list_ex (\<lambda>(name, s). k = u name \<and> shape_ok s agents x) CLAIM_KINDS) c
      | _ \<Rightarrow> False)"

definition record_malformed :: "jdict \<Rightarrow> bool" where
  "record_malformed r =
     (if \<not> (set (map u TOP_MEMBERS) \<subseteq> keys_of r \<and> keys_of r \<subseteq> set (map u TOP_MEMBERS) \<union> names_of TOP_OPTIONAL) \<or>
         list_ex (\<lambda>(k, s). has_key r (u k) \<and> \<not> shape_ok s [] (dget r (u k))) TOP_OPTIONAL then True
      else if \<not> agents_ok (dget r (u ''agents'')) then True
      else
        (let names = str_list (dget r (u ''agents''))
         in if \<not> is_str (dget r (u ''runId'')) \<or> \<not> is_str (dget r (u ''enforcement'')) \<or>
               \<not> shape_ok K_words names (dget r (u ''messageFields'')) \<or> \<not> claims_ok names (dget r (u ''claims'')) then True
            else
              (case dget r (u ''entries'') of
                 JArr es \<Rightarrow> es = [] \<or> list_ex (entry_malformed names) es
               | _ \<Rightarrow> True)))"

text \<open>\<open>_closed_violation\<close>: each word of an entry, and the side of each step of a proof.\<close>

definition WORD_MEMBERS :: "string list" where
  "WORD_MEMBERS =
     [''event'', ''basis'', ''responseFunction'', ''failurePosture'', ''availability'', ''witness'', ''decision'',
      ''reasonCode'']"

definition step_side :: "json \<Rightarrow> json" where
  "step_side v = (case v of JArr (side # _) \<Rightarrow> side | _ \<Rightarrow> JNull)"

definition entry_open :: "json \<Rightarrow> bool" where
  "entry_open v \<longleftrightarrow>
     list_ex (\<lambda>k. has_key (as_dict v) (u k) \<and> \<not> py_in (member v k) (closed_words k)) WORD_MEMBERS \<or>
     list_ex (\<lambda>st. \<not> py_in (step_side st) (closed_words ''side'')) (as_list (member v ''proof''))"

definition closed_violation :: "jdict \<Rightarrow> bool" where
  "closed_violation r \<longleftrightarrow>
     \<not> py_in (dget r (u ''enforcement'')) (closed_words ''enforcement'') \<or>
     list_ex entry_open (as_list (dget r (u ''entries'')))"

section \<open>Entries\<close>

text \<open>
  An entry past the shape check, with its members read into the fields of its event. The reads are by
  name and cannot fail there (\<open>event_of_ok\<close> in the theory of the walk's facts).
\<close>

type_synonym edge = "ustr \<times> ustr"

record decision =
  dc_basis :: ustr
  dc_function :: ustr
  dc_edges :: "edge list"
  dc_removed :: "edge list"
  dc_added :: "edge list"
  dc_isolated :: "ustr list"
  dc_estimates :: "ustr list"
  dc_inputs :: "ustr list"

record restoration =
  rs_agent :: ustr
  rs_admitted :: bool
  rs_threshold :: int
  rs_evidence :: "ustr list"

record response =
  rp_decision :: ustr
  rp_alert :: ustr
  rp_authority :: ustr
  rp_reason :: ustr
  rp_acted :: ustr

datatype event =
    Topology "edge list"
  | Delivery ustr ustr bool bool
  | Decision decision
  | Fallback "edge list" ustr
  | Restart ustr bool bool ustr ustr
  | Assessment ustr "int option" ustr ustr
  | Restoration restoration
  | Response response
  | Tool_Call ustr bool "ustr option"
  | Retrieval ustr ustr bool "(ustr \<times> ustr) list"
  | Refused ustr ustr

record entry =
  en_seq :: int
  en_prev :: ustr
  en_at :: ustr
  en_event :: event
  en_raw :: json

fun as_int :: "json \<Rightarrow> int" where
  "as_int (JInt i) = i" | "as_int _ = 0"

definition edge_list :: "json \<Rightarrow> edge list" where
  "edge_list v = map as_edge (as_list v)"

definition int_or_null :: "json \<Rightarrow> int option" where
  "int_or_null v = (if v = JNull then None else Some (as_int v))"

definition str_or_absent :: "json \<Rightarrow> ustr option" where
  "str_or_absent v = (if v = JNull then None else Some (as_str v))"

definition event_of :: "json \<Rightarrow> event option" where
  "event_of e =
     (let is = (\<lambda>name. member e ''event'' = js name); str = (\<lambda>k. as_str (member e k)); flag = (\<lambda>k. member e k = JBool True)
      in if is ''topology'' then Some (Topology (edge_list (member e ''edges'')))
         else if is ''delivery'' then
           Some (Delivery (str ''sender'') (str ''receiver'') (flag ''edgeInForce'') (flag ''dropped''))
         else if is ''decision'' then
           Some (Decision \<lparr>dc_basis = str ''basis'', dc_function = str ''responseFunction'',
             dc_edges = edge_list (member e ''edges''), dc_removed = edge_list (member e ''removed''),
             dc_added = edge_list (member e ''added''), dc_isolated = str_list (member e ''isolated''),
             dc_estimates = map (\<lambda>(_, v). as_str v) (as_dict (member e ''riskEstimates'')),
             dc_inputs = str_list (member e ''detectorInputs'')\<rparr>)
         else if is ''fallback'' then Some (Fallback (edge_list (member e ''edges'')) (str ''failurePosture''))
         else if is ''restart'' then
           Some (Restart (str ''agent'') (flag ''remediated'') (flag ''memoryCleared'') (str ''configBefore'') (str ''configAfter''))
         else if is ''assessment'' then
           Some (Assessment (str ''agent'') (int_or_null (member e ''score'')) (str ''availability'') (str ''witness''))
         else if is ''restoration'' then
           Some (Restoration \<lparr>rs_agent = str ''agent'', rs_admitted = flag ''admitted'',
             rs_threshold = as_int (member e ''threshold''), rs_evidence = str_list (member e ''evidence'')\<rparr>)
         else if is ''response'' then
           Some (Response \<lparr>rp_decision = str ''decision'', rp_alert = str ''alertAt'',
             rp_authority = str ''authority'', rp_reason = str ''reason'', rp_acted = str ''actedAt''\<rparr>)
         else if is ''tool_call'' then
           Some (Tool_Call (str ''agent'') (flag ''refused'') (str_or_absent (member e ''grantChainDigest'')))
         else if is ''retrieval'' then
           Some (Retrieval (str ''agent'') (str ''documentDigest'') (flag ''admitted'')
             (map as_edge (as_list (member e ''proof''))))
         else if is ''refusal'' then Some (Refused (str ''sender'') (str ''receiver''))
         else None)"

definition entry_of :: "json \<Rightarrow> entry option" where
  "entry_of e =
     map_option (\<lambda>ev. \<lparr>en_seq = as_int (member e ''seq''), en_prev = as_str (member e ''prev''),
       en_at = as_str (member e ''at''), en_event = ev, en_raw = e\<rparr>) (event_of e)"

section \<open>The chain\<close>

definition entry_digest :: "ctx \<Rightarrow> json \<Rightarrow> ustr" where
  "entry_digest cx e = u ''sha256:'' @ sha256_hex cx (canonical_bytes cx e)"

fun chain_from :: "ctx \<Rightarrow> ustr \<Rightarrow> entry list \<Rightarrow> bool" where
  "chain_from cx expected [] = False"
| "chain_from cx expected (e # es) =
     (if en_prev e \<noteq> expected then True else chain_from cx (entry_digest cx (en_raw e)) es)"

definition chain_broken :: "ctx \<Rightarrow> entry list \<Rightarrow> bool" where
  "chain_broken cx es = chain_from cx ZERO es"

fun is_topology :: "event \<Rightarrow> bool" where
  "is_topology (Topology g) = True" | "is_topology _ = False"

text \<open>The first rule of a list, in order, that failed.\<close>

definition first_rule :: "(string \<times> bool) list \<Rightarrow> string option" where
  "first_rule rules = map_option fst (find snd rules)"

definition chain_failure :: "ctx \<Rightarrow> entry list \<Rightarrow> string option" where
  "chain_failure cx es =
     first_rule
       [(''chain_seq_gap'', list_ex (\<lambda>(i, e). en_seq e \<noteq> int i) (enumerate 0 es)),
        (''chain_broken'', chain_broken cx es),
        (''chain_time_reversed'',
           list_ex (\<lambda>(a, b). instant (en_at b) < instant (en_at a)) (zip es (tl es))),
        (''topology_missing'',
           \<not> is_topology (en_event (hd es)) \<or> list_ex (\<lambda>e. is_topology (en_event e)) (tl es))]"

end
