(* ===== verification/Walk.thy ===== *)
theory Walk
  imports Journal
begin

text \<open>
  The walk of \<open>packaging/agent_evidence_vectors/containmentjournal.py\<close> over the entries of a journal: the
  state it holds (\<open>_Walk\<close>), one handler per event, the run-level claims, and the judgement of a journal.
  A verifier switches no rule off, so \<open>skip\<close> is empty here.
\<close>

section \<open>The run and the state of the walk\<close>

record journal =
  rn_id :: ustr
  rn_agents :: "ustr list"
  rn_enforcement :: ustr
  rn_fields :: "ustr list"
  rn_claims :: jdict
  rn_snapshot :: "ustr option"
  rn_entries :: "entry list"

text \<open>
  \<open>isolated_at\<close> maps the isolated agents to the entry that isolated them, \<open>admitted\<close> lists the admitted
  restorations as pairs of agent and entry.
\<close>

record walk =
  wk_graph :: "edge list"
  wk_isolated :: "(ustr \<times> nat) list"
  wk_admitted :: "(ustr \<times> nat) list"

definition claims :: "journal \<Rightarrow> string \<Rightarrow> bool" where
  "claims rn name \<longleftrightarrow> truthy (dget (rn_claims rn) (u name))"

definition enforced :: "journal \<Rightarrow> bool" where
  "enforced rn \<longleftrightarrow> rn_enforcement rn = u ''enforced''"

definition listed :: "edge list \<Rightarrow> edge list" where
  "listed es = sort (remdups es)"

definition minus_edges :: "edge list \<Rightarrow> edge list \<Rightarrow> edge list" where
  "minus_edges a b = filter (\<lambda>e. e \<notin> set b) a"

definition isolated :: "ustr list \<Rightarrow> edge list \<Rightarrow> ustr list" where
  "isolated agents g = filter (\<lambda>a. a \<notin> fst ` set g) agents"

definition since :: "walk \<Rightarrow> ustr \<Rightarrow> nat option" where
  "since w a = map_of (wk_isolated w) a"

text \<open>\<open>by_digest\<close>: of entries with one digest, the last.\<close>

definition by_digest :: "ctx \<Rightarrow> journal \<Rightarrow> ustr \<Rightarrow> nat option" where
  "by_digest cx rn d =
     map_of (rev (map (\<lambda>(i, e). (entry_digest cx (en_raw e), i)) (enumerate 0 (rn_entries rn)))) d"

fun edges_of :: "event \<Rightarrow> edge list" where
  "edges_of (Topology g) = g" | "edges_of _ = []"

definition init_walk :: "journal \<Rightarrow> walk" where
  "init_walk rn =
     (let g = edges_of (en_event (hd (rn_entries rn)))
      in \<lparr>wk_graph = g, wk_isolated = map (\<lambda>a. (a, 0)) (isolated (rn_agents rn) g), wk_admitted = []\<rparr>)"

definition refuse :: "bool \<Rightarrow> string \<Rightarrow> 'a res \<Rightarrow> 'a res" where
  "refuse b name k = (if b then Inl (Refusal name) else k)"

definition replace :: "journal \<Rightarrow> nat \<Rightarrow> edge list \<Rightarrow> walk \<Rightarrow> walk" where
  "replace rn i g w =
     w\<lparr>wk_graph := g,
       wk_isolated := map (\<lambda>a. (a, case since w a of None \<Rightarrow> i | Some k \<Rightarrow> k)) (isolated (rn_agents rn) g)\<rparr>"

section \<open>Messages\<close>

definition walk_delivery :: "journal \<Rightarrow> ustr \<Rightarrow> ustr \<Rightarrow> bool \<Rightarrow> bool \<Rightarrow> walk \<Rightarrow> walk res" where
  "walk_delivery rn sender receiver edge_in_force dropped w =
     (let in_force = (sender, receiver) \<in> set (wk_graph w)
      in refuse (edge_in_force \<noteq> in_force) ''edge_flag_mismatch''
         (refuse (dropped \<and> in_force) ''drop_over_present_edge''
         (refuse (\<not> dropped \<and> \<not> in_force \<and> enforced rn) ''delivered_over_absent_edge''
         (Inr w))))"

definition walk_refusal :: "ustr \<Rightarrow> ustr \<Rightarrow> walk \<Rightarrow> walk res" where
  "walk_refusal sender receiver w =
     refuse ((sender, receiver) \<notin> set (wk_graph w)) ''refusal_over_absent_edge'' (Inr w)"

definition walk_tool_call :: "ustr \<Rightarrow> bool \<Rightarrow> walk \<Rightarrow> walk res" where
  "walk_tool_call agent refused w =
     refuse (\<not> refused \<and> agent \<notin> fst ` set (wk_graph w)) ''tool_call_by_isolated_agent'' (Inr w)"

section \<open>Decisions and fallbacks\<close>

definition unreturned :: "journal \<Rightarrow> nat \<Rightarrow> walk \<Rightarrow> ustr \<Rightarrow> bool" where
  "unreturned rn i w a \<longleftrightarrow>
     \<not> list_ex (\<lambda>(b, at). b = a \<and> the (since w a) < at \<and> at < i) (wk_admitted w)"

definition walk_decision :: "journal \<Rightarrow> nat \<Rightarrow> decision \<Rightarrow> walk \<Rightarrow> walk res" where
  "walk_decision rn i d w =
     (let new = dc_edges d; old = wk_graph w;
          detector = starts (u ''detector_'') (dc_basis d);
          returned = filter (\<lambda>a. a \<notin> set (dc_isolated d)) (map fst (wk_isolated w))
      in refuse (dc_removed d \<noteq> listed (minus_edges old new) \<or> dc_added d \<noteq> listed (minus_edges new old))
           ''edge_delta_mismatch''
         (refuse (dc_isolated d \<noteq> isolated (rn_agents rn) new) ''isolated_set_mismatch''
         (refuse (dc_function d \<in> {u ''restriction'', u ''isolation''} \<and> dc_added d \<noteq> [])
           ''topology_expansion_not_restriction''
         (refuse (detector \<and> \<not> set (dc_inputs d) \<subseteq> set (rn_fields rn)) ''detector_inputs_absent''
         (refuse (detector \<and> card (set (dc_estimates d)) = 1 \<and> (dc_removed d \<noteq> [] \<or> dc_isolated d \<noteq> []))
           ''decision_not_supported_by_estimates''
         (refuse (dc_function d = u ''restoration'' \<and> claims rn ''restorationGated'' \<and>
                  list_ex (unreturned rn i w) returned) ''reenable_without_restoration''
         (Inr (replace rn i new w))))))))"

definition complete_graph :: "ustr list \<Rightarrow> edge list" where
  "complete_graph agents = [(a, b). a \<leftarrow> agents, b \<leftarrow> agents, a \<noteq> b]"

definition walk_fallback :: "journal \<Rightarrow> nat \<Rightarrow> edge list \<Rightarrow> ustr \<Rightarrow> walk \<Rightarrow> walk res" where
  "walk_fallback rn i new posture w =
     refuse (set new = set (complete_graph (rn_agents rn)) \<and> posture \<noteq> u ''fail_open'') ''posture_contradicted''
     (refuse (set new = set (wk_graph w) \<and> posture \<noteq> u ''fail_closed'') ''posture_contradicted''
     (Inr (replace rn i new w)))"

section \<open>Restarts, assessments and restorations\<close>

definition walk_restart :: "bool \<Rightarrow> bool \<Rightarrow> ustr \<Rightarrow> ustr \<Rightarrow> walk \<Rightarrow> walk res" where
  "walk_restart remediated cleared cfg cfg' w =
     refuse (remediated \<noteq> (cfg \<noteq> cfg')) ''remediation_not_evidenced''
     (refuse (\<not> cleared) ''restart_memory_not_cleared'' (Inr w))"

definition walk_assessment :: "int option \<Rightarrow> ustr \<Rightarrow> walk \<Rightarrow> walk res" where
  "walk_assessment score availability w =
     refuse (availability \<noteq> u ''scored'' \<and> score \<noteq> None) ''missing_score_coerced''
     (refuse (availability = u ''scored'' \<and> score = None) ''score_missing_unflagged'' (Inr w))"

definition cited_entry :: "ctx \<Rightarrow> journal \<Rightarrow> nat \<Rightarrow> ustr \<Rightarrow> entry res" where
  "cited_entry cx rn i d =
     (case by_digest cx rn d of
        None \<Rightarrow> Inl (Refusal ''restoration_evidence_unresolved'')
      | Some at \<Rightarrow> refuse (i \<le> at) ''restoration_evidence_unresolved'' (Inr (rn_entries rn ! at)))"

fun restarts :: "ustr \<Rightarrow> entry \<Rightarrow> bool" where
  "restarts a e = (case en_event e of Restart b _ _ _ _ \<Rightarrow> b = a | _ \<Rightarrow> False)"

fun assesses :: "ustr \<Rightarrow> entry \<Rightarrow> bool" where
  "assesses a e = (case en_event e of Assessment b _ _ _ \<Rightarrow> b = a | _ \<Rightarrow> False)"

text \<open>\<open>max(scores, key=lambda c: c["seq"])\<close>: the first entry with the greatest number.\<close>

fun latest :: "entry \<Rightarrow> entry list \<Rightarrow> entry" where
  "latest e [] = e"
| "latest e (f # es) = latest (if en_seq e < en_seq f then f else e) es"

fun score_of :: "event \<Rightarrow> int option" where
  "score_of (Assessment a score av wit) = score" | "score_of _ = None"

fun witness_of :: "event \<Rightarrow> ustr" where
  "witness_of (Assessment a score av wit) = wit" | "witness_of _ = []"

definition walk_restoration :: "ctx \<Rightarrow> journal \<Rightarrow> nat \<Rightarrow> restoration \<Rightarrow> walk \<Rightarrow> walk res" where
  "walk_restoration cx rn i r w =
     (if \<not> rs_admitted r then Inr w
      else refuse (rs_evidence r = []) ''restoration_without_evidence''
        (bindr (mapr (cited_entry cx rn i) (rs_evidence r)) (\<lambda>cited.
         let scores = filter (assesses (rs_agent r)) cited;
             last = latest (hd scores) (tl scores)
         in refuse (\<not> list_ex (restarts (rs_agent r)) cited) ''restoration_without_restart''
            (refuse (scores = []) ''restoration_without_assessment''
            (refuse (score_of (en_event last) = None) ''restoration_evidence_not_scored''
            (refuse (witness_of (en_event last) = u ''SELF'') ''restoration_evidence_self_witnessed''
            (refuse (rs_threshold r \<le> the (score_of (en_event last))) ''restoration_evidence_above_threshold''
            (Inr (w\<lparr>wk_admitted := wk_admitted w @ [(rs_agent r, i)]\<rparr>)))))))))"

section \<open>Responses and retrievals\<close>

definition walk_response :: "journal \<Rightarrow> response \<Rightarrow> walk \<Rightarrow> walk res" where
  "walk_response rn r w =
     (if rp_decision r \<noteq> u ''act''
      then refuse (rp_authority r = [] \<or> rp_reason r = []) ''decision_without_authority'' (Inr w)
      else
        (let delay = instant (rp_acted r) - instant (rp_alert r);
             bound = dget (rn_claims rn) (u ''responseBoundSeconds'')
         in refuse (delay < 0) ''response_time_inverted''
            (refuse (bound \<noteq> JNull \<and> as_int bound < delay) ''response_bound_exceeded'' (Inr w))))"

text \<open>\<open>bytes.fromhex\<close> of lowercase hex digits, and \<open>merkle_root\<close>.\<close>

definition hex_value :: "nat \<Rightarrow> nat" where
  "hex_value c = (if c < 58 then c - 48 else c - 87)"

fun from_hex :: "ustr \<Rightarrow> bytes" where
  "from_hex (a # b # s) = (16 * hex_value a + hex_value b) # from_hex s"
| "from_hex _ = []"

fun merkle_path :: "ctx \<Rightarrow> bytes \<Rightarrow> (ustr \<times> ustr) list \<Rightarrow> bytes" where
  "merkle_path cx node [] = node"
| "merkle_path cx node ((side, sibling) # steps) =
     (let other = from_hex (drop 7 sibling)
      in merkle_path cx
           (cx_sha256 cx (1 # (if side = u ''left'' then other @ node else node @ other))) steps)"

definition merkle_leaf :: "ctx \<Rightarrow> ustr \<Rightarrow> bytes" where
  "merkle_leaf cx document = cx_sha256 cx (0 # from_hex (drop 7 document))"

definition inclusion_root :: "ctx \<Rightarrow> ustr \<Rightarrow> (ustr \<times> ustr) list \<Rightarrow> ustr" where
  "inclusion_root cx document proof_steps =
     u ''sha256:'' @ hex_of (merkle_path cx (merkle_leaf cx document) proof_steps)"

definition walk_retrieval :: "ctx \<Rightarrow> journal \<Rightarrow> ustr \<Rightarrow> bool \<Rightarrow> (ustr \<times> ustr) list \<Rightarrow> walk \<Rightarrow> walk res" where
  "walk_retrieval cx rn document admitted proof_steps w =
     refuse (admitted \<and> (rn_snapshot rn \<noteq> None \<or> claims rn ''retrievalAttested'') \<and>
             Some (inclusion_root cx document proof_steps) \<noteq> rn_snapshot rn)
       ''retrieval_admitted_outside_snapshot'' (Inr w)"

section \<open>The walk\<close>

fun walk_entry :: "ctx \<Rightarrow> journal \<Rightarrow> nat \<times> entry \<Rightarrow> walk \<Rightarrow> walk res" where
  "walk_entry cx rn (i, e) w =
     (case en_event e of
        Topology g \<Rightarrow> Inl AttributeError
      | Delivery s r in_force dropped \<Rightarrow> walk_delivery rn s r in_force dropped w
      | Decision d \<Rightarrow> walk_decision rn i d w
      | Fallback g posture \<Rightarrow> walk_fallback rn i g posture w
      | Restart a remediated cleared cfg cfg' \<Rightarrow> walk_restart remediated cleared cfg cfg' w
      | Assessment a score av wit \<Rightarrow> walk_assessment score av w
      | Restoration r \<Rightarrow> walk_restoration cx rn i r w
      | Response r \<Rightarrow> walk_response rn r w
      | Tool_Call a refused chain \<Rightarrow> walk_tool_call a refused w
      | Retrieval a document admitted steps \<Rightarrow> walk_retrieval cx rn document admitted steps w
      | Refused s r \<Rightarrow> walk_refusal s r w)"

definition walk_run :: "ctx \<Rightarrow> journal \<Rightarrow> walk res" where
  "walk_run cx rn = loopr (walk_entry cx rn) (enumerate 1 (tl (rn_entries rn))) (init_walk rn)"

section \<open>Run-level claims\<close>

fun informative :: "event \<Rightarrow> bool" where
  "informative (Decision d) = (starts (u ''detector_'') (dc_basis d) \<and> 1 < card (set (dc_estimates d)))"
| "informative _ = False"

fun fails_open :: "event \<Rightarrow> bool" where
  "fails_open (Fallback g posture) = (posture = u ''fail_open'')" | "fails_open _ = False"

fun unbound_call :: "event \<Rightarrow> bool" where
  "unbound_call (Tool_Call a refused chain) = (\<not> refused \<and> chain = None)" | "unbound_call _ = False"

definition claims_failure :: "journal \<Rightarrow> string option" where
  "claims_failure rn =
     (let some = (\<lambda>p. list_ex (\<lambda>e. p (en_event e)) (rn_entries rn))
      in first_rule
        [(''advisory_claimed_as_enforced'', claims rn ''channelsClosed'' \<and> rn_enforcement rn = u ''advisory''),
         (''defended_claim_after_fail_open'', claims rn ''defendedThroughout'' \<and> some fails_open),
         (''detector_output_uninformative'', claims rn ''detectorDriven'' \<and> \<not> some informative),
         (''tool_call_authority_unbound'', claims rn ''authorityChainChecked'' \<and> some unbound_call)])"

section \<open>The judgement\<close>

definition run_of :: "jdict \<Rightarrow> journal option" where
  "run_of r =
     (case those (map entry_of (as_list (dget r (u ''entries'')))) of
        None \<Rightarrow> None
      | Some es \<Rightarrow>
          Some \<lparr>rn_id = as_str (dget r (u ''runId'')), rn_agents = str_list (dget r (u ''agents'')),
                rn_enforcement = as_str (dget r (u ''enforcement'')),
                rn_fields = str_list (dget r (u ''messageFields'')),
                rn_claims = as_dict (dget r (u ''claims'')),
                rn_snapshot = str_or_absent (dget r (u ''snapshotRoot'')), rn_entries = es\<rparr>)"

definition early_failure :: "json \<Rightarrow> bool \<Rightarrow> string option" where
  "early_failure record not_canonical =
     (let r = as_dict record
      in first_rule
        [(''contract_id_missing'', \<not> is_dict record \<or> \<not> has_key r (u ''contractId'')),
         (''contract_id_unknown'', dget r (u ''contractId'') \<noteq> JStr CONTRACT_ID),
         (''record_not_canonical'', not_canonical),
         (''record_malformed'', record_malformed r),
         (''closed_vocabulary_violation'', closed_violation r)])"

definition walk_failure :: "ctx \<Rightarrow> journal \<Rightarrow> string option res" where
  "walk_failure cx rn =
     (case walk_run cx rn of
        Inl (Refusal name) \<Rightarrow> Inr (Some name)
      | Inl e \<Rightarrow> Inl e
      | Inr w \<Rightarrow> Inr (claims_failure rn))"

definition judge_journal :: "ctx \<Rightarrow> json \<Rightarrow> bool \<Rightarrow> string option res" where
  "judge_journal cx record not_canonical =
     (case early_failure record not_canonical of
        Some name \<Rightarrow> Inr (Some name)
      | None \<Rightarrow>
          (case run_of (as_dict record) of
             None \<Rightarrow> Inl AttributeError
           | Some rn \<Rightarrow>
               (case chain_failure cx (rn_entries rn) of
                  Some name \<Rightarrow> Inr (Some name)
                | None \<Rightarrow> walk_failure cx rn)))"

end
