(* ===== verification/Receipt.thy ===== *)
theory Receipt
  imports Walk
begin

text \<open>
  The blast-radius receipt of \<open>packaging/agent_evidence_vectors/containmentjournal.py\<close>: the reach recomputed
  from a journal, the judgement of a receipt beside an allowed journal, and the reader's answer for the
  two files of a case.
\<close>

section \<open>The reach of a subject\<close>

record reach =
  rc_tainted :: "ustr list"
  rc_deliveries :: nat
  rc_tools :: nat

fun reach_step :: "event \<Rightarrow> reach \<Rightarrow> reach" where
  "reach_step (Delivery s r in_force dropped) x =
     (if \<not> dropped \<and> s \<in> set (rc_tainted x)
      then x\<lparr>rc_tainted := List.insert r (rc_tainted x), rc_deliveries := Suc (rc_deliveries x)\<rparr> else x)"
| "reach_step (Tool_Call a refused chain) x =
     (if a \<in> set (rc_tainted x) then x\<lparr>rc_tools := Suc (rc_tools x)\<rparr> else x)"
| "reach_step _ x = x"

definition reach_of :: "entry list \<Rightarrow> ustr \<Rightarrow> nat \<Rightarrow> reach" where
  "reach_of es subject from_seq =
     fold (\<lambda>e. reach_step (en_event e)) (drop from_seq es)
       \<lparr>rc_tainted = [subject], rc_deliveries = 0, rc_tools = 0\<rparr>"

definition reached_agents :: "entry list \<Rightarrow> ustr \<Rightarrow> nat \<Rightarrow> ustr list" where
  "reached_agents es subject from_seq =
     sort (filter (\<lambda>a. a \<noteq> subject) (rc_tainted (reach_of es subject from_seq)))"

definition reach_json :: "entry list \<Rightarrow> ustr \<Rightarrow> nat \<Rightarrow> json" where
  "reach_json es subject from_seq =
     JObj [(u ''agents'', JArr (map JStr (reached_agents es subject from_seq))),
           (u ''deliveries'', JInt (int (rc_deliveries (reach_of es subject from_seq)))),
           (u ''toolCalls'', JInt (int (rc_tools (reach_of es subject from_seq))))]"

section \<open>The receipt\<close>

definition RECEIPT_CONTRACT_ID :: ustr where
  "RECEIPT_CONTRACT_ID = u BASE @ u ''blast-radius-receipt''"

definition receipt_malformed :: "jdict \<Rightarrow> journal \<Rightarrow> bool" where
  "receipt_malformed receipt rn =
     (let agents = rn_agents rn; journal = dget receipt (u ''journal''); reached = dget receipt (u ''reached'')
      in keys_of receipt \<noteq> u ` {''contractId'', ''journal'', ''subject'', ''fromSeq'', ''reached''} \<or>
         \<not> is_dict journal \<or> keys_of (as_dict journal) \<noteq> u ` {''runId'', ''head'', ''entries''} \<or>
         \<not> is_str (member journal ''runId'') \<or> \<not> shape_ok K_digest agents (member journal ''head'') \<or>
         \<not> shape_ok K_count agents (member journal ''entries'') \<or>
         \<not> shape_ok K_agent agents (dget receipt (u ''subject'')) \<or>
         \<not> shape_ok K_count agents (dget receipt (u ''fromSeq'')) \<or>
         int (length (rn_entries rn)) \<le> as_int (dget receipt (u ''fromSeq'')) \<or>
         \<not> is_dict reached \<or> keys_of (as_dict reached) \<noteq> u ` {''agents'', ''deliveries'', ''toolCalls''} \<or>
         \<not> shape_ok K_agents agents (member reached ''agents'') \<or>
         dget receipt (u ''subject'') \<in> set (as_list (member reached ''agents'')) \<or>
         \<not> shape_ok K_count agents (member reached ''deliveries'') \<or>
         \<not> shape_ok K_count agents (member reached ''toolCalls''))"

definition understated :: "json \<Rightarrow> json \<Rightarrow> bool" where
  "understated found claimed \<longleftrightarrow>
     \<not> set (as_list (member found ''agents'')) \<subseteq> set (as_list (member claimed ''agents'')) \<or>
     as_int (member claimed ''deliveries'') < as_int (member found ''deliveries'') \<or>
     as_int (member claimed ''toolCalls'') < as_int (member found ''toolCalls'')"

definition journal_head :: "ctx \<Rightarrow> journal \<Rightarrow> json" where
  "journal_head cx rn =
     JObj [(u ''runId'', JStr (rn_id rn)),
           (u ''head'', JStr (entry_digest cx (en_raw (last (rn_entries rn))))),
           (u ''entries'', JInt (int (length (rn_entries rn))))]"

definition judge_receipt :: "ctx \<Rightarrow> json \<Rightarrow> bool \<Rightarrow> journal \<Rightarrow> string option" where
  "judge_receipt cx receipt not_canonical rn =
     (let r = as_dict receipt;
          found = reach_json (rn_entries rn) (as_str (dget r (u ''subject''))) (nat (as_int (dget r (u ''fromSeq''))))
      in first_rule
        [(''receipt_contract_id_missing'', \<not> is_dict receipt \<or> \<not> has_key r (u ''contractId'')),
         (''receipt_contract_id_unknown'', dget r (u ''contractId'') \<noteq> JStr RECEIPT_CONTRACT_ID),
         (''receipt_malformed'', not_canonical \<or> receipt_malformed r rn),
         (''receipt_journal_mismatch'', \<not> py_eq (dget r (u ''journal'')) (journal_head cx rn)),
         (''blast_radius_understated'', understated found (dget r (u ''reached''))),
         (''blast_radius_overstated'', \<not> py_eq (dget r (u ''reached'')) found)])"

section \<open>The reader's answer\<close>

definition CHECKS :: "string list" where
  "CHECKS =
     [''contract_id_missing'', ''contract_id_unknown'', ''record_not_canonical'', ''record_malformed'',
      ''closed_vocabulary_violation'', ''chain_seq_gap'', ''chain_broken'', ''chain_time_reversed'',
      ''topology_missing'', ''edge_flag_mismatch'', ''drop_over_present_edge'',
      ''delivered_over_absent_edge'', ''refusal_over_absent_edge'', ''edge_delta_mismatch'',
      ''isolated_set_mismatch'', ''topology_expansion_not_restriction'', ''detector_inputs_absent'',
      ''decision_not_supported_by_estimates'', ''reenable_without_restoration'',
      ''posture_contradicted'', ''remediation_not_evidenced'', ''restart_memory_not_cleared'',
      ''missing_score_coerced'', ''score_missing_unflagged'', ''restoration_without_evidence'',
      ''restoration_evidence_unresolved'', ''restoration_without_restart'',
      ''restoration_without_assessment'', ''restoration_evidence_not_scored'',
      ''restoration_evidence_self_witnessed'', ''restoration_evidence_above_threshold'',
      ''decision_without_authority'', ''response_time_inverted'', ''response_bound_exceeded'',
      ''retrieval_admitted_outside_snapshot'', ''tool_call_by_isolated_agent'',
      ''advisory_claimed_as_enforced'', ''defended_claim_after_fail_open'',
      ''detector_output_uninformative'', ''tool_call_authority_unbound'']"

definition RECEIPT_CHECKS :: "string list" where
  "RECEIPT_CHECKS =
     [''receipt_contract_id_missing'', ''receipt_contract_id_unknown'', ''receipt_malformed'',
      ''receipt_journal_mismatch'', ''blast_radius_understated'', ''blast_radius_overstated'']"

datatype ruling = Allow | Deny

type_synonym answer = "ruling \<times> string"

definition answer :: "string option \<Rightarrow> string \<Rightarrow> answer" where
  "answer reason allowed = (case reason of None \<Rightarrow> (Allow, allowed) | Some name \<Rightarrow> (Deny, name))"

text \<open>The journal's bytes, and the receipt's where there is a \<open>receipt.json\<close> beside it.\<close>

definition journal_verify :: "ctx \<Rightarrow> bytes \<Rightarrow> bytes option \<Rightarrow> answer res" where
  "journal_verify cx raw receipt =
     bindr (strict_load raw) (\<lambda>(record, bad).
     bindr (judge_journal cx record bad) (\<lambda>reason.
       case (reason, receipt, run_of (as_dict record)) of
         (None, Some receipt_raw, Some rn) \<Rightarrow>
           bindr (strict_load receipt_raw) (\<lambda>(r, receipt_bad).
             Inr (answer (judge_receipt cx r receipt_bad rn) ''blast_radius_consistent''))
       | _ \<Rightarrow> Inr (answer reason ''containment_consistent'')))"

end
