(* ===== verification/WalkFacts.thy ===== *)
theory WalkFacts
  imports Receipt
begin

text \<open>
  What the walk of a containment journal keeps: the graph in force before each entry, since when each
  isolated agent is isolated, and which restorations were admitted on what evidence. The state of the
  walk is determined by the entries before it; the properties of allowed journals rest on this.
\<close>

section \<open>Rules and refusals\<close>

lemma first_rule_simps [simp]:
  "first_rule [] = None"
  "first_rule ((n, b) # rs) = (if b then Some n else first_rule rs)"
  by (simp_all add: first_rule_def)

lemma refuse_Inr [simp, res_iff]: "refuse b n k = Inr x \<longleftrightarrow> \<not> b \<and> k = Inr x"
  by (simp add: refuse_def)

lemma refuse_Inl: "refuse b n k = Inl e \<longleftrightarrow> b \<and> e = Refusal n \<or> \<not> b \<and> k = Inl e"
  by (auto simp: refuse_def)

text \<open>A loop over numbered elements that keeps a fact about each number's state.\<close>

lemma loopr_enumerate:
  assumes "loopr f (enumerate k xs) s = Inr t" and "P k s"
    and "\<And>i s s'. k \<le> i \<Longrightarrow> i < k + length xs \<Longrightarrow> P i s \<Longrightarrow> f (i, xs ! (i - k)) s = Inr s' \<Longrightarrow> P (Suc i) s'"
  shows "P (k + length xs) t \<and>
    (\<forall>i. k \<le> i \<and> i < k + length xs \<longrightarrow> (\<exists>s s'. P i s \<and> f (i, xs ! (i - k)) s = Inr s' \<and> P (Suc i) s'))"
  using assms
proof (induction xs arbitrary: k s)
  case (Cons x xs)
  from Cons.prems(1) obtain s1 where s1: "f (k, x) s = Inr s1" "loopr f (enumerate (Suc k) xs) s1 = Inr t"
    by (auto simp: bindr_Inr_iff)
  have P1: "P (Suc k) s1" by (rule Cons.prems(3) [of k s]) (use s1 Cons.prems(2) in simp_all)
  have nth: "(x # xs) ! (i - k) = xs ! (i - Suc k)" if "Suc k \<le> i" for i
    using that by (metis Suc_diff_Suc Suc_le_lessD nth_Cons_Suc)
  have rest: "P (Suc k + length xs) t \<and>
      (\<forall>i. Suc k \<le> i \<and> i < Suc k + length xs \<longrightarrow>
        (\<exists>s s'. P i s \<and> f (i, xs ! (i - Suc k)) s = Inr s' \<and> P (Suc i) s'))"
  proof (rule Cons.IH [OF s1(2) P1])
    fix i s s'
    assume "Suc k \<le> i" "i < Suc k + length xs" "P i s" "f (i, xs ! (i - Suc k)) s = Inr s'"
    then show "P (Suc i) s'" by (intro Cons.prems(3) [of i s]) (simp_all add: nth)
  qed
  show ?case
  proof (intro conjI allI impI)
    show "P (k + length (x # xs)) t" using rest by simp
    fix i assume i: "k \<le> i \<and> i < k + length (x # xs)"
    show "\<exists>s s'. P i s \<and> f (i, (x # xs) ! (i - k)) s = Inr s' \<and> P (Suc i) s'"
    proof (cases "i = k")
      case True
      with s1 P1 Cons.prems(2) show ?thesis by auto
    next
      case False
      with i rest nth show ?thesis by auto
    qed
  qed
qed auto

section \<open>The graph in force\<close>

fun next_graph :: "event \<Rightarrow> edge set \<Rightarrow> edge set" where
  "next_graph (Topology g) old = set g"
| "next_graph (Decision d) old = set (dc_edges d)"
| "next_graph (Fallback g posture) old = set g"
| "next_graph _ old = old"

text \<open>The graph in force when entry \<open>i\<close> is handled, and whether entry \<open>k\<close> isolated an agent that stayed so
  up to then.\<close>

definition graph_at :: "entry list \<Rightarrow> nat \<Rightarrow> edge set" where
  "graph_at es i = fold (\<lambda>e. next_graph (en_event e)) (take i es) {}"

definition has_channel :: "entry list \<Rightarrow> nat \<Rightarrow> ustr \<Rightarrow> bool" where
  "has_channel es i a \<longleftrightarrow> a \<in> fst ` graph_at es i"

definition isolated_from :: "entry list \<Rightarrow> ustr \<Rightarrow> nat \<Rightarrow> nat \<Rightarrow> bool" where
  "isolated_from es a k i \<longleftrightarrow>
     k < i \<and> (\<forall>m. k < m \<and> m \<le> i \<longrightarrow> \<not> has_channel es m a) \<and> (k = 0 \<or> has_channel es k a)"

lemma graph_at_Suc: "i < length es \<Longrightarrow> graph_at es (Suc i) = next_graph (en_event (es ! i)) (graph_at es i)"
  by (simp add: graph_at_def take_Suc_conv_app_nth)

lemma isolated_from_Suc:
  "isolated_from es a k i \<Longrightarrow> \<not> has_channel es (Suc i) a \<Longrightarrow> isolated_from es a k (Suc i)"
  by (auto simp: isolated_from_def le_Suc_eq)

text \<open>An isolated agent was isolated by one entry only.\<close>

lemma isolated_from_unique:
  assumes "isolated_from es a k i" and "isolated_from es a l i"
  shows "k = l"
  using assms unfolding isolated_from_def by (metis bot_nat_0.not_eq_extremum less_or_eq_imp_le linorder_neqE_nat)

section \<open>What the walk holds\<close>

definition readmits :: "entry \<Rightarrow> ustr \<Rightarrow> bool" where
  "readmits e a \<longleftrightarrow> (\<exists>r. en_event e = Restoration r \<and> rs_admitted r \<and> rs_agent r = a)"

definition walk_inv :: "journal \<Rightarrow> nat \<Rightarrow> walk \<Rightarrow> bool" where
  "walk_inv rn i w \<longleftrightarrow>
     set (wk_graph w) = graph_at (rn_entries rn) i \<and>
     map fst (wk_isolated w) = isolated (rn_agents rn) (wk_graph w) \<and>
     (\<forall>a k. (a, k) \<in> set (wk_isolated w) \<longrightarrow> isolated_from (rn_entries rn) a k i) \<and>
     (\<forall>a k. (a, k) \<in> set (wk_admitted w) \<longleftrightarrow> 0 < k \<and> k < i \<and> readmits (rn_entries rn ! k) a)"

lemma set_isolated: "set (isolated agents g) = {a \<in> set agents. a \<notin> fst ` set g}"
  by (simp add: isolated_def)

lemma walk_inv_channel: "walk_inv rn i w \<Longrightarrow> a \<in> fst ` set (wk_graph w) \<longleftrightarrow> has_channel (rn_entries rn) i a"
  by (simp add: walk_inv_def has_channel_def)

lemma since_iff:
  assumes "walk_inv rn i w" and "distinct (rn_agents rn)"
  shows "since w a = Some k \<longleftrightarrow> (a, k) \<in> set (wk_isolated w)"
proof -
  from assms have "map fst (wk_isolated w) = isolated (rn_agents rn) (wk_graph w)"
    by (simp add: walk_inv_def)
  with assms(2) have "distinct (map fst (wk_isolated w))" by (simp add: isolated_def)
  then show ?thesis by (simp add: since_def)
qed

lemma since_Some:
  assumes "walk_inv rn i w" and "since w a = Some k"
  shows "isolated_from (rn_entries rn) a k i"
  using assms by (auto simp: since_def walk_inv_def dest: map_of_SomeD)

lemma since_None:
  assumes "walk_inv rn i w"
  shows "since w a = None \<longleftrightarrow> a \<notin> set (rn_agents rn) \<or> has_channel (rn_entries rn) i a"
proof -
  have "since w a = None \<longleftrightarrow> a \<notin> set (map fst (wk_isolated w))"
    by (simp add: since_def map_of_eq_None_iff)
  also have "\<dots> \<longleftrightarrow> a \<notin> set (isolated (rn_agents rn) (wk_graph w))"
    using assms by (simp add: walk_inv_def)
  finally show ?thesis using walk_inv_channel [OF assms] by (auto simp: set_isolated)
qed

lemma walk_inv_init:
  assumes "rn_entries rn = e # es" and "en_event e = Topology g"
  shows "walk_inv rn 1 (init_walk rn)"
proof -
  have g: "graph_at (rn_entries rn) 1 = set g" using assms by (simp add: graph_at_def)
  have "isolated_from (rn_entries rn) a 0 1" if "a \<in> set (isolated (rn_agents rn) g)" for a
  proof -
    have 1: "\<not> has_channel (rn_entries rn) 1 a" using that g by (auto simp: has_channel_def set_isolated)
    have "\<not> has_channel (rn_entries rn) m a" if "0 < m" "m \<le> 1" for m
    proof -
      from that have "m = 1" by linarith
      with 1 show ?thesis by simp
    qed
    then show ?thesis by (simp add: isolated_from_def)
  qed
  with g assms show ?thesis by (auto simp: walk_inv_def init_walk_def comp_def)
qed

lemma walk_inv_stutter:
  assumes "walk_inv rn i w" and "i < length (rn_entries rn)"
    and "graph_at (rn_entries rn) (Suc i) = graph_at (rn_entries rn) i" and "\<And>a. \<not> readmits (rn_entries rn ! i) a"
  shows "walk_inv rn (Suc i) w"
proof -
  have "isolated_from (rn_entries rn) a k (Suc i)" if "(a, k) \<in> set (wk_isolated w)" for a k
  proof (rule isolated_from_Suc)
    show i: "isolated_from (rn_entries rn) a k i" using assms(1) that by (simp add: walk_inv_def)
    then show "\<not> has_channel (rn_entries rn) (Suc i) a"
      by (simp add: isolated_from_def has_channel_def assms(3))
  qed
  with assms show ?thesis by (auto simp: walk_inv_def less_Suc_eq)
qed

lemma walk_inv_replace:
  assumes "walk_inv rn i w" and "graph_at (rn_entries rn) (Suc i) = set g"
    and "\<And>a. \<not> readmits (rn_entries rn ! i) a"
  shows "walk_inv rn (Suc i) (replace rn i g w)"
proof -
  have "isolated_from (rn_entries rn) a k (Suc i)"
    if a: "a \<in> set (isolated (rn_agents rn) g)" and k: "k = (case since w a of None \<Rightarrow> i | Some k \<Rightarrow> k)" for a k
  proof -
    from a assms(2) have no: "\<not> has_channel (rn_entries rn) (Suc i) a" by (auto simp: set_isolated has_channel_def)
    show ?thesis
    proof (cases "since w a")
      case None
      then have "has_channel (rn_entries rn) i a" using a since_None [OF assms(1)] by (auto simp: set_isolated)
      with None k no show ?thesis by (auto simp: isolated_from_def le_Suc_eq)
    next
      case (Some l)
      with k no show ?thesis using since_Some [OF assms(1) Some] by (simp add: isolated_from_Suc)
    qed
  qed
  then show ?thesis using assms by (auto simp: walk_inv_def replace_def comp_def less_Suc_eq)
qed

lemma walk_inv_admit:
  assumes "walk_inv rn i w" and "0 < i" and "i < length (rn_entries rn)"
    and "en_event (rn_entries rn ! i) = Restoration r" and "rs_admitted r"
  shows "walk_inv rn (Suc i) (w\<lparr>wk_admitted := wk_admitted w @ [(rs_agent r, i)]\<rparr>)"
proof -
  have g: "graph_at (rn_entries rn) (Suc i) = graph_at (rn_entries rn) i"
    using assms(3,4) by (simp add: graph_at_Suc)
  have "isolated_from (rn_entries rn) a k (Suc i)" if "(a, k) \<in> set (wk_isolated w)" for a k
  proof (rule isolated_from_Suc)
    show i: "isolated_from (rn_entries rn) a k i" using assms(1) that by (simp add: walk_inv_def)
    then show "\<not> has_channel (rn_entries rn) (Suc i) a" by (simp add: isolated_from_def has_channel_def g)
  qed
  moreover have "readmits (rn_entries rn ! i) a \<longleftrightarrow> a = rs_agent r" for a
    using assms(4,5) by (auto simp: readmits_def)
  ultimately show ?thesis using assms(1,2) g by (auto simp: walk_inv_def less_Suc_eq)
qed

section \<open>Each entry keeps it\<close>

lemma walk_entry_inv:
  assumes "walk_inv rn i w" and "0 < i" and "i < length (rn_entries rn)"
    and "walk_entry cx rn (i, rn_entries rn ! i) w = Inr w'"
  shows "walk_inv rn (Suc i) w'"
proof -
  let ?e = "rn_entries rn ! i"
  note step = graph_at_Suc [OF assms(3)]
  note stutter = walk_inv_stutter [OF assms(1,3)] and repl = walk_inv_replace [OF assms(1)]
  show ?thesis
  proof (cases "en_event ?e")
    case (Decision d)
    with assms(4) have "w' = replace rn i (dc_edges d) w" by (auto simp: walk_decision_def Let_def)
    with Decision show ?thesis using repl [of "dc_edges d"] step by (simp add: readmits_def)
  next
    case (Fallback g posture)
    with assms(4) have "w' = replace rn i g w" by (auto simp: walk_fallback_def)
    with Fallback show ?thesis using repl [of g] step by (simp add: readmits_def)
  next
    case (Restoration r)
    show ?thesis
    proof (cases "rs_admitted r")
      case True
      with assms(4) Restoration have "w' = w\<lparr>wk_admitted := wk_admitted w @ [(rs_agent r, i)]\<rparr>"
        by (auto simp: walk_restoration_def Let_def bindr_Inr_iff)
      with walk_inv_admit [OF assms(1-3) Restoration True] show ?thesis by simp
    next
      case False
      with assms(4) Restoration have "w' = w" by (simp add: walk_restoration_def)
      with stutter step Restoration False show ?thesis by (simp add: readmits_def)
    qed
  next
    case (Topology g)
    with assms(4) show ?thesis by simp
  next
    case (Delivery s r f d)
    with assms(4) have "w' = w" by (auto simp: walk_delivery_def Let_def)
    with stutter step Delivery show ?thesis by (simp add: readmits_def)
  next
    case (Restart a re cl b c)
    with assms(4) have "w' = w" by (auto simp: walk_restart_def)
    with stutter step Restart show ?thesis by (simp add: readmits_def)
  next
    case (Assessment a sc av wit)
    with assms(4) have "w' = w" by (auto simp: walk_assessment_def)
    with stutter step Assessment show ?thesis by (simp add: readmits_def)
  next
    case (Response r)
    with assms(4) have "w' = w" by (auto simp: walk_response_def Let_def split: if_splits)
    with stutter step Response show ?thesis by (simp add: readmits_def)
  next
    case (Tool_Call a re ch)
    with assms(4) have "w' = w" by (auto simp: walk_tool_call_def)
    with stutter step Tool_Call show ?thesis by (simp add: readmits_def)
  next
    case (Retrieval a doc ad st)
    with assms(4) have "w' = w" by (auto simp: walk_retrieval_def)
    with stutter step Retrieval show ?thesis by (simp add: readmits_def)
  next
    case (Refused s r)
    with assms(4) have "w' = w" by (auto simp: walk_refusal_def)
    with stutter step Refused show ?thesis by (simp add: readmits_def)
  qed
qed

text \<open>A journal that starts with a topology, walked to its end.\<close>

definition walked :: "ctx \<Rightarrow> journal \<Rightarrow> bool" where
  "walked cx rn \<longleftrightarrow>
     distinct (rn_agents rn) \<and> (\<exists>e es g. rn_entries rn = e # es \<and> en_event e = Topology g) \<and>
     (\<exists>w. walk_run cx rn = Inr w)"

lemma walked_states:
  assumes "walked cx rn" and "0 < i" and "i < length (rn_entries rn)"
  shows "\<exists>w w'. walk_inv rn i w \<and> walk_entry cx rn (i, rn_entries rn ! i) w = Inr w' \<and> walk_inv rn (Suc i) w'"
proof -
  from assms(1) obtain e es g w where es: "rn_entries rn = e # es" "en_event e = Topology g"
    and w: "walk_run cx rn = Inr w" by (auto simp: walked_def)
  then have "loopr (walk_entry cx rn) (enumerate 1 es) (init_walk rn) = Inr w" by (simp add: walk_run_def)
  from loopr_enumerate [where P = "walk_inv rn", OF this walk_inv_init [OF es]]
  have all: "\<forall>i. 1 \<le> i \<and> i < 1 + length es \<longrightarrow> (\<exists>s s'. walk_inv rn i s \<and>
      walk_entry cx rn (i, es ! (i - 1)) s = Inr s' \<and> walk_inv rn (Suc i) s')"
  proof (rule conjunct2)
    fix i s s'
    assume "1 \<le> i" "i < 1 + length es" "walk_inv rn i s" "walk_entry cx rn (i, es ! (i - 1)) s = Inr s'"
    then show "walk_inv rn (Suc i) s'" by (intro walk_entry_inv [of rn i s cx]) (simp_all add: es nth_Cons')
  qed
  have "es ! (i - 1) = rn_entries rn ! i" using assms(2) es by (simp add: nth_Cons')
  with all assms(2,3) es show ?thesis by auto
qed

end
