(* ===== verification/Containment.thy ===== *)
theory Containment
  imports WalkFacts
begin

text \<open>
  What an allowed containment journal shows: which messages and tool calls can have happened under the
  graph in force, on what evidence an isolated agent came back, and the abstract containment machine
  whose runs the walks of allowed journals are.
\<close>

section \<open>Allowed journals\<close>

definition allowed :: "ctx \<Rightarrow> json \<Rightarrow> journal \<Rightarrow> bool" where
  "allowed cx record rn \<longleftrightarrow> judge_journal cx record False = Inr None \<and> run_of (as_dict record) = Some rn"

lemma first_rule_None: "first_rule rs = None \<longleftrightarrow> list_all (\<lambda>(n, b). \<not> b) rs"
  by (induction rs) (auto split: if_splits)

lemma first_rule_mem: "first_rule rs = Some n \<Longrightarrow> n \<in> set (map fst rs)"
  by (induction rs) (auto split: if_splits)

lemma sorted_unique_distinct: "sorted_unique (xs :: 'a::linorder list) \<Longrightarrow> distinct xs"
proof -
  assume "sorted_unique xs"
  then have "sorted_wrt (<) xs"
  proof (induction xs)
    case (Cons x xs)
    then have xs: "sorted_wrt (<) xs" by (cases xs) (auto simp: sorted_unique_def)
    have "x < y" if "y \<in> set xs" for y
      using Cons.prems xs that by (cases xs) (auto simp: sorted_unique_def intro: less_trans)
    with xs show ?case by simp
  qed simp
  then show ?thesis by (simp add: strict_sorted_iff)
qed

lemma judged_parts:
  assumes "judge_journal cx record bad = Inr None"
  shows "\<exists>rn w. early_failure record bad = None \<and> run_of (as_dict record) = Some rn \<and>
    chain_failure cx (rn_entries rn) = None \<and> walk_run cx rn = Inr w \<and> claims_failure rn = None"
  using assms
  by (auto simp: judge_journal_def walk_failure_def split: option.splits sum.splits exn.splits)

lemma early_parts:
  assumes "early_failure record bad = None"
  shows "is_dict record \<and> \<not> bad \<and> \<not> record_malformed (as_dict record) \<and> \<not> closed_violation (as_dict record)"
  using assms by (simp add: early_failure_def Let_def split: if_splits)

lemma record_agents:
  assumes "\<not> record_malformed r" and "run_of r = Some rn"
  shows "distinct (rn_agents rn) \<and> 2 \<le> length (rn_agents rn) \<and> rn_entries rn \<noteq> []"
proof -
  from assms(1) have "agents_ok (dget r (u ''agents''))" and "as_list (dget r (u ''entries'')) \<noteq> []"
    by (auto simp: record_malformed_def Let_def split: if_splits json.splits)
  moreover from assms(2) have "rn_agents rn = str_list (dget r (u ''agents''))"
    and "those (map entry_of (as_list (dget r (u ''entries'')))) = Some (rn_entries rn)"
    by (auto simp: run_of_def split: option.splits)
  moreover from this(2) have "as_list (dget r (u ''entries'')) = [] \<longleftrightarrow> rn_entries rn = []"
    by (cases "as_list (dget r (u ''entries''))") (auto split: option.splits)
  ultimately show ?thesis
    using sorted_unique_distinct by (auto simp: agents_ok_def str_list_def)
qed

lemma allowed_walked:
  assumes "allowed cx record rn"
  shows "walked cx rn" and "chain_failure cx (rn_entries rn) = None" and "claims_failure rn = None"
proof -
  from assms have j: "judge_journal cx record False = Inr None" and r: "run_of (as_dict record) = Some rn"
    by (simp_all add: allowed_def)
  from judged_parts [OF j] r obtain w where e: "early_failure record False = None"
    and c: "chain_failure cx (rn_entries rn) = None" and w: "walk_run cx rn = Inr w"
    and f: "claims_failure rn = None" by auto
  show "chain_failure cx (rn_entries rn) = None" "claims_failure rn = None" by (rule c, rule f)
  have a: "distinct (rn_agents rn) \<and> 2 \<le> length (rn_agents rn) \<and> rn_entries rn \<noteq> []"
    using record_agents [OF _ r] early_parts [OF e] by blast
  from c have "is_topology (en_event (hd (rn_entries rn)))"
    by (simp add: chain_failure_def split: if_splits)
  then obtain g where "en_event (hd (rn_entries rn)) = Topology g"
    by (cases "en_event (hd (rn_entries rn))") auto
  with a w show "walked cx rn" by (cases "rn_entries rn") (auto simp: walked_def)
qed

section \<open>Messages and calls\<close>

lemma entry_0: "walked cx rn \<Longrightarrow> \<exists>g. en_event (rn_entries rn ! 0) = Topology g"
  by (auto simp: walked_def)

text \<open>A number other than 0 for an entry that is no topology.\<close>

lemma entry_pos:
  assumes "walked cx rn" and "\<not> is_topology (en_event (rn_entries rn ! i))"
  shows "0 < i"
  using entry_0 [OF assms(1)] assms(2) by (cases i) auto

lemma delivery_in_force:
  assumes "walked cx rn" and "i < length (rn_entries rn)"
    and "en_event (rn_entries rn ! i) = Delivery s r in_force dropped"
  shows "in_force = ((s, r) \<in> graph_at (rn_entries rn) i) \<and>
    (dropped \<longrightarrow> (s, r) \<notin> graph_at (rn_entries rn) i) \<and>
    (\<not> dropped \<longrightarrow> enforced rn \<longrightarrow> (s, r) \<in> graph_at (rn_entries rn) i)"
proof -
  have "0 < i" by (rule entry_pos [OF assms(1)]) (simp add: assms(3))
  from walked_states [OF assms(1) this assms(2)] obtain w w' where "walk_inv rn i w"
    and "walk_entry cx rn (i, rn_entries rn ! i) w = Inr w'" by blast
  with assms(3) show ?thesis by (auto simp: walk_delivery_def Let_def walk_inv_def)
qed

lemma call_has_channel:
  assumes "walked cx rn" and "i < length (rn_entries rn)"
    and "en_event (rn_entries rn ! i) = Tool_Call a False chain"
  shows "has_channel (rn_entries rn) i a"
proof -
  have "0 < i" by (rule entry_pos [OF assms(1)]) (simp add: assms(3))
  from walked_states [OF assms(1) this assms(2)] obtain w w' where "walk_inv rn i w"
    and "walk_entry cx rn (i, rn_entries rn ! i) w = Inr w'" by blast
  with assms(3) show ?thesis by (auto simp: walk_tool_call_def has_channel_def walk_inv_def)
qed

section \<open>Evidence\<close>

definition clean_restart :: "entry \<Rightarrow> ustr \<Rightarrow> bool" where
  "clean_restart e a \<longleftrightarrow> (\<exists>remediated cfg cfg'. en_event e = Restart a remediated True cfg cfg' \<and> remediated = (cfg \<noteq> cfg'))"

definition cleared_by :: "entry \<Rightarrow> ustr \<Rightarrow> int \<Rightarrow> bool" where
  "cleared_by e a threshold \<longleftrightarrow>
     (\<exists>s wit. en_event e = Assessment a (Some s) (u ''scored'') wit \<and> wit \<noteq> u ''SELF'' \<and> s < threshold)"

definition evidenced :: "entry list \<Rightarrow> nat \<Rightarrow> ustr \<Rightarrow> bool" where
  "evidenced es k a \<longleftrightarrow>
     (\<exists>r. en_event (es ! k) = Restoration r \<and> rs_admitted r \<and> rs_agent r = a \<and>
       (\<exists>m < k. clean_restart (es ! m) a) \<and> (\<exists>n < k. cleared_by (es ! n) a (rs_threshold r)))"

lemma restart_clean:
  assumes "walked cx rn" and "i < length (rn_entries rn)" and "restarts a (rn_entries rn ! i)"
  shows "clean_restart (rn_entries rn ! i) a"
proof -
  from assms(3) obtain re cl b c where e: "en_event (rn_entries rn ! i) = Restart a re cl b c"
    by (auto split: event.splits)
  have "0 < i" by (rule entry_pos [OF assms(1)]) (simp add: e)
  from walked_states [OF assms(1) this assms(2)] obtain w w' where
    "walk_entry cx rn (i, rn_entries rn ! i) w = Inr w'" by blast
  with e show ?thesis by (auto simp: walk_restart_def clean_restart_def)
qed

lemma assessment_scored:
  assumes "walked cx rn" and "i < length (rn_entries rn)"
    and "en_event (rn_entries rn ! i) = Assessment a (Some s) av wit"
  shows "av = u ''scored''"
proof -
  have "0 < i" by (rule entry_pos [OF assms(1)]) (simp add: assms(3))
  from walked_states [OF assms(1) this assms(2)] obtain w w' where
    "walk_entry cx rn (i, rn_entries rn ! i) w = Inr w'" by blast
  with assms(3) show ?thesis by (auto simp: walk_assessment_def)
qed

lemma latest_mem: "latest e es \<in> set (e # es)"
  by (induction e es rule: latest.induct) auto

lemma cited_earlier:
  assumes "mapr (cited_entry cx rn i) ds = Inr cited" and "c \<in> set cited"
  shows "\<exists>m < i. c = rn_entries rn ! m"
  using assms
proof (induction ds arbitrary: cited)
  case (Cons d ds)
  from Cons.prems(1) obtain e es where e: "cited_entry cx rn i d = Inr e" "mapr (cited_entry cx rn i) ds = Inr es"
    "cited = e # es" by (auto simp: bindr_Inr_iff)
  from e(1) have "\<exists>m < i. e = rn_entries rn ! m"
    by (auto simp: cited_entry_def not_le split: option.splits)
  with e Cons show ?case by auto
qed simp

lemma readmission_evidenced:
  assumes "walked cx rn" and "i < length (rn_entries rn)" and "readmits (rn_entries rn ! i) a"
  shows "evidenced (rn_entries rn) i a"
proof -
  from assms(3) obtain r where r: "en_event (rn_entries rn ! i) = Restoration r" "rs_admitted r" "rs_agent r = a"
    by (auto simp: readmits_def)
  have "0 < i" by (rule entry_pos [OF assms(1)]) (simp add: r)
  from walked_states [OF assms(1) this assms(2)] obtain w w' where
    "walk_restoration cx rn i r w = Inr w'" using r by auto
  with r obtain cited where cited: "mapr (cited_entry cx rn i) (rs_evidence r) = Inr cited"
    and restart: "list_ex (restarts a) cited" and ne: "filter (assesses a) cited \<noteq> []"
    and l: "let last = latest (hd (filter (assesses a) cited)) (tl (filter (assesses a) cited))
            in score_of (en_event last) \<noteq> None \<and> witness_of (en_event last) \<noteq> u ''SELF'' \<and>
               the (score_of (en_event last)) < rs_threshold r"
    by (auto simp: walk_restoration_def Let_def bindr_Inr_iff)
  define last where "last = latest (hd (filter (assesses a) cited)) (tl (filter (assesses a) cited))"
  from restart obtain c where c: "c \<in> set cited" "restarts a c" by (auto simp: list_ex_iff)
  from cited_earlier [OF cited c(1)] obtain m where m: "m < i" "c = rn_entries rn ! m" by blast
  with c restart_clean [OF assms(1) _ c(2) [unfolded m(2)]] assms(2) have 1: "\<exists>m < i. clean_restart (rn_entries rn ! m) a"
    by auto
  have "last \<in> set (filter (assesses a) cited)"
    using latest_mem [of "hd (filter (assesses a) cited)" "tl (filter (assesses a) cited)"] ne by (simp add: last_def)
  then have "last \<in> set cited" "assesses a last" by auto
  from cited_earlier [OF cited this(1)] obtain n where n: "n < i" "last = rn_entries rn ! n" by blast
  from \<open>assesses a last\<close> obtain sc av wit where e: "en_event last = Assessment a sc av wit"
    by (auto split: event.splits)
  with l [folded last_def] obtain s where "sc = Some s" "s < rs_threshold r" "wit \<noteq> u ''SELF''"
    by (auto simp: Let_def)
  moreover from this have "av = u ''scored''" using assessment_scored [OF assms(1), of n] n e assms(2) by auto
  ultimately have "cleared_by (rn_entries rn ! n) a (rs_threshold r)" using e n by (auto simp: cleared_by_def)
  with 1 n(1) r show ?thesis by (auto simp: evidenced_def)
qed

section \<open>The return of an isolated agent\<close>

definition falls_back :: "entry \<Rightarrow> bool" where
  "falls_back e \<longleftrightarrow> (\<exists>g posture. en_event e = Fallback g posture)"

lemma map_fst_isolated: "walk_inv rn i w \<Longrightarrow> map fst (wk_isolated w) = isolated (rn_agents rn) (wk_graph w)"
  by (simp add: walk_inv_def)

text \<open>The entry that gives an isolated agent a channel again, where it is no fallback, is a restoration
  decision, which asks for an admitted restoration since the isolation.\<close>

lemma regained_channel:
  assumes w: "walked cx rn" and i: "i < length (rn_entries rn)"
    and a: "a \<in> set (rn_agents rn)" "isolated_from (rn_entries rn) a k i" "has_channel (rn_entries rn) (Suc i) a"
    and f: "\<not> falls_back (rn_entries rn ! i)"
    and words: "\<And>d. en_event (rn_entries rn ! i) = Decision d \<Longrightarrow>
      dc_function d \<in> {u ''restriction'', u ''isolation'', u ''restoration''}"
    and gated: "claims rn ''restorationGated''"
  shows "\<exists>m. k < m \<and> m < i \<and> readmits (rn_entries rn ! m) a"
proof -
  let ?es = "rn_entries rn"
  from a(2) have no: "\<not> has_channel ?es i a" and ki: "k < i" by (auto simp: isolated_from_def)
  from ki have "0 < i" by simp
  from walked_states [OF w this i] obtain s s' where inv: "walk_inv rn i s"
    and st: "walk_entry cx rn (i, ?es ! i) s = Inr s'" by blast
  from no graph_at_Suc [OF i] a(3) f st obtain d where d: "en_event (?es ! i) = Decision d"
    by (cases "en_event (?es ! i)") (auto simp: has_channel_def falls_back_def)
  have dist: "distinct (rn_agents rn)" using w by (simp add: walked_def)
  have g: "a \<in> fst ` set (dc_edges d)" using a(3) graph_at_Suc [OF i] d by (simp add: has_channel_def)
  have out: "a \<notin> fst ` set (wk_graph s)" using no walk_inv_channel [OF inv] by simp
  from st d have steps: "dc_added d = listed (minus_edges (dc_edges d) (wk_graph s))"
    "dc_isolated d = isolated (rn_agents rn) (dc_edges d)"
    "dc_function d \<in> {u ''restriction'', u ''isolation''} \<longrightarrow> dc_added d = []"
    "\<not> (dc_function d = u ''restoration'' \<and> claims rn ''restorationGated'' \<and>
        list_ex (unreturned rn i s) (filter (\<lambda>a. a \<notin> set (dc_isolated d)) (map fst (wk_isolated s))))"
    by (auto simp: walk_decision_def Let_def)
  have "dc_added d \<noteq> []"
  proof -
    from g obtain b where "(a, b) \<in> set (dc_edges d)" by auto
    with out have "(a, b) \<in> set (listed (minus_edges (dc_edges d) (wk_graph s)))"
      by (force simp: listed_def minus_edges_def)
    with steps(1) show ?thesis by auto
  qed
  with steps(3) words [OF d] have "dc_function d = u ''restoration''" by auto
  moreover have "a \<in> set (filter (\<lambda>a. a \<notin> set (dc_isolated d)) (map fst (wk_isolated s)))"
    using steps(2) g out a(1) map_fst_isolated [OF inv] by (auto simp: set_isolated simp flip: set_map)
  ultimately have "\<not> unreturned rn i s a" using steps(4) gated by (auto simp: list_ex_iff)
  moreover have "since s a = Some k"
  proof (cases "since s a")
    case None
    with since_None [OF inv, of a] a(1) no show ?thesis by simp
  next
    case (Some l)
    with isolated_from_unique [OF since_Some [OF inv Some] a(2)] show ?thesis by simp
  qed
  ultimately obtain m where "(a, m) \<in> set (wk_admitted s)" "k < m" "m < i"
    by (auto simp: unreturned_def list_ex_iff)
  with inv show ?thesis by (auto simp: walk_inv_def)
qed

lemma return_is_evidenced:
  assumes w: "walked cx rn" and j: "j \<le> length (rn_entries rn)"
    and a: "a \<in> set (rn_agents rn)" "isolated_from (rn_entries rn) a k (Suc k)" "has_channel (rn_entries rn) j a" "k < j"
    and f: "\<And>i. k < i \<Longrightarrow> i < j \<Longrightarrow> \<not> falls_back (rn_entries rn ! i)"
    and words: "\<And>i d. i < j \<Longrightarrow> en_event (rn_entries rn ! i) = Decision d \<Longrightarrow>
      dc_function d \<in> {u ''restriction'', u ''isolation'', u ''restoration''}"
    and gated: "claims rn ''restorationGated''"
  shows "\<exists>m. k < m \<and> m < j \<and> evidenced (rn_entries rn) m a"
proof -
  let ?es = "rn_entries rn"
  define n where "n = (LEAST n. k < n \<and> has_channel ?es n a)"
  have n: "k < n" "has_channel ?es n a" and nj: "n \<le> j"
    unfolding n_def using LeastI [of "\<lambda>n. k < n \<and> has_channel ?es n a" j] a(3,4)
    by (auto intro: Least_le)
  have before: "\<not> has_channel ?es m a" if "k < m" "m < n" for m
    using not_less_Least [of m "\<lambda>n. k < n \<and> has_channel ?es n a"] that by (auto simp: n_def)
  obtain i where i: "n = Suc i" using n(1) by (cases n) auto
  have "k \<noteq> i" using a(2) n(2) i by (auto simp: isolated_from_def)
  with n i have ki: "k < i" by simp
  have "isolated_from ?es a k i"
    using a(2) before i ki by (auto simp: isolated_from_def)
  moreover have bounds: "i < length ?es" "i < j" using i nj j by auto
  ultimately obtain m where m: "k < m" "m < i" "readmits (?es ! m) a"
    using regained_channel [OF w _ a(1), of i k] n(2) i f [OF ki] words gated by blast
  with bounds have "m < j" "evidenced ?es m a" using readmission_evidenced [OF w, of m a] by simp_all
  with m(1) show ?thesis by blast
qed

end
