(* ===== verification/JournalTotal.thy ===== *)
theory JournalTotal
  imports Containment
begin

text \<open>
  Past the shape and vocabulary checks nothing in the reader of a containment journal can fail but a
  rule: every entry is one of the registered events with its members, every word is a registered one,
  and the answer's reason is one of the declared codes.
\<close>

section \<open>Entries past the checks\<close>

lemma those_Some: "those xs = Some ys \<longleftrightarrow> xs = map Some ys"
  by (induction xs arbitrary: ys) (auto split: option.splits simp: map_eq_Cons_conv)

lemma those_None: "those xs = None \<longleftrightarrow> None \<in> set xs"
  by (induction xs) (auto split: option.splits)

lemma entry_not_open:
  assumes "\<not> entry_open v" and "k \<in> set WORD_MEMBERS" and "has_key (as_dict v) (u k)"
  shows "py_in (member v k) (closed_words k)"
  using assms by (auto simp: entry_open_def list_ex_iff)

lemma base_member:
  assumes "\<not> entry_malformed agents (JObj e)" and "(k, s) \<in> set BASE_MEMBERS"
  shows "has_key e (u k) \<and> shape_ok s agents (dget e (u k))"
  using assms by (auto simp: entry_malformed_def list_ex_iff split: if_splits)

lemma event_registered:
  assumes "\<not> entry_malformed agents v" and "\<not> entry_open v"
  shows "\<exists>e. v = JObj e \<and> member v ''event'' \<in> set (closed_words ''event'')"
proof -
  from assms(1) obtain e where e: "v = JObj e" by (cases v) (auto simp: entry_malformed_def)
  have "(''event'', K_word) \<in> set BASE_MEMBERS" by (simp add: BASE_MEMBERS_def)
  from base_member [OF assms(1) [unfolded e] this] have k: "has_key e (u ''event'')" "is_str (dget e (u ''event''))"
    by simp_all
  have "py_in (member v ''event'') (closed_words ''event'')"
    by (rule entry_not_open [OF assms(2)]) (simp_all add: WORD_MEMBERS_def e k)
  with e k(2) show ?thesis by (auto simp: is_str_iff py_in_JStr)
qed

lemma event_words:
  "set (closed_words ''event'') = js ` {''topology'', ''delivery'', ''decision'', ''fallback'', ''restart'', ''assessment'',
     ''restoration'', ''response'', ''tool_call'', ''retrieval'', ''refusal''}"
  by (simp add: closed_words_def CLOSED_def)

lemma event_of_ok:
  assumes "\<not> entry_malformed agents v" and "\<not> entry_open v"
  shows "event_of v \<noteq> None"
  using event_registered [OF assms] unfolding event_words event_of_def Let_def by auto

lemma record_entries:
  assumes "\<not> record_malformed r" and "\<not> closed_violation r" and "v \<in> set (as_list (dget r (u ''entries'')))"
  shows "\<not> entry_malformed (str_list (dget r (u ''agents''))) v \<and> \<not> entry_open v"
  using assms by (auto simp: record_malformed_def closed_violation_def Let_def list_ex_iff split: if_splits json.splits)

lemma entry_of_Some:
  "entry_of v = Some e \<longleftrightarrow> event_of v = Some (en_event e) \<and> en_raw e = v \<and> en_seq e = as_int (member v ''seq'') \<and>
    en_prev e = as_str (member v ''prev'') \<and> en_at e = as_str (member v ''at'')"
  by (cases e) (auto simp: entry_of_def)

lemma entry_of_None: "entry_of v = None \<longleftrightarrow> event_of v = None"
  by (simp add: entry_of_def)

lemma run_of_ok:
  assumes "\<not> record_malformed r" and "\<not> closed_violation r"
  shows "\<exists>rn. run_of r = Some rn"
proof -
  have ok: "event_of v \<noteq> None" if "v \<in> set (as_list (dget r (u ''entries'')))" for v
    using event_of_ok record_entries [OF assms that] by blast
  have "None \<notin> set (map entry_of (as_list (dget r (u ''entries''))))"
  proof (intro notI)
    assume "None \<in> set (map entry_of (as_list (dget r (u ''entries''))))"
    then obtain v where "v \<in> set (as_list (dget r (u ''entries'')))" and "entry_of v = None" by auto
    with ok [of v] show False by (simp only: entry_of_None not_True_eq_False)
  qed
  then have "those (map entry_of (as_list (dget r (u ''entries'')))) \<noteq> None"
    by (simp only: those_None not_False_eq_True)
  then obtain es where "those (map entry_of (as_list (dget r (u ''entries'')))) = Some es" by blast
  then show ?thesis by (simp add: run_of_def)
qed

lemma run_entry:
  assumes "run_of r = Some rn" and "i < length (rn_entries rn)"
  shows "i < length (as_list (dget r (u ''entries''))) \<and>
    entry_of (as_list (dget r (u ''entries'')) ! i) = Some (rn_entries rn ! i)"
proof -
  from assms(1) have m: "map entry_of (as_list (dget r (u ''entries''))) = map Some (rn_entries rn)"
    by (auto simp: run_of_def those_Some split: option.splits)
  then have "length (as_list (dget r (u ''entries''))) = length (rn_entries rn)" by (metis length_map)
  with m assms(2) show ?thesis by (metis nth_map)
qed

section \<open>The words of a decision\<close>

lemma find_name:
  "distinct (map fst xs) \<Longrightarrow> (name, x) \<in> set xs \<Longrightarrow> find (\<lambda>(n, _). name = n) xs = Some (name, x)"
  by (induction xs) force+

lemma event_member:
  assumes "\<not> entry_malformed agents (JObj e)" and "dget e (u ''event'') = js name"
    and "(name, ms) \<in> set EVENT_MEMBERS" and "(k, s) \<in> set ms"
  shows "shape_ok s agents (dget e (u k))"
proof -
  have "distinct (map fst EVENT_MEMBERS)" by (simp add: EVENT_MEMBERS_def)
  then have "find (\<lambda>(n, _). dget e (u ''event'') = js n) EVENT_MEMBERS = Some (name, ms)"
    using find_name [OF _ assms(3)] assms(2) by simp
  then have "(k, s) \<in> set (event_members e)" using assms(4) by (simp add: event_members_def Let_def)
  with assms(1) show ?thesis by (auto simp: entry_malformed_def shapes_ok_def list_all_iff split: if_splits)
qed

lemma decision_function:
  assumes "\<not> entry_malformed agents v" and "\<not> entry_open v" and "event_of v = Some (Decision d)"
  shows "dc_function d \<in> {u ''restriction'', u ''isolation'', u ''restoration''}"
proof -
  from assms(1) obtain e where e: "v = JObj e" by (cases v) (auto simp: entry_malformed_def)
  from assms(3) have ev: "dget e (u ''event'') = js ''decision''"
    and f: "dc_function d = as_str (dget e (u ''responseFunction''))"
    unfolding e event_of_def Let_def by (auto split: if_splits)
  have s: "is_str (dget e (u ''responseFunction''))"
    using event_member [OF assms(1) [unfolded e] ev, of _ "''responseFunction''" K_word] by (simp add: EVENT_MEMBERS_def)
  then have "has_key e (u ''responseFunction'')" using dget_absent [of e "u ''responseFunction''"] by fastforce
  then have "py_in (dget e (u ''responseFunction'')) (closed_words ''responseFunction'')"
    using entry_not_open [OF assms(2), of "''responseFunction''"] e by (simp add: WORD_MEMBERS_def)
  with s f show ?thesis by (auto simp: closed_words_def CLOSED_def is_str_iff)
qed

lemma allowed_words:
  assumes "allowed cx record rn" and "i < length (rn_entries rn)" and "en_event (rn_entries rn ! i) = Decision d"
  shows "dc_function d \<in> {u ''restriction'', u ''isolation'', u ''restoration''}"
proof -
  from assms(1) have j: "judge_journal cx record False = Inr None" and r: "run_of (as_dict record) = Some rn"
    by (simp_all add: allowed_def)
  from judged_parts [OF j] early_parts have ok: "\<not> record_malformed (as_dict record)" "\<not> closed_violation (as_dict record)"
    by blast+
  let ?v = "as_list (dget (as_dict record) (u ''entries'')) ! i"
  from run_entry [OF r assms(2)] have v: "?v \<in> set (as_list (dget (as_dict record) (u ''entries'')))"
    and "entry_of ?v = Some (rn_entries rn ! i)" by auto
  then have "event_of ?v = Some (Decision d)" using assms(3) by (simp add: entry_of_Some)
  with record_entries [OF ok v] show ?thesis using decision_function by blast
qed

section \<open>The reader answers\<close>

text \<open>Every code the reader names is declared.\<close>

lemma declared [simp]:
  "''contract_id_missing'' \<in> set CHECKS"
  "''contract_id_unknown'' \<in> set CHECKS"
  "''record_not_canonical'' \<in> set CHECKS"
  "''record_malformed'' \<in> set CHECKS"
  "''closed_vocabulary_violation'' \<in> set CHECKS"
  "''chain_seq_gap'' \<in> set CHECKS"
  "''chain_broken'' \<in> set CHECKS"
  "''chain_time_reversed'' \<in> set CHECKS"
  "''topology_missing'' \<in> set CHECKS"
  "''edge_flag_mismatch'' \<in> set CHECKS"
  "''drop_over_present_edge'' \<in> set CHECKS"
  "''delivered_over_absent_edge'' \<in> set CHECKS"
  "''refusal_over_absent_edge'' \<in> set CHECKS"
  "''edge_delta_mismatch'' \<in> set CHECKS"
  "''isolated_set_mismatch'' \<in> set CHECKS"
  "''topology_expansion_not_restriction'' \<in> set CHECKS"
  "''detector_inputs_absent'' \<in> set CHECKS"
  "''decision_not_supported_by_estimates'' \<in> set CHECKS"
  "''reenable_without_restoration'' \<in> set CHECKS"
  "''posture_contradicted'' \<in> set CHECKS"
  "''remediation_not_evidenced'' \<in> set CHECKS"
  "''restart_memory_not_cleared'' \<in> set CHECKS"
  "''missing_score_coerced'' \<in> set CHECKS"
  "''score_missing_unflagged'' \<in> set CHECKS"
  "''restoration_without_evidence'' \<in> set CHECKS"
  "''restoration_evidence_unresolved'' \<in> set CHECKS"
  "''restoration_without_restart'' \<in> set CHECKS"
  "''restoration_without_assessment'' \<in> set CHECKS"
  "''restoration_evidence_not_scored'' \<in> set CHECKS"
  "''restoration_evidence_self_witnessed'' \<in> set CHECKS"
  "''restoration_evidence_above_threshold'' \<in> set CHECKS"
  "''decision_without_authority'' \<in> set CHECKS"
  "''response_time_inverted'' \<in> set CHECKS"
  "''response_bound_exceeded'' \<in> set CHECKS"
  "''retrieval_admitted_outside_snapshot'' \<in> set CHECKS"
  "''tool_call_by_isolated_agent'' \<in> set CHECKS"
  "''advisory_claimed_as_enforced'' \<in> set CHECKS"
  "''defended_claim_after_fail_open'' \<in> set CHECKS"
  "''detector_output_uninformative'' \<in> set CHECKS"
  "''tool_call_authority_unbound'' \<in> set CHECKS"
  by (simp_all add: CHECKS_def)

fun is_refusal :: "exn \<Rightarrow> bool" where
  "is_refusal (Refusal name) = (name \<in> set CHECKS)" | "is_refusal _ = False"

lemma refuse_refusal:
  "refuse b n k = Inl e \<Longrightarrow> n \<in> set CHECKS \<Longrightarrow> (k = Inl e \<Longrightarrow> is_refusal e) \<Longrightarrow> is_refusal e"
  by (auto simp: refuse_def split: if_splits)

lemma cited_refusal: "mapr (cited_entry cx rn i) ds = Inl e \<Longrightarrow> is_refusal e"
  by (induction ds) (auto simp: bindr_Inl_iff cited_entry_def refuse_Inl split: option.splits)

lemma walk_entry_refusal:
  assumes "walk_entry cx rn (i, e) w = Inl x" and "\<not> is_topology (en_event e)"
  shows "is_refusal x"
proof (cases "en_event e")
  case (Topology g)
  with assms(2) show ?thesis by simp
next
  case (Delivery s r f d)
  with assms(1) show ?thesis by (simp add: walk_delivery_def Let_def refuse_Inl) (elim disjE conjE; simp)
next
  case (Decision d)
  with assms(1) show ?thesis by (simp add: walk_decision_def Let_def refuse_Inl) (elim disjE conjE; simp)
next
  case (Fallback g posture)
  with assms(1) show ?thesis by (simp add: walk_fallback_def refuse_Inl) (elim disjE conjE; simp)
next
  case (Restart a re cl b c)
  with assms(1) show ?thesis by (simp add: walk_restart_def refuse_Inl) (elim disjE conjE; simp)
next
  case (Assessment a sc av wit)
  with assms(1) show ?thesis by (simp add: walk_assessment_def refuse_Inl) (elim disjE conjE; simp)
next
  case (Restoration r)
  with assms(1) show ?thesis
    by (auto simp: walk_restoration_def Let_def refuse_Inl bindr_Inl_iff cited_refusal split: if_splits)
next
  case (Response r)
  with assms(1) show ?thesis
    by (simp add: walk_response_def Let_def refuse_Inl split: if_splits) (elim disjE conjE; simp)
next
  case (Tool_Call a re ch)
  with assms(1) show ?thesis by (simp add: walk_tool_call_def refuse_Inl)
next
  case (Retrieval a doc ad st)
  with assms(1) show ?thesis by (simp add: walk_retrieval_def refuse_Inl)
next
  case (Refused s r)
  with assms(1) show ?thesis by (simp add: walk_refusal_def refuse_Inl)
qed

lemma loopr_Inl: "loopr f xs s = Inl x \<Longrightarrow> \<exists>y \<in> set xs. \<exists>s'. f y s' = Inl x"
  by (induction xs arbitrary: s) (auto simp: bindr_Inl_iff)

lemma walk_run_refusal:
  assumes "walk_run cx rn = Inl x" and "\<not> list_ex (\<lambda>e. is_topology (en_event e)) (tl (rn_entries rn))"
  shows "is_refusal x"
proof -
  from loopr_Inl [OF assms(1) [unfolded walk_run_def]] obtain i e s where
    "(i, e) \<in> set (enumerate 1 (tl (rn_entries rn)))" "walk_entry cx rn (i, e) s = Inl x" by auto
  moreover from this(1) have "e \<in> set (map snd (enumerate 1 (tl (rn_entries rn))))"
    unfolding set_map by (rule rev_image_eqI) simp
  then have "e \<in> set (tl (rn_entries rn))" by (simp only: map_snd_enumerate)
  with assms(2) have "\<not> is_topology (en_event e)" by (auto simp: list_ex_iff)
  ultimately show ?thesis using walk_entry_refusal by blast
qed

lemma chain_topology:
  "chain_failure cx es = None \<Longrightarrow> \<not> list_ex (\<lambda>e. is_topology (en_event e)) (tl es)"
  by (simp add: chain_failure_def split: if_splits)

lemma judged:
  "\<exists>reason. judge_journal cx record bad = Inr reason \<and> (\<forall>name. reason = Some name \<longrightarrow> name \<in> set CHECKS)"
proof (cases "early_failure record bad")
  case (Some name)
  then have "name \<in> set CHECKS"
    by (auto simp: early_failure_def Let_def split: if_splits)
  with Some show ?thesis by (simp add: judge_journal_def)
next
  case None
  from early_parts [OF this] obtain rn where rn: "run_of (as_dict record) = Some rn"
    using run_of_ok by blast
  show ?thesis
  proof (cases "chain_failure cx (rn_entries rn)")
    case (Some name)
    then have "name \<in> set CHECKS"
      by (auto simp: chain_failure_def split: if_splits)
    with Some None rn show ?thesis by (simp add: judge_journal_def)
  next
    case chain: None
    show ?thesis
    proof (cases "walk_run cx rn")
      case (Inl x)
      from walk_run_refusal [OF Inl chain_topology [OF chain]] have "is_refusal x" .
      with Inl chain None rn show ?thesis by (cases x) (auto simp: judge_journal_def walk_failure_def)
    next
      case (Inr w)
      have "name \<in> set CHECKS" if "claims_failure rn = Some name" for name
        using that by (auto simp: claims_failure_def Let_def split: if_splits)
      with Inr chain None rn show ?thesis by (auto simp: judge_journal_def walk_failure_def)
    qed
  qed
qed

end
