(* ===== verification/ContainmentSpec.thy ===== *)
theory ContainmentSpec
  imports JournalTotal
begin

text \<open>
  The containment machine a journal claims to be a run of, as a step relation on a graph, the restarts
  and scores so far and the agents that may come back, and the simulation: the histories of an allowed
  journal are the states of a run of the machine.
\<close>

section \<open>The machine\<close>

record policy =
  pl_agents :: "ustr set"
  pl_enforced :: bool
  pl_gated :: bool

record contained =
  ct_graph :: "edge set"
  ct_restarted :: "ustr set"
  ct_scores :: "(ustr \<times> int) set"
  ct_permits :: "ustr set"

datatype action =
    Deliver ustr ustr | Drop ustr ustr | Refuse ustr ustr
  | Cut "edge set" | Reconnect "edge set" | Fall_Back "edge set"
  | Restarted ustr | Scored ustr int | Readmit ustr int | Act ustr | Silent

definition confined :: "policy \<Rightarrow> edge set \<Rightarrow> ustr set" where
  "confined p g = {a \<in> pl_agents p. a \<notin> fst ` g}"

text \<open>A new graph; a permit lasts while its agent stays confined.\<close>

definition regraph :: "policy \<Rightarrow> edge set \<Rightarrow> contained \<Rightarrow> contained" where
  "regraph p g c = c\<lparr>ct_graph := g, ct_permits := ct_permits c \<inter> confined p g\<rparr>"

inductive contain :: "policy \<Rightarrow> contained \<Rightarrow> action \<Rightarrow> contained \<Rightarrow> bool" for p where
  deliver: "(pl_enforced p \<longrightarrow> (s, r) \<in> ct_graph c) \<Longrightarrow> contain p c (Deliver s r) c"
| drop: "(s, r) \<notin> ct_graph c \<Longrightarrow> contain p c (Drop s r) c"
| refuse: "(s, r) \<in> ct_graph c \<Longrightarrow> contain p c (Refuse s r) c"
| cut: "g \<subseteq> ct_graph c \<Longrightarrow> contain p c (Cut g) (regraph p g c)"
| reconnect: "(pl_gated p \<longrightarrow> confined p (ct_graph c) - confined p g \<subseteq> ct_permits c) \<Longrightarrow>
     contain p c (Reconnect g) (regraph p g c)"
| fall_back: "contain p c (Fall_Back g) (regraph p g c)"
| restarted: "contain p c (Restarted a) (c\<lparr>ct_restarted := insert a (ct_restarted c)\<rparr>)"
| scored: "contain p c (Scored a s) (c\<lparr>ct_scores := insert (a, s) (ct_scores c)\<rparr>)"
| readmit: "a \<in> ct_restarted c \<Longrightarrow> (a, s) \<in> ct_scores c \<Longrightarrow> s < t \<Longrightarrow>
     contain p c (Readmit a t) (c\<lparr>ct_permits := ct_permits c \<union> ({a} \<inter> confined p (ct_graph c))\<rparr>)"
| act: "a \<in> fst ` ct_graph c \<Longrightarrow> contain p c (Act a) c"
| silent: "contain p c Silent c"

inductive_cases contain_deliver: "contain p c (Deliver s r) d"
inductive_cases contain_act: "contain p c (Act a) d"
inductive_cases contain_reconnect: "contain p c (Reconnect g) d"

inductive contain_run :: "policy \<Rightarrow> contained \<Rightarrow> action list \<Rightarrow> contained \<Rightarrow> bool" for p where
  finished: "contain_run p c [] c"
| extended: "contain_run p c acts d \<Longrightarrow> contain p d act e \<Longrightarrow> contain_run p c (acts @ [act]) e"

lemma contain_permits:
  "contain p c act d \<Longrightarrow> ct_permits c \<subseteq> confined p (ct_graph c) \<Longrightarrow> ct_permits d \<subseteq> confined p (ct_graph d)"
  by (induction rule: contain.induct) (auto simp: regraph_def)

text \<open>Without a fallback and without a readmission of its own, a confined agent that has no permit stays
  confined and without one, and does not act; where edges are enforced, no message of its own arrives.\<close>

definition stays_confined :: "policy \<Rightarrow> ustr \<Rightarrow> contained \<Rightarrow> bool" where
  "stays_confined p a c \<longleftrightarrow> a \<in> confined p (ct_graph c) \<and> a \<notin> ct_permits c"

fun releases :: "ustr \<Rightarrow> action \<Rightarrow> bool" where
  "releases a (Fall_Back g) = True"
| "releases a (Readmit b t) = (b = a)"
| "releases a _ = False"

fun of_agent :: "policy \<Rightarrow> ustr \<Rightarrow> action \<Rightarrow> bool" where
  "of_agent p a (Act b) = (b = a)"
| "of_agent p a (Deliver s r) = (pl_enforced p \<and> s = a)"
| "of_agent p a _ = False"

lemma contain_confined:
  "contain p c act d \<Longrightarrow> pl_gated p \<Longrightarrow> stays_confined p a c \<Longrightarrow> \<not> releases a act \<Longrightarrow>
    stays_confined p a d \<and> \<not> of_agent p a act"
  by (induction rule: contain.induct) (auto simp: stays_confined_def regraph_def confined_def image_iff)

lemma run_confined:
  assumes "contain_run p c acts d" and "pl_gated p" and "stays_confined p a c" and "\<not> list_ex (releases a) acts"
  shows "stays_confined p a d \<and> \<not> list_ex (of_agent p a) acts"
  using assms by (induction rule: contain_run.induct) (auto dest: contain_confined)

section \<open>The history of a journal\<close>

fun action_of :: "event \<Rightarrow> action" where
  "action_of (Delivery s r in_force dropped) = (if dropped then Drop s r else Deliver s r)"
| "action_of (Refused s r) = Refuse s r"
| "action_of (Decision d) =
     (if dc_function d = u ''restoration'' then Reconnect (set (dc_edges d)) else Cut (set (dc_edges d)))"
| "action_of (Fallback g posture) = Fall_Back (set g)"
| "action_of (Restart a remediated cleared cfg cfg') = Restarted a"
| "action_of (Assessment a (Some s) av wit) = (if wit \<noteq> u ''SELF'' then Scored a s else Silent)"
| "action_of (Restoration r) = (if rs_admitted r then Readmit (rs_agent r) (rs_threshold r) else Silent)"
| "action_of (Tool_Call a refused chain) = (if refused then Silent else Act a)"
| "action_of _ = Silent"

definition policy_of :: "journal \<Rightarrow> policy" where
  "policy_of rn =
     \<lparr>pl_agents = set (rn_agents rn), pl_enforced = enforced rn, pl_gated = claims rn ''restorationGated''\<rparr>"

definition restarted_before :: "entry list \<Rightarrow> nat \<Rightarrow> ustr set" where
  "restarted_before es i = {a. \<exists>m < i. restarts a (es ! m)}"

definition scored_before :: "entry list \<Rightarrow> nat \<Rightarrow> (ustr \<times> int) set" where
  "scored_before es i =
     {(a, s). \<exists>m < i. \<exists>av wit. en_event (es ! m) = Assessment a (Some s) av wit \<and> wit \<noteq> u ''SELF''}"

definition permitted_before :: "ustr list \<Rightarrow> entry list \<Rightarrow> nat \<Rightarrow> ustr set" where
  "permitted_before agents es i =
     {a \<in> set agents. \<exists>k m. isolated_from es a k i \<and> k < m \<and> m < i \<and> readmits (es ! m) a}"

text \<open>The state of the machine before entry \<open>i\<close>, read off the entries before it.\<close>

definition history :: "journal \<Rightarrow> nat \<Rightarrow> contained" where
  "history rn i =
     \<lparr>ct_graph = graph_at (rn_entries rn) i, ct_restarted = restarted_before (rn_entries rn) i,
      ct_scores = scored_before (rn_entries rn) i,
      ct_permits = permitted_before (rn_agents rn) (rn_entries rn) i\<rparr>"

lemma has_channel_0 [simp]: "\<not> has_channel es 0 a"
  by (simp add: has_channel_def graph_at_def)

lemma isolated_since:
  assumes "0 < i" and "\<not> has_channel es i a"
  shows "\<exists>k. isolated_from es a k i"
  using assms
proof (induction i)
  case (Suc i)
  show ?case
  proof (cases "0 < i \<and> \<not> has_channel es i a")
    case True
    with Suc obtain k where "isolated_from es a k i" by blast
    with Suc.prems show ?thesis using isolated_from_Suc by blast
  next
    case False
    with Suc.prems have "isolated_from es a i (Suc i)" by (auto simp: isolated_from_def le_Suc_eq)
    then show ?thesis by blast
  qed
qed simp

text \<open>The history after an entry, by what the entry does to the graph and to the permits.\<close>

lemma isolated_from_step:
  "isolated_from es a k (Suc i) \<longleftrightarrow>
     \<not> has_channel es (Suc i) a \<and> (isolated_from es a k i \<or> k = i \<and> (i = 0 \<or> has_channel es i a))"
  by (auto simp: isolated_from_def le_Suc_eq less_Suc_eq)

lemma permitted_same:
  assumes "graph_at es (Suc i) = graph_at es i" and "\<And>a. \<not> readmits (es ! i) a"
  shows "permitted_before agents es (Suc i) = permitted_before agents es i"
proof -
  have h: "has_channel es (Suc i) a \<longleftrightarrow> has_channel es i a" for a by (simp add: has_channel_def assms(1))
  show ?thesis using assms(2) unfolding permitted_before_def isolated_from_step h
    by (auto simp: less_Suc_eq isolated_from_def)
qed

lemma permitted_regraph:
  assumes "\<And>a. \<not> readmits (es ! i) a"
  shows "permitted_before agents es (Suc i) =
    permitted_before agents es i \<inter> {a \<in> set agents. \<not> has_channel es (Suc i) a}"
  using assms unfolding permitted_before_def isolated_from_step
  by (auto simp: less_Suc_eq)

lemma permitted_readmit:
  assumes "graph_at es (Suc i) = graph_at es i" and "\<And>b. readmits (es ! i) b \<longleftrightarrow> b = a" and "0 < i"
  shows "permitted_before agents es (Suc i) =
    permitted_before agents es i \<union> ({a} \<inter> {a \<in> set agents. \<not> has_channel es i a})"
proof -
  have h: "has_channel es (Suc i) b \<longleftrightarrow> has_channel es i b" for b by (simp add: has_channel_def assms(1))
  have 1: "isolated_from es b k i \<Longrightarrow> \<not> has_channel es i b \<and> k < i" for b k by (auto simp: isolated_from_def)
  show ?thesis
  proof (intro equalityI subsetI)
    fix b assume "b \<in> permitted_before agents es (Suc i)"
    then show "b \<in> permitted_before agents es i \<union> ({a} \<inter> {a \<in> set agents. \<not> has_channel es i a})"
      using assms(2) 1 unfolding permitted_before_def isolated_from_step h by (auto simp: less_Suc_eq)
  next
    fix b assume "b \<in> permitted_before agents es i \<union> ({a} \<inter> {a \<in> set agents. \<not> has_channel es i a})"
    then show "b \<in> permitted_before agents es (Suc i)"
    proof
      assume "b \<in> permitted_before agents es i"
      then show ?thesis using 1 unfolding permitted_before_def isolated_from_step h by (auto simp: less_Suc_eq)
    next
      assume b: "b \<in> {a} \<inter> {a \<in> set agents. \<not> has_channel es i a}"
      with isolated_since [OF assms(3), of es b] obtain k where k: "isolated_from es b k i" by blast
      with b assms(2) 1 [OF k] have "isolated_from es b k (Suc i) \<and> k < i \<and> i < Suc i \<and> readmits (es ! i) b"
        unfolding isolated_from_step h by simp
      with b show ?thesis unfolding permitted_before_def by blast
    qed
  qed
qed

lemma restarted_step: "restarted_before es (Suc i) = restarted_before es i \<union> {a. restarts a (es ! i)}"
  by (auto simp: restarted_before_def less_Suc_eq)

lemma scored_step:
  "scored_before es (Suc i) = scored_before es i \<union>
     {(a, s). \<exists>av wit. en_event (es ! i) = Assessment a (Some s) av wit \<and> wit \<noteq> u ''SELF''}"
  unfolding scored_before_def less_Suc_eq by blast

text \<open>The three ways an entry changes the history: not at all, by a new graph, by a permit.\<close>

lemma history_same:
  assumes "graph_at (rn_entries rn) (Suc i) = graph_at (rn_entries rn) i"
    and "\<And>a. \<not> readmits (rn_entries rn ! i) a"
  shows "history rn (Suc i) = (history rn i)
    \<lparr>ct_restarted := restarted_before (rn_entries rn) (Suc i), ct_scores := scored_before (rn_entries rn) (Suc i)\<rparr>"
  by (simp add: history_def assms(1) permitted_same [OF assms])

lemma history_regraph:
  assumes "\<And>a. \<not> readmits (rn_entries rn ! i) a" and "\<And>a. \<not> restarts a (rn_entries rn ! i)"
    and "\<And>a s av wit. en_event (rn_entries rn ! i) \<noteq> Assessment a s av wit"
  shows "history rn (Suc i) = regraph (policy_of rn) (graph_at (rn_entries rn) (Suc i)) (history rn i)"
  using permitted_regraph [where agents = "rn_agents rn", OF assms(1)] assms(2,3)
  by (auto simp: history_def regraph_def restarted_step scored_step confined_def policy_of_def has_channel_def)

lemma history_readmit:
  assumes "graph_at (rn_entries rn) (Suc i) = graph_at (rn_entries rn) i" and "0 < i"
    and "en_event (rn_entries rn ! i) = Restoration r" and "rs_admitted r"
  shows "history rn (Suc i) = (history rn i)
    \<lparr>ct_permits := ct_permits (history rn i) \<union> ({rs_agent r} \<inter> confined (policy_of rn) (ct_graph (history rn i)))\<rparr>"
proof -
  have "readmits (rn_entries rn ! i) b \<longleftrightarrow> b = rs_agent r" for b using assms(3,4) by (auto simp: readmits_def)
  from permitted_readmit [where agents = "rn_agents rn", OF assms(1) this assms(2)] assms(1,3) show ?thesis
    by (auto simp: history_def restarted_step scored_step confined_def policy_of_def has_channel_def)
qed

section \<open>The simulation\<close>

lemma decision_step:
  assumes w: "walked cx rn" and i: "0 < i" "i < length (rn_entries rn)"
    and d: "en_event (rn_entries rn ! i) = Decision d"
    and words: "dc_function d \<in> {u ''restriction'', u ''isolation'', u ''restoration''}"
  shows "contain (policy_of rn) (history rn i) (action_of (Decision d)) (history rn (Suc i))"
proof -
  let ?es = "rn_entries rn"
  have g: "graph_at ?es (Suc i) = set (dc_edges d)" by (simp add: graph_at_Suc [OF i(2)] d)
  then have h: "history rn (Suc i) = regraph (policy_of rn) (set (dc_edges d)) (history rn i)"
    using history_regraph [of rn i] by (simp add: d readmits_def)
  show ?thesis
  proof (cases "dc_function d = u ''restoration''")
    case True
    have "confined (policy_of rn) (graph_at ?es i) - confined (policy_of rn) (set (dc_edges d))
        \<subseteq> permitted_before (rn_agents rn) ?es i" if gated: "claims rn ''restorationGated''"
    proof
      fix a assume a: "a \<in> confined (policy_of rn) (graph_at ?es i) - confined (policy_of rn) (set (dc_edges d))"
      then have ag: "a \<in> set (rn_agents rn)" "\<not> has_channel ?es i a" "has_channel ?es (Suc i) a"
        by (auto simp: confined_def policy_of_def has_channel_def g)
      from isolated_since [OF i(1) ag(2)] obtain k where k: "isolated_from ?es a k i" by blast
      have "\<exists>m. k < m \<and> m < i \<and> readmits (?es ! m) a"
        by (rule regained_channel [OF w i(2) ag(1) k ag(3)]) (use d words gated in \<open>auto simp: falls_back_def\<close>)
      with ag(1) k show "a \<in> permitted_before (rn_agents rn) ?es i" by (auto simp: permitted_before_def)
    qed
    then show ?thesis unfolding h using True by (auto simp: history_def policy_of_def intro!: reconnect)
  next
    case False
    from walked_states [OF w i] obtain s s' where inv: "walk_inv rn i s"
      and st: "walk_entry cx rn (i, ?es ! i) s = Inr s'" by blast
    from st d have "dc_added d = listed (minus_edges (dc_edges d) (wk_graph s))"
      "dc_function d \<in> {u ''restriction'', u ''isolation''} \<longrightarrow> dc_added d = []"
      by (auto simp: walk_decision_def Let_def)
    with False words have "set (listed (minus_edges (dc_edges d) (wk_graph s))) = {}" by auto
    then have "set (dc_edges d) \<subseteq> set (wk_graph s)" by (auto simp: listed_def minus_edges_def)
    then have "set (dc_edges d) \<subseteq> ct_graph (history rn i)" using inv by (simp add: history_def walk_inv_def)
    then show ?thesis unfolding h using False by (auto intro: cut)
  qed
qed

lemma history_step:
  assumes w: "walked cx rn" and i: "0 < i" "i < length (rn_entries rn)"
    and words: "\<And>d. en_event (rn_entries rn ! i) = Decision d \<Longrightarrow>
      dc_function d \<in> {u ''restriction'', u ''isolation'', u ''restoration''}"
  shows "contain (policy_of rn) (history rn i) (action_of (en_event (rn_entries rn ! i))) (history rn (Suc i))"
proof -
  let ?es = "rn_entries rn"
  note step = graph_at_Suc [OF i(2)]
  from walked_states [OF w i] obtain s s' where inv: "walk_inv rn i s"
    and st: "walk_entry cx rn (i, ?es ! i) s = Inr s'" by blast
  have gr: "ct_graph (history rn i) = graph_at ?es i" by (simp add: history_def)
  note same = history_same [of rn i, unfolded restarted_step scored_step]
  show ?thesis
  proof (cases "en_event (?es ! i)")
    case (Topology g)
    with st show ?thesis by simp
  next
    case (Delivery s r f d)
    then have h: "history rn (Suc i) = history rn i" using same step by (simp add: readmits_def history_def)
    from delivery_in_force [OF w i(2) Delivery] have "d \<longrightarrow> (s, r) \<notin> ct_graph (history rn i)"
      "\<not> d \<longrightarrow> pl_enforced (policy_of rn) \<longrightarrow> (s, r) \<in> ct_graph (history rn i)"
      unfolding gr policy_of_def by simp_all
    then show ?thesis unfolding h Delivery by (cases d) (simp_all add: deliver drop)
  next
    case (Decision d)
    with decision_step [OF w i Decision words [OF Decision]] show ?thesis by simp
  next
    case (Fallback g posture)
    then have "history rn (Suc i) = regraph (policy_of rn) (set g) (history rn i)"
      using history_regraph [of rn i] step by (simp add: readmits_def)
    then show ?thesis unfolding Fallback by (simp add: fall_back)
  next
    case (Restart a re cl b c)
    then have "history rn (Suc i) = (history rn i)\<lparr>ct_restarted := insert a (ct_restarted (history rn i))\<rparr>"
      using same step by (simp add: readmits_def history_def)
    then show ?thesis unfolding Restart by (simp add: restarted)
  next
    case (Assessment a sc av wit)
    show ?thesis
    proof (cases "\<exists>s. sc = Some s \<and> wit \<noteq> u ''SELF''")
      case True
      then obtain s where s: "sc = Some s" "wit \<noteq> u ''SELF''" by blast
      then have "history rn (Suc i) = (history rn i)\<lparr>ct_scores := insert (a, s) (ct_scores (history rn i))\<rparr>"
        using same step Assessment by (simp add: readmits_def history_def)
      then show ?thesis unfolding Assessment using s by (simp add: scored)
    next
      case False
      then have none: "\<not> (sc = Some s \<and> wit \<noteq> u ''SELF'')" for s by blast
      then have "action_of (Assessment a sc av wit) = Silent" by (cases sc) auto
      moreover have "history rn (Suc i) = history rn i"
        using same step Assessment none by (simp add: readmits_def history_def)
      ultimately show ?thesis unfolding Assessment by (simp add: silent)
    qed
  next
    case (Restoration r)
    show ?thesis
    proof (cases "rs_admitted r")
      case True
      have "evidenced ?es i (rs_agent r)"
        by (rule readmission_evidenced [OF w i(2)]) (use Restoration True in \<open>simp add: readmits_def\<close>)
      then obtain m n where "m < i" "clean_restart (?es ! m) (rs_agent r)" "n < i"
        "cleared_by (?es ! n) (rs_agent r) (rs_threshold r)"
        using Restoration by (auto simp: evidenced_def)
      from \<open>m < i\<close> \<open>clean_restart (?es ! m) (rs_agent r)\<close> have "rs_agent r \<in> ct_restarted (history rn i)"
        by (auto simp: history_def restarted_before_def clean_restart_def)
      moreover from \<open>n < i\<close> \<open>cleared_by (?es ! n) (rs_agent r) (rs_threshold r)\<close> obtain s where
        "(rs_agent r, s) \<in> ct_scores (history rn i)" "s < rs_threshold r"
        by (auto simp: history_def scored_before_def cleared_by_def)
      moreover have "history rn (Suc i) = (history rn i)\<lparr>ct_permits :=
          ct_permits (history rn i) \<union> ({rs_agent r} \<inter> confined (policy_of rn) (ct_graph (history rn i)))\<rparr>"
        by (rule history_readmit [OF _ i(1) Restoration True]) (simp add: step Restoration)
      ultimately show ?thesis unfolding Restoration using True by (simp add: readmit)
    next
      case False
      then have "history rn (Suc i) = history rn i"
        using same step Restoration by (simp add: readmits_def history_def)
      with False show ?thesis unfolding Restoration by (simp add: silent)
    qed
  next
    case (Response r)
    then have "history rn (Suc i) = history rn i" using same step by (simp add: readmits_def history_def)
    with Response show ?thesis by (simp add: silent)
  next
    case (Tool_Call a refused chain)
    then have h: "history rn (Suc i) = history rn i" using same step by (simp add: readmits_def history_def)
    show ?thesis
    proof (cases refused)
      case False
      with call_has_channel [OF w i(2)] Tool_Call have "a \<in> fst ` ct_graph (history rn i)"
        by (simp add: history_def has_channel_def)
      with False h Tool_Call show ?thesis by (simp add: act)
    qed (use h Tool_Call in \<open>simp add: silent\<close>)
  next
    case (Retrieval a doc ad steps)
    then have "history rn (Suc i) = history rn i" using same step by (simp add: readmits_def history_def)
    with Retrieval show ?thesis by (simp add: silent)
  next
    case (Refused s r)
    then have h: "history rn (Suc i) = history rn i" using same step by (simp add: readmits_def history_def)
    have "(s, r) \<in> ct_graph (history rn i)"
      using st inv Refused by (auto simp: history_def walk_refusal_def walk_inv_def)
    with h Refused show ?thesis by (simp add: refuse)
  qed
qed

lemma history_run:
  assumes "walked cx rn" and "\<And>i d. i < length (rn_entries rn) \<Longrightarrow> en_event (rn_entries rn ! i) = Decision d \<Longrightarrow>
      dc_function d \<in> {u ''restriction'', u ''isolation'', u ''restoration''}"
    and "i \<le> j" "0 < i" "j \<le> length (rn_entries rn)"
  shows "contain_run (policy_of rn) (history rn i)
    (map (\<lambda>k. action_of (en_event (rn_entries rn ! k))) [i..<j]) (history rn j)"
  using assms(3,5)
proof (induction j rule: dec_induct)
  case base
  show ?case by (simp add: finished)
next
  case (step k)
  have k: "0 < k" "k < length (rn_entries rn)" using step.prems step.hyps(1) assms(4) by auto
  have "contain (policy_of rn) (history rn k) (action_of (en_event (rn_entries rn ! k))) (history rn (Suc k))"
    by (rule history_step [OF assms(1) k]) (rule assms(2) [OF k(2)])
  with step show ?case by (auto intro!: extended)
qed

end
