(* ===== verification/BlastRadius.thy ===== *)
theory BlastRadius
  imports ContainmentSpec
begin

text \<open>
  The reach a receipt states, as chains of deliveries: an agent is reached when deliveries that were not
  dropped, in the order of the journal, lead from the subject to it. The recomputation of the reader is
  that relation, and a receipt it allows states it exactly.
\<close>

section \<open>Chains of deliveries\<close>

definition delivers :: "entry \<Rightarrow> ustr \<Rightarrow> ustr \<Rightarrow> bool" where
  "delivers e s r \<longleftrightarrow> (\<exists>in_force. en_event e = Delivery s r in_force False)"

definition calls :: "entry \<Rightarrow> ustr \<Rightarrow> bool" where
  "calls e a \<longleftrightarrow> (\<exists>refused chain. en_event e = Tool_Call a refused chain)"

text \<open>\<open>reaches es s f a n\<close>: by the entries from \<open>f\<close> up to \<open>n\<close>, the subject \<open>s\<close> reached \<open>a\<close>.\<close>

inductive reaches :: "entry list \<Rightarrow> ustr \<Rightarrow> nat \<Rightarrow> ustr \<Rightarrow> nat \<Rightarrow> bool" for es s f where
  self: "reaches es s f s f"
| hop: "reaches es s f b j \<Longrightarrow> j \<le> i \<Longrightarrow> i < length es \<Longrightarrow> delivers (es ! i) b c \<Longrightarrow> reaches es s f c (Suc i)"

definition reached_by :: "entry list \<Rightarrow> ustr \<Rightarrow> nat \<Rightarrow> nat \<Rightarrow> ustr set" where
  "reached_by es s f i = {a. \<exists>n \<le> i. reaches es s f a n}"

lemma reaches_bounds: "reaches es s f a n \<Longrightarrow> f \<le> n \<and> (n = f \<or> n \<le> length es)"
  by (induction rule: reaches.induct) auto

lemma reached_by_start: "reached_by es s f f = {s}"
proof -
  have "a = s" if "reaches es s f a n" "n \<le> f" for a n
    using that(1)
  proof (cases rule: reaches.cases)
    case (hop b j i)
    with reaches_bounds [OF hop(2)] that(2) show ?thesis by simp
  qed simp
  then show ?thesis by (auto simp: reached_by_def intro: self)
qed

lemma reached_by_Suc:
  assumes "f \<le> i" and "i < length es"
  shows "reached_by es s f (Suc i) = reached_by es s f i \<union> {c. \<exists>b \<in> reached_by es s f i. delivers (es ! i) b c}"
proof (intro equalityI subsetI)
  fix a assume "a \<in> reached_by es s f (Suc i)"
  then obtain n where n: "n \<le> Suc i" "reaches es s f a n" by (auto simp: reached_by_def)
  show "a \<in> reached_by es s f i \<union> {c. \<exists>b \<in> reached_by es s f i. delivers (es ! i) b c}"
  proof (cases "n \<le> i")
    case True
    with n show ?thesis by (auto simp: reached_by_def)
  next
    case False
    with n(1) have k: "n = Suc i" by simp
    from n(2) show ?thesis
    proof (cases rule: reaches.cases)
      case self
      with k assms(1) show ?thesis by simp
    next
      case (hop b j i')
      with k show ?thesis by (auto simp: reached_by_def)
    qed
  qed
next
  fix a assume "a \<in> reached_by es s f i \<union> {c. \<exists>b \<in> reached_by es s f i. delivers (es ! i) b c}"
  then show "a \<in> reached_by es s f (Suc i)"
    using assms(2) by (auto simp: reached_by_def intro: le_SucI hop)
qed

section \<open>The recomputed reach\<close>

definition reach_at :: "entry list \<Rightarrow> ustr \<Rightarrow> nat \<Rightarrow> nat \<Rightarrow> reach" where
  "reach_at es s f i =
     fold (\<lambda>e. reach_step (en_event e)) (take (i - f) (drop f es))
       \<lparr>rc_tainted = [s], rc_deliveries = 0, rc_tools = 0\<rparr>"

lemma reach_at_Suc:
  assumes "f \<le> i" and "i < length es"
  shows "reach_at es s f (Suc i) = reach_step (en_event (es ! i)) (reach_at es s f i)"
proof -
  have "i - f < length (drop f es)" and "drop f es ! (i - f) = es ! i" using assms by simp_all
  with assms(1) show ?thesis by (simp add: reach_at_def Suc_diff_le take_Suc_conv_app_nth)
qed

lemma reach_of_at: "f \<le> length es \<Longrightarrow> reach_of es s f = reach_at es s f (length es)"
  by (simp add: reach_of_def reach_at_def)

text \<open>The entries that count: a delivery by a reached sender, a call by a reached agent.\<close>

definition counted_deliveries :: "entry list \<Rightarrow> ustr \<Rightarrow> nat \<Rightarrow> nat \<Rightarrow> nat set" where
  "counted_deliveries es s f i = {j. f \<le> j \<and> j < i \<and> (\<exists>b \<in> reached_by es s f j. \<exists>c. delivers (es ! j) b c)}"

definition counted_calls :: "entry list \<Rightarrow> ustr \<Rightarrow> nat \<Rightarrow> nat \<Rightarrow> nat set" where
  "counted_calls es s f i = {j. f \<le> j \<and> j < i \<and> (\<exists>b \<in> reached_by es s f j. calls (es ! j) b)}"

lemma finite_counted [simp]: "finite (counted_deliveries es s f i)" "finite (counted_calls es s f i)"
  by (auto simp: counted_deliveries_def counted_calls_def intro: finite_subset [of _ "{..<i}"])

lemma counted_Suc:
  assumes "f \<le> i"
  shows "counted_deliveries es s f (Suc i) =
      (if \<exists>b \<in> reached_by es s f i. \<exists>c. delivers (es ! i) b c then insert i else id) (counted_deliveries es s f i)"
    and "counted_calls es s f (Suc i) =
      (if \<exists>b \<in> reached_by es s f i. calls (es ! i) b then insert i else id) (counted_calls es s f i)"
  using assms by (auto simp: counted_deliveries_def counted_calls_def less_Suc_eq)

lemma counted_fresh: "i \<notin> counted_deliveries es s f i" "i \<notin> counted_calls es s f i"
  by (simp_all add: counted_deliveries_def counted_calls_def)

definition reach_ok :: "entry list \<Rightarrow> ustr \<Rightarrow> nat \<Rightarrow> nat \<Rightarrow> reach \<Rightarrow> bool" where
  "reach_ok es s f i x \<longleftrightarrow>
     set (rc_tainted x) = reached_by es s f i \<and> distinct (rc_tainted x) \<and>
     rc_deliveries x = card (counted_deliveries es s f i) \<and> rc_tools x = card (counted_calls es s f i)"

lemma delivers_iff [simp]: "en_event e = Delivery s r flag dropped \<Longrightarrow> delivers e b c \<longleftrightarrow> \<not> dropped \<and> b = s \<and> c = r"
  by (auto simp: delivers_def)

lemma calls_iff [simp]: "en_event e = Tool_Call a refused chain \<Longrightarrow> calls e b \<longleftrightarrow> b = a"
  by (auto simp: calls_def)

lemma reach_step_ok:
  assumes "f \<le> i" and "i < length es" and "reach_ok es s f i x"
  shows "reach_ok es s f (Suc i) (reach_step (en_event (es ! i)) x)"
proof -
  have other: "reach_ok es s f (Suc i) x"
    if "\<And>b c. b \<in> reached_by es s f i \<Longrightarrow> \<not> delivers (es ! i) b c" "\<And>b. b \<in> reached_by es s f i \<Longrightarrow> \<not> calls (es ! i) b"
  proof -
    from that have "\<not> (\<exists>b \<in> reached_by es s f i. \<exists>c. delivers (es ! i) b c)" "\<not> (\<exists>b \<in> reached_by es s f i. calls (es ! i) b)"
      by blast+
    with that assms(3) show ?thesis
      by (auto simp: reach_ok_def reached_by_Suc [OF assms(1,2)] counted_Suc [OF assms(1)])
  qed
  have t: "set (rc_tainted x) = reached_by es s f i" using assms(3) by (simp add: reach_ok_def)
  show ?thesis
  proof (cases "en_event (es ! i)")
    case (Delivery b c flag dropped)
    show ?thesis
    proof (cases "\<not> dropped \<and> b \<in> reached_by es s f i")
      case True
      have "\<not> calls (es ! i) a" for a using Delivery by (simp add: calls_def)
      with True Delivery assms(3) t show ?thesis
        by (auto simp: reach_ok_def reached_by_Suc [OF assms(1,2)] counted_Suc [OF assms(1)] counted_fresh
            card_insert_if)
    next
      case False
      then have "reach_step (en_event (es ! i)) x = x" using Delivery t by auto
      moreover have "reach_ok es s f (Suc i) x"
        by (rule other) (use Delivery False in \<open>auto simp: calls_def\<close>)
      ultimately show ?thesis by simp
    qed
  next
    case (Tool_Call a refused chain)
    show ?thesis
    proof (cases "a \<in> reached_by es s f i")
      case True
      have "\<not> delivers (es ! i) b c" for b c using Tool_Call by (simp add: delivers_def)
      with True Tool_Call assms(3) t show ?thesis
        by (auto simp: reach_ok_def reached_by_Suc [OF assms(1,2)] counted_Suc [OF assms(1)] counted_fresh
            card_insert_if)
    next
      case False
      then have "reach_step (en_event (es ! i)) x = x" using Tool_Call t by auto
      moreover have "reach_ok es s f (Suc i) x"
        by (rule other) (use Tool_Call False in \<open>auto simp: delivers_def\<close>)
      ultimately show ?thesis by simp
    qed
  qed (simp_all add: other delivers_def calls_def)
qed

lemma reach_at_ok:
  assumes "f \<le> i" and "i \<le> length es"
  shows "reach_ok es s f i (reach_at es s f i)"
  using assms
proof (induction i rule: dec_induct)
  case base
  show ?case
    by (simp add: reach_ok_def reach_at_def reached_by_start counted_deliveries_def counted_calls_def)
next
  case (step i)
  then show ?case using reach_step_ok [of f i es s] by (simp add: reach_at_Suc)
qed

lemma reach_of_ok: "f \<le> length es \<Longrightarrow> reach_ok es s f (length es) (reach_of es s f)"
  using reach_at_ok [of f "length es" es s] by (simp add: reach_of_at)

lemma reached_agents_set:
  "f \<le> length es \<Longrightarrow> set (reached_agents es s f) = reached_by es s f (length es) - {s}"
  using reach_of_ok [of f es s] by (auto simp: reached_agents_def reach_ok_def)

section \<open>How far a contained subject reaches\<close>

text \<open>Where edges are enforced, nothing leaves a group of agents that no graph in force connects to the rest.\<close>

lemma reach_stays_inside:
  assumes "walked cx rn" and "enforced rn" and "s \<in> grp"
    and closed: "\<And>i b c. f \<le> i \<Longrightarrow> i < n \<Longrightarrow> (b, c) \<in> graph_at (rn_entries rn) i \<Longrightarrow> b \<in> grp \<Longrightarrow> c \<in> grp"
  shows "reached_by (rn_entries rn) s f n \<subseteq> grp"
proof -
  have "a \<in> grp" if "reaches (rn_entries rn) s f a m" "m \<le> n" for a m
    using that
  proof (induction rule: reaches.induct)
    case (hop b j i c)
    from hop.hyps(4) obtain flag where "en_event (rn_entries rn ! i) = Delivery b c flag False" by (auto simp: delivers_def)
    with delivery_in_force [OF assms(1) hop.hyps(3)] assms(2) have "(b, c) \<in> graph_at (rn_entries rn) i" by blast
    moreover have "f \<le> i" "i < n" using reaches_bounds [OF hop.hyps(1)] hop.hyps(2) hop.prems by simp_all
    moreover from this have "b \<in> grp" using hop.IH hop.hyps(2) by simp
    ultimately show ?case using closed by blast
  qed (rule assms(3))
  then show ?thesis by (auto simp: reached_by_def)
qed

end
