(* ===== verification/Chain.thy ===== *)
theory Chain
  imports BlastRadius ParsedValue
begin

text \<open>
  What the digests of a containment journal bind: a loaded journal's values are dictionaries without
  repeated members, the canonical bytes of an entry determine it up to the order of its members, and so
  the digest of the last entry determines every entry unless the hash collides; an inclusion path
  determines the document at its end.
\<close>

section \<open>Loaded values\<close>

lemma dsets_wf:
  assumes "distinct (map fst d)" and "list_all (\<lambda>(k, v). wf_json v) d" and "list_all (\<lambda>(k, v). wf_json v) ps"
  shows "wf_json (JObj (foldl (\<lambda>d (k, v). dset d k v) d ps))"
  using assms
proof (induction ps arbitrary: d)
  case (Cons p ps)
  obtain k v where p: "p = (k, v)" by (cases p)
  have "list_all (\<lambda>(k, v). wf_json v) (dset d k v)"
    using Cons.prems(2,3) p by (induction d k v rule: dset.induct) auto
  with Cons p show ?case by (simp add: distinct_dset)
qed simp

lemma journal_hooks_wf: "hooks_wf journal_hooks"
  using dsets_wf [of "[]"] by (auto simp: hooks_wf_def journal_hooks_def)

lemma zero_constants_wf: "wf_json v \<Longrightarrow> wf_json (zero_constants v)"
proof (induction v)
  case (JObj d)
  have "map fst (map (\<lambda>(k, v). (k, zero_constants v)) d) = map fst d" by auto
  with JObj show ?case by (fastforce simp: list_all_iff simp del: map_map)
qed (auto simp: list_all_iff)

lemma strict_load_wf:
  assumes "strict_load raw = Inr (v, False)"
  shows "wf_json v \<and> canonical_values v"
  using assms loads_wf [OF journal_hooks_wf]
  by (auto simp: strict_load_def bindr_Inr_iff intro: zero_constants_wf split: option.splits)

section \<open>Canonical bytes\<close>

lemma printable_good_cps: "printable s \<Longrightarrow> list_all good_cp s"
  by (auto simp: printable_def list_all_iff good_cp_def scalar_def surrogate_def is_noncharacter_def)

lemma canonical_dumpable: "canonical_values v \<Longrightarrow> wf_json v \<Longrightarrow> dumpable v"
proof (induction v)
  case (JObj d)
  have "list_all good_cp k \<and> dumpable v" if "(k, v) \<in> set d" for k v
  proof -
    from JObj.prems that have "printable k" "canonical_values v" "wf_json v" by (auto simp: list_all_iff)
    with JObj.IH [OF that, of v] printable_good_cps show ?thesis by simp
  qed
  with JObj.prems show ?case by (auto simp: list_all_iff)
next
  case (JStr s)
  then show ?case using printable_good_cps by simp
qed (auto simp: list_all_iff SAFE_INT_LIMIT_def abs_less_iff)

lemma canonical_bytes_inj:
  assumes "canonical_values v" "wf_json v" "canonical_values w" "wf_json w"
    and "canonical_bytes cx v = canonical_bytes cx w"
  shows "norm v = norm w"
proof -
  have printed: "canonical_bytes cx x = text_of (norm x) \<and> loads strict_hooks (text_of (norm x)) = Inr (norm x)"
    if "canonical_values x" "wf_json x" for x
  proof -
    have c: "ParsePrint.canonical (norm x)" by (rule dumpable_norm [OF canonical_dumpable [OF that]])
    have "Inr (dumps cx Compact 0 x) = ser (norm x)"
      using ser_canonical [OF that(1), of cx 0] by (simp only: ser_norm)
    also have "\<dots> = Inr (text_of (norm x))" by (rule ser_text [OF c])
    finally show ?thesis using loads_text [OF c] by (simp add: canonical_bytes_def)
  qed
  note v = printed [OF assms(1,2)] and w = printed [OF assms(3,4)]
  from v w assms(5) have "text_of (norm v) = text_of (norm w)" by argo
  with v w have "Inr (norm v) = (Inr (norm w) :: json res)" by argo
  then show ?thesis by (rule sum.inject(2) [THEN iffD1])
qed

text \<open>The normal form has the members of the value.\<close>

lemma dget_norm:
  assumes "distinct (map fst d)"
  shows "dget (member_order (map (\<lambda>(k, v). (k, norm v)) d)) k = norm (dget d k)"
proof -
  let ?e = "map (\<lambda>(k, v). (k, norm v)) d"
  have e: "map fst ?e = map fst d" by auto
  have "map_of (member_order ?e) = map_of ?e"
    by (subst map_of_inject_set) (use assms e in \<open>simp_all only: distinct_member_order set_member_order\<close>)
  moreover have "map_of ?e k = map_option norm (map_of d k)" by (induction d) auto
  ultimately show ?thesis by (simp add: dget_def split: option.split)
qed

lemma member_norm: "wf_json v \<Longrightarrow> member (norm v) k = norm (member v k)"
  by (cases v) (simp_all add: dget_norm)

lemma as_str_norm [simp]: "as_str (norm v) = as_str v"
  by (cases v) simp_all

section \<open>The chain\<close>

lemma chain_from_prev:
  assumes "\<not> chain_from cx expected es" and "i < length es"
  shows "en_prev (es ! i) = (if i = 0 then expected else entry_digest cx (en_raw (es ! (i - 1))))"
  using assms
proof (induction es arbitrary: expected i)
  case (Cons e es)
  show ?case
  proof (cases i)
    case 0
    with Cons.prems show ?thesis by (simp split: if_splits)
  next
    case (Suc j)
    from Cons.prems(1) have "\<not> chain_from cx (entry_digest cx (en_raw e)) es" by (simp split: if_splits)
    from Cons.IH [OF this, of j] Cons.prems(2) Suc show ?thesis by (cases j) simp_all
  qed
qed simp

lemma chain_prev:
  assumes "chain_failure cx es = None" and "Suc i < length es"
  shows "en_prev (es ! Suc i) = entry_digest cx (en_raw (es ! i))"
proof -
  from assms(1) have "\<not> chain_from cx ZERO es"
    by (simp add: chain_failure_def chain_broken_def split: if_splits)
  from chain_from_prev [OF this assms(2)] show ?thesis by simp
qed

text \<open>An entry as loaded: its fields are its raw members.\<close>

definition loaded_entry :: "entry \<Rightarrow> bool" where
  "loaded_entry e \<longleftrightarrow> wf_json (en_raw e) \<and> canonical_values (en_raw e) \<and> entry_of (en_raw e) = Some e"

lemma digest_inj:
  assumes "\<And>b. is_bytes (cx_sha256 cx b)" and "inj_on (cx_sha256 cx) B"
    and "canonical_bytes cx v \<in> B" "canonical_bytes cx w \<in> B"
    and "canonical_values v" "wf_json v" "canonical_values w" "wf_json w"
    and "entry_digest cx v = entry_digest cx w"
  shows "norm v = norm w"
proof -
  from assms(9) have "hex_of (cx_sha256 cx (canonical_bytes cx v)) = hex_of (cx_sha256 cx (canonical_bytes cx w))"
    by (simp add: entry_digest_def sha256_hex_def)
  then have "cx_sha256 cx (canonical_bytes cx v) = cx_sha256 cx (canonical_bytes cx w)"
    by (rule hex_of_inj [OF assms(1) assms(1)])
  then have "canonical_bytes cx v = canonical_bytes cx w" by (rule inj_onD [OF assms(2) _ assms(3,4)])
  then show ?thesis by (rule canonical_bytes_inj [OF assms(5-8)])
qed

lemma head_determines:
  assumes hash: "\<And>b. is_bytes (cx_sha256 cx b)" "inj_on (cx_sha256 cx) B"
    and es: "chain_failure cx es = None" "list_all loaded_entry es" "\<And>e. e \<in> set es \<Longrightarrow> canonical_bytes cx (en_raw e) \<in> B"
    and fs: "chain_failure cx fs = None" "list_all loaded_entry fs" "\<And>e. e \<in> set fs \<Longrightarrow> canonical_bytes cx (en_raw e) \<in> B"
    and len: "length fs = length es" "es \<noteq> []"
    and head: "entry_digest cx (en_raw (last es)) = entry_digest cx (en_raw (last fs))"
  shows "map (\<lambda>e. norm (en_raw e)) es = map (\<lambda>e. norm (en_raw e)) fs"
proof (rule nth_equalityI)
  have digest: "norm (en_raw (es ! i)) = norm (en_raw (fs ! i))"
    if "i < length es" "entry_digest cx (en_raw (es ! i)) = entry_digest cx (en_raw (fs ! i))" for i
    by (rule digest_inj [OF hash es(3) fs(3)])
       (use that len(1) es(2) fs(2) in \<open>auto simp: loaded_entry_def list_all_length\<close>)
  have "norm (en_raw (es ! (length es - Suc k))) = norm (en_raw (fs ! (length es - Suc k)))" if "k < length es" for k
    using that
  proof (induction k)
    case 0
    from len have "fs \<noteq> []" by auto
    then have "entry_digest cx (en_raw (es ! (length es - 1))) = entry_digest cx (en_raw (fs ! (length es - 1)))"
      using head len by (simp add: last_conv_nth)
    then show ?case using digest 0 by simp
  next
    case (Suc k)
    define i where "i = length es - Suc (Suc k)"
    have i: "Suc i = length es - Suc k" "Suc i < length es" using Suc.prems by (auto simp: i_def)
    have "en_prev e = as_str (member (norm (en_raw e)) ''prev'')" if "loaded_entry e" for e
      using that by (simp add: loaded_entry_def member_norm entry_of_Some)
    then have "en_prev (es ! Suc i) = en_prev (fs ! Suc i)"
      using Suc.IH i es(2) fs(2) len(1) by (simp add: list_all_length)
    then have "entry_digest cx (en_raw (es ! i)) = entry_digest cx (en_raw (fs ! i))"
      using chain_prev [OF es(1)] chain_prev [OF fs(1)] i(2) len(1) by simp
    then show ?case using digest i by (simp add: i_def)
  qed
  note down = this
  fix i assume i: "i < length (map (\<lambda>e. norm (en_raw e)) es)"
  with down [of "length es - Suc i"] len(1) show "map (\<lambda>e. norm (en_raw e)) es ! i = map (\<lambda>e. norm (en_raw e)) fs ! i"
    by simp
qed (simp add: len(1))

section \<open>Inclusion paths\<close>

text \<open>The strings an inclusion path hashes.\<close>

fun path_inputs :: "ctx \<Rightarrow> bytes \<Rightarrow> (ustr \<times> ustr) list \<Rightarrow> bytes list" where
  "path_inputs cx node [] = []"
| "path_inputs cx node ((side, sibling) # steps) =
     (let other = from_hex (drop 7 sibling);
          input = 1 # (if side = u ''left'' then other @ node else node @ other)
      in input # path_inputs cx (cx_sha256 cx input) steps)"

lemma merkle_path_inj:
  assumes "\<And>b. length (cx_sha256 cx b) = n" and "inj_on (cx_sha256 cx) B"
    and "set (path_inputs cx x steps) \<subseteq> B" "set (path_inputs cx y steps) \<subseteq> B"
    and "length x = n" "length y = n" and "merkle_path cx x steps = merkle_path cx y steps"
  shows "x = y"
  using assms(3-)
proof (induction steps arbitrary: x y)
  case (Cons st steps)
  obtain side sibling where st: "st = (side, sibling)" by (cases st)
  define input where "input = (\<lambda>node. 1 # (if side = u ''left'' then from_hex (drop 7 sibling) @ node
      else node @ from_hex (drop 7 sibling)))"
  have "cx_sha256 cx (input x) = cx_sha256 cx (input y)"
    by (rule Cons.IH) (use Cons.prems st assms(1) in \<open>auto simp: Let_def input_def\<close>)
  then have "input x = input y"
    by (rule inj_onD [OF assms(2)]) (use Cons.prems(1,2) st in \<open>auto simp: Let_def input_def\<close>)
  with Cons.prems(3,4) show ?case by (simp add: input_def split: if_splits)
qed simp

lemma hex_value_inj: "is_lower_hex a \<Longrightarrow> is_lower_hex b \<Longrightarrow> hex_value a = hex_value b \<longleftrightarrow> a = b"
  by (auto simp: is_lower_hex_def is_digit_def hex_value_def)

lemma hex_value_bound: "is_lower_hex a \<Longrightarrow> hex_value a < 16"
  by (auto simp: is_lower_hex_def is_digit_def hex_value_def)

lemma from_hex_inj:
  assumes "list_all is_lower_hex s" "list_all is_lower_hex t" "length s = length t" "even (length s)"
    and "from_hex s = from_hex t"
  shows "s = t"
  using assms
proof (induction s arbitrary: t rule: from_hex.induct)
  case (1 a b s)
  then obtain c d t' where t: "t = c # d # t'" by (cases t; cases "tl t") auto
  with "1.prems" have h: "is_lower_hex a" "is_lower_hex b" "is_lower_hex c" "is_lower_hex d"
    and v: "16 * hex_value a + hex_value b = 16 * hex_value c + hex_value d" by auto
  have "hex_value b < 16" "hex_value d < 16" using h hex_value_bound by blast+
  with v have "hex_value a = hex_value c" by linarith
  with v have "hex_value b = hex_value d" by simp
  with h \<open>hex_value a = hex_value c\<close> have "a = c" "b = d" by (simp_all add: hex_value_inj)
  moreover have "s = t'" by (rule "1.IH") (use "1.prems" t in auto)
  ultimately show ?case using t by simp
qed auto

lemma inclusion_inj:
  assumes "\<And>b. length (cx_sha256 cx b) = n" "\<And>b. is_bytes (cx_sha256 cx b)" and "inj_on (cx_sha256 cx) B"
    and docs: "digest_match d" "digest_match e"
    and "0 # from_hex (drop 7 d) \<in> B" "set (path_inputs cx (merkle_leaf cx d) steps) \<subseteq> B"
    and "0 # from_hex (drop 7 e) \<in> B" "set (path_inputs cx (merkle_leaf cx e) steps) \<subseteq> B"
    and "inclusion_root cx d steps = inclusion_root cx e steps"
  shows "d = e"
proof -
  have bytes: "is_bytes (merkle_path cx x steps)" if "is_bytes x" for x
    using that assms(2) by (induction steps arbitrary: x) (auto simp: Let_def)
  have "hex_of (merkle_path cx (merkle_leaf cx d) steps) = hex_of (merkle_path cx (merkle_leaf cx e) steps)"
    using assms(10) by (simp add: inclusion_root_def)
  then have "merkle_path cx (merkle_leaf cx d) steps = merkle_path cx (merkle_leaf cx e) steps"
    by (rule hex_of_inj [rotated -1]) (simp_all add: bytes merkle_leaf_def assms(2))
  then have "merkle_leaf cx d = merkle_leaf cx e"
    by (rule merkle_path_inj [rotated -1, OF _ assms(1,3)]) (use assms(1,7,9) in \<open>simp_all add: merkle_leaf_def\<close>)
  then have "0 # from_hex (drop 7 d) = 0 # from_hex (drop 7 e)"
    unfolding merkle_leaf_def by (rule inj_onD [OF assms(3)]) (rule assms(6), rule assms(8))
  moreover have "list_all is_lower_hex (drop 7 x) \<and> length (drop 7 x) = 64 \<and> take 7 x = u ''sha256:''" if "digest_match x" for x
    using that by (simp add: digest_match_def starts_def eval_nat_numeral)
  ultimately have "drop 7 d = drop 7 e" "take 7 d = take 7 e" using from_hex_inj docs by auto
  then show ?thesis by (metis append_take_drop_id)
qed

end
