(* ===== verification/ToyJournal.thy ===== *)
theory ToyJournal
  imports Chain
begin

text \<open>
  A containment journal for the witnesses: two agents, the first isolated, restarted, assessed, readmitted
  and connected again, then a delivery and a tool call. The hash numbers the journal's entries.
\<close>

definition numbered :: "nat \<Rightarrow> ustr" where
  "numbered n = u ''sha256:'' @ replicate 62 48 @ [48, 48 + n]"

definition noon :: ustr where
  "noon = u ''2026-01-02T03:04:05Z''"

definition j_a :: ustr where "j_a = u ''a''"
definition j_b :: ustr where "j_b = u ''b''"

definition both_ways :: json where
  "both_ways = JArr [JArr [JStr j_a, JStr j_b], JArr [JStr j_b, JStr j_a]]"

definition j_entry :: "nat \<Rightarrow> ustr \<Rightarrow> string \<Rightarrow> jdict \<Rightarrow> json" where
  "j_entry n prev name ms =
     JObj ((u ''seq'', JInt (int n)) # (u ''prev'', JStr prev) # (u ''at'', JStr noon) # (u ''event'', js name) # ms)"

text \<open>The entries, each with the number of the one before as the digest it cites.\<close>

definition j_topology :: json where
  "j_topology = j_entry 0 ZERO ''topology'' [(u ''edges'', both_ways)]"

definition j_cut :: json where
  "j_cut = j_entry 1 (numbered 0) ''decision''
     [(u ''basis'', js ''fixed_schedule''), (u ''responseFunction'', js ''isolation''),
      (u ''edges'', JArr [JArr [JStr j_b, JStr j_a]]), (u ''removed'', JArr [JArr [JStr j_a, JStr j_b]]),
      (u ''added'', JArr []), (u ''isolated'', JArr [JStr j_a])]"

definition j_restart :: json where
  "j_restart = j_entry 2 (numbered 1) ''restart''
     [(u ''agent'', JStr j_a), (u ''remediated'', JBool True), (u ''memoryCleared'', JBool True),
      (u ''configBefore'', JStr (numbered 0)), (u ''configAfter'', JStr (numbered 1))]"

definition j_assessment :: json where
  "j_assessment = j_entry 3 (numbered 2) ''assessment''
     [(u ''agent'', JStr j_a), (u ''score'', JInt 2), (u ''availability'', js ''scored''), (u ''witness'', js ''EXTERNAL'')]"

definition j_restoration :: json where
  "j_restoration = j_entry 4 (numbered 3) ''restoration''
     [(u ''agent'', JStr j_a), (u ''admitted'', JBool True), (u ''threshold'', JInt 5),
      (u ''evidence'', JArr [JStr (numbered 2), JStr (numbered 3)]), (u ''ruleDigest'', JStr (numbered 0))]"

definition j_reconnect :: json where
  "j_reconnect = j_entry 5 (numbered 4) ''decision''
     [(u ''basis'', js ''evidence_gate''), (u ''responseFunction'', js ''restoration''),
      (u ''edges'', both_ways), (u ''removed'', JArr []), (u ''added'', JArr [JArr [JStr j_a, JStr j_b]]),
      (u ''isolated'', JArr [])]"

definition j_delivery :: json where
  "j_delivery = j_entry 6 (numbered 5) ''delivery''
     [(u ''sender'', JStr j_a), (u ''receiver'', JStr j_b), (u ''bodyDigest'', JStr (numbered 0)),
      (u ''edgeInForce'', JBool True), (u ''dropped'', JBool False)]"

definition j_call :: json where
  "j_call = j_entry 7 (numbered 6) ''tool_call'' [(u ''agent'', JStr j_b), (u ''tool'', js ''t'')]"

lemmas j_defs = j_topology_def j_cut_def j_restart_def j_assessment_def j_restoration_def j_reconnect_def j_delivery_def
  j_call_def

definition j_raws :: "json list" where
  "j_raws = [j_topology, j_cut, j_restart, j_assessment, j_restoration, j_reconnect, j_delivery, j_call]"

definition j_record :: json where
  "j_record =
     JObj [(u ''contractId'', JStr CONTRACT_ID), (u ''runId'', js ''r''), (u ''agents'', JArr [JStr j_a, JStr j_b]),
       (u ''enforcement'', js ''enforced''), (u ''messageFields'', JArr []),
       (u ''claims'', JObj [(u ''restorationGated'', JBool True)]), (u ''entries'', JArr j_raws)]"

section \<open>Shapes\<close>

lemma numbered_digest: "n < 10 \<Longrightarrow> is_digest (JStr (numbered n))"
  by (simp add: is_digest_def digest_match_def numbered_def starts_def is_lower_hex_def is_digit_def u_def list_all_iff)

lemma ZERO_digest: "is_digest (JStr ZERO)"
  by (simp add: is_digest_def digest_match_def ZERO_def starts_def is_lower_hex_def is_digit_def u_def list_all_iff)

lemma noon_time: "is_time noon"
  unfolding noon_def by code_simp

lemma j_agents: "is_agent [j_a, j_b] (JStr j_a)" "is_agent [j_a, j_b] (JStr j_b)" "j_a \<noteq> j_b" "j_a < j_b" "j_b \<noteq> j_a"
  by (simp_all add: is_agent_def j_a_def j_b_def u_def)

lemmas j_shapes = numbered_digest ZERO_digest noon_time j_agents

lemma well_shapedI:
  assumes "event_members d = ms" and "list_all (\<lambda>(k, s). has_key d (u k) \<and> shape_ok s agents (dget d (u k))) BASE_MEMBERS"
    and "dget d (u ''event'') = js ''tool_call'' \<longrightarrow> has_key d (u ''refusalReason'') = (dget d (u ''refused'') = JBool True)"
    and "set (map fst d) = u ` set (map fst (BASE_MEMBERS @ ms))" and "shapes_ok agents d ms"
  shows "\<not> entry_malformed agents (JObj d)"
proof -
  have "u ` set (map fst (BASE_MEMBERS @ ms)) = names_of BASE_MEMBERS \<union> names_of ms"
    by (auto simp: names_of_def split_beta image_iff)
  then have "keys_of d = names_of BASE_MEMBERS \<union> names_of ms" using assms(4) by (simp add: keys_of_def)
  with assms(1-3,5) show ?thesis by (auto simp: entry_malformed_def list_all_iff list_ex_iff)
qed

lemma starts_u [simp]: "starts (u a) (u b) \<longleftrightarrow> take (length a) b = a"
proof -
  have "take (length a) (u b) = u (take (length a) b)" by (simp add: u_def take_map)
  then show ?thesis by (simp add: starts_def)
qed

lemma not_starts_Nil [simp]: "starts (u a) [] \<longleftrightarrow> a = []"
  by (auto simp: starts_def u_def)

lemmas j_members = j_defs j_entry_def both_ways_def BASE_MEMBERS_def event_members_def EVENT_MEMBERS_def TOOL_CALL_OPTIONAL_def
  detector_basis_def shapes_ok_def edge_ok_def as_edge_def sorted_unique_def str_list_def

lemma j_well_shaped:
  "\<not> entry_malformed [j_a, j_b] j_topology" "\<not> entry_malformed [j_a, j_b] j_cut"
  "\<not> entry_malformed [j_a, j_b] j_restart" "\<not> entry_malformed [j_a, j_b] j_assessment"
  "\<not> entry_malformed [j_a, j_b] j_restoration" "\<not> entry_malformed [j_a, j_b] j_reconnect"
  "\<not> entry_malformed [j_a, j_b] j_delivery" "\<not> entry_malformed [j_a, j_b] j_call"
  unfolding j_defs j_entry_def
  by (rule well_shapedI [OF refl]; simp add: j_members j_shapes insert_commute)+

lemma printable_numbered [simp]: "n < 10 \<Longrightarrow> printable (numbered n)"
  by (simp add: numbered_def printable_def u_def list_all_iff)

lemma printable_literals: "printable ZERO" "printable noon" "printable j_a" "printable j_b"
  by (simp_all add: ZERO_def noon_def j_a_def j_b_def printable_def u_def list_all_iff)

lemma printable_literal: "list_all (\<lambda>c. 32 \<le> (of_char c :: nat) \<and> (of_char c :: nat) \<le> 126) s \<Longrightarrow> printable (u s)"
  by (simp add: printable_def u_def list_all_iff)

lemma j_canonical: "list_all canonical_values j_raws"
  by (simp add: j_raws_def j_defs j_entry_def both_ways_def printable_literals printable_literal)

lemma j_wf: "list_all wf_json j_raws"
  by (simp add: j_raws_def j_defs j_entry_def both_ways_def)

lemma j_closed: "\<not> list_ex entry_open j_raws"
  by (simp add: j_raws_def j_defs j_entry_def both_ways_def entry_open_def WORD_MEMBERS_def closed_words_def CLOSED_def)

section \<open>Entries\<close>

definition j_item :: "nat \<Rightarrow> ustr \<Rightarrow> event \<Rightarrow> json \<Rightarrow> entry" where
  "j_item n prev ev raw = \<lparr>en_seq = int n, en_prev = prev, en_at = noon, en_event = ev, en_raw = raw\<rparr>"

definition j_cut_decision :: decision where
  "j_cut_decision = \<lparr>dc_basis = u ''fixed_schedule'', dc_function = u ''isolation'', dc_edges = [(j_b, j_a)],
     dc_removed = [(j_a, j_b)], dc_added = [], dc_isolated = [j_a], dc_estimates = [], dc_inputs = []\<rparr>"

definition j_back_decision :: decision where
  "j_back_decision = \<lparr>dc_basis = u ''evidence_gate'', dc_function = u ''restoration'',
     dc_edges = [(j_a, j_b), (j_b, j_a)], dc_removed = [], dc_added = [(j_a, j_b)], dc_isolated = [],
     dc_estimates = [], dc_inputs = []\<rparr>"

definition j_readmission :: restoration where
  "j_readmission = \<lparr>rs_agent = j_a, rs_admitted = True, rs_threshold = 5, rs_evidence = [numbered 2, numbered 3]\<rparr>"

definition j_entries :: "entry list" where
  "j_entries =
     [j_item 0 ZERO (Topology [(j_a, j_b), (j_b, j_a)]) j_topology,
      j_item 1 (numbered 0) (Decision j_cut_decision) j_cut,
      j_item 2 (numbered 1) (Restart j_a True True (numbered 0) (numbered 1)) j_restart,
      j_item 3 (numbered 2) (Assessment j_a (Some 2) (u ''scored'') (u ''EXTERNAL'')) j_assessment,
      j_item 4 (numbered 3) (Restoration j_readmission) j_restoration,
      j_item 5 (numbered 4) (Decision j_back_decision) j_reconnect,
      j_item 6 (numbered 5) (Delivery j_a j_b True False) j_delivery,
      j_item 7 (numbered 6) (Tool_Call j_b False None) j_call]"

lemma j_entry_of: "map entry_of j_raws = map Some j_entries"
  by (simp add: j_raws_def j_entries_def j_item_def j_defs j_entry_def both_ways_def entry_of_def event_of_def
      edge_list_def as_edge_def str_list_def int_or_null_def str_or_absent_def j_cut_decision_def
      j_back_decision_def j_readmission_def)

definition j_journal :: journal where
  "j_journal = \<lparr>rn_id = u ''r'', rn_agents = [j_a, j_b], rn_enforcement = u ''enforced'', rn_fields = [],
     rn_claims = [(u ''restorationGated'', JBool True)], rn_snapshot = None, rn_entries = j_entries\<rparr>"

lemma those_map_Some: "those (map Some xs) = Some xs"
  by (induction xs) auto

lemma j_run_of: "run_of (as_dict j_record) = Some j_journal"
  by (simp add: run_of_def j_record_def j_entry_of those_map_Some j_journal_def str_list_def str_or_absent_def)

lemma j_early: "early_failure j_record False = None"
proof -
  have "keys_of (as_dict j_record) = u ` set TOP_MEMBERS"
    by (simp add: j_record_def keys_of_def TOP_MEMBERS_def insert_commute)
  moreover have "\<not> list_ex (entry_malformed [j_a, j_b]) j_raws" using j_well_shaped by (simp add: j_raws_def)
  ultimately have "\<not> record_malformed (as_dict j_record)"
    using j_agents
    by (simp add: record_malformed_def j_record_def TOP_OPTIONAL_def agents_ok_def sorted_unique_def
        str_list_def claims_ok_def CLAIM_KINDS_def Let_def j_raws_def)
  moreover have "\<not> closed_violation (as_dict j_record)"
    using j_closed by (simp add: closed_violation_def j_record_def closed_words_def CLOSED_def)
  ultimately show ?thesis by (simp add: early_failure_def Let_def) (simp add: j_record_def)
qed

section \<open>Digests\<close>

definition j_ctx :: "(bytes \<Rightarrow> bytes) \<Rightarrow> ctx" where
  "j_ctx h = \<lparr>cx_sha256 = h, cx_sha512 = (\<lambda>b. []), cx_repr = (\<lambda>v. []), cx_pins = []\<rparr>"

definition j_bytes :: "json \<Rightarrow> bytes" where
  "j_bytes v = canonical_bytes (j_ctx (\<lambda>b. [])) v"

definition j_hash :: "bytes \<Rightarrow> bytes" where
  "j_hash b = replicate 31 0 @ [length (takeWhile (\<lambda>v. j_bytes v \<noteq> b) j_raws)]"

definition jcx :: ctx where
  "jcx = j_ctx j_hash"

lemma dumps_hash: "dumps (j_ctx h) lay level v = dumps (j_ctx h') lay level v"
proof (induction v arbitrary: level)
  case (JFloat f)
  then show ?case by (cases f) (simp_all add: j_ctx_def)
next
  case (JArr xs)
  then show ?case by (auto intro!: arg_cong [of _ _ "bracketed lay level 91 93"])
next
  case (JObj d)
  then have "map (\<lambda>(k, v). (k, dumps (j_ctx h) lay (Suc level) v)) d = map (\<lambda>(k, v). (k, dumps (j_ctx h') lay (Suc level) v)) d"
    by auto
  then show ?case by (simp only: dumps.simps)
qed simp_all

lemma jcx_bytes: "canonical_bytes jcx v = j_bytes v"
  unfolding canonical_bytes_def jcx_def j_bytes_def by (rule dumps_hash)

lemma seq_norm: "wf_json v \<Longrightarrow> member v ''seq'' = JInt i \<Longrightarrow> member (norm v) ''seq'' = JInt i"
  by (simp add: member_norm)

lemma j_seq: "i < 8 \<Longrightarrow> member (j_raws ! i) ''seq'' = JInt (int i)"
  by (auto simp: j_raws_def j_defs j_entry_def less_Suc_eq numeral_eq_Suc)

lemma j_distinct:
  assumes "i < 8" "j < 8" "j_bytes (j_raws ! i) = j_bytes (j_raws ! j)"
  shows "i = j"
proof -
  have len: "length j_raws = 8" by (simp add: j_raws_def)
  have "norm (j_raws ! i) = norm (j_raws ! j)"
    by (rule canonical_bytes_inj [where cx = jcx])
       (use assms j_canonical j_wf len in \<open>auto simp: list_all_length jcx_bytes\<close>)
  moreover have "member (norm (j_raws ! k)) ''seq'' = JInt (int k)" if "k < 8" for k
    by (rule seq_norm) (use that j_wf len j_seq in \<open>auto simp: list_all_length\<close>)
  ultimately show ?thesis using assms(1,2) by (metis json.inject(2) of_nat_eq_iff)
qed

lemma j_hash_nth:
  assumes "i < 8"
  shows "j_hash (j_bytes (j_raws ! i)) = replicate 31 0 @ [i]"
proof -
  have len: "length j_raws = 8" by (simp add: j_raws_def)
  have "takeWhile (\<lambda>v. j_bytes v \<noteq> j_bytes (j_raws ! i)) j_raws = take i j_raws"
  proof (rule takeWhile_eq_take_P_nth)
    fix k assume "k < i"
    with j_distinct [of k i] assms show "j_bytes (j_raws ! k) \<noteq> j_bytes (j_raws ! i)" by auto
  qed simp
  with assms len show ?thesis by (simp add: j_hash_def)
qed

lemma hex_of_append: "hex_of (a @ b) = hex_of a @ hex_of b"
  by (induction a) auto

lemma hex_of_zero_bytes: "hex_of (replicate n 0) = replicate (2 * n) 48"
  by (induction n) (auto simp: hex_digit_def)

lemma j_digest:
  assumes "i < 8"
  shows "entry_digest jcx (j_raws ! i) = numbered i"
proof -
  have "hex_of [i] = [48, 48 + i]" using assms by (simp add: hex_digit_def)
  then have "hex_of (replicate 31 0 @ [i]) = replicate 62 48 @ [48, 48 + i]"
    by (simp only: hex_of_append hex_of_zero_bytes) simp
  moreover have "cx_sha256 jcx = j_hash" by (simp add: jcx_def j_ctx_def)
  ultimately show ?thesis
    by (simp only: entry_digest_def sha256_hex_def jcx_bytes j_hash_nth [OF assms] numbered_def)
qed

lemma j_digests:
  "entry_digest jcx j_topology = numbered 0" "entry_digest jcx j_cut = numbered 1"
  "entry_digest jcx j_restart = numbered 2" "entry_digest jcx j_assessment = numbered 3"
  "entry_digest jcx j_restoration = numbered 4" "entry_digest jcx j_reconnect = numbered 5"
  "entry_digest jcx j_delivery = numbered 6" "entry_digest jcx j_call = numbered 7"
  using j_digest [of 0] j_digest [of 1] j_digest [of 2] j_digest [of 3] j_digest [of 4] j_digest [of 5]
    j_digest [of 6] j_digest [of 7]
  by (simp_all add: j_raws_def)

lemma numbered_inject [simp]: "numbered i = numbered j \<longleftrightarrow> i = j"
  by (simp add: numbered_def)

section \<open>The judgement\<close>

lemma j_chain: "chain_failure jcx j_entries = None"
  by (simp add: chain_failure_def chain_broken_def j_entries_def j_item_def j_digests)

lemma j_by_digest: "by_digest jcx j_journal (numbered 2) = Some 2" "by_digest jcx j_journal (numbered 3) = Some 3"
  by (simp_all add: by_digest_def j_journal_def j_entries_def j_item_def j_digests)

lemma j_nth:
  "rn_entries j_journal ! 2 = j_item 2 (numbered 1) (Restart j_a True True (numbered 0) (numbered 1)) j_restart"
  "rn_entries j_journal ! 3 = j_item 3 (numbered 2) (Assessment j_a (Some 2) (u ''scored'') (u ''EXTERNAL'')) j_assessment"
  by (simp_all add: j_journal_def j_entries_def)

definition j_start :: walk where
  "j_start = \<lparr>wk_graph = [(j_a, j_b), (j_b, j_a)], wk_isolated = [], wk_admitted = []\<rparr>"

definition j_isolated :: walk where
  "j_isolated = \<lparr>wk_graph = [(j_b, j_a)], wk_isolated = [(j_a, 1)], wk_admitted = []\<rparr>"

definition j_ready :: walk where
  "j_ready = \<lparr>wk_graph = [(j_b, j_a)], wk_isolated = [(j_a, 1)], wk_admitted = [(j_a, 4)]\<rparr>"

definition j_back :: walk where
  "j_back = \<lparr>wk_graph = [(j_a, j_b), (j_b, j_a)], wk_isolated = [], wk_admitted = [(j_a, 4)]\<rparr>"

lemmas j_rn = j_journal_def enforced_def claims_def

lemma j_step_1: "walk_decision j_journal 1 j_cut_decision j_start = Inr j_isolated"
  using j_agents
  by (simp add: walk_decision_def Let_def refuse_def j_cut_decision_def j_start_def j_isolated_def isolated_def
      minus_edges_def listed_def replace_def since_def j_journal_def)

lemma j_step_4: "walk_restoration jcx j_journal 4 j_readmission j_isolated = Inr j_ready"
  by (simp add: walk_restoration_def j_readmission_def cited_entry_def j_by_digest j_nth j_item_def refuse_def
      j_isolated_def j_ready_def)

lemma j_step_5: "walk_decision j_journal 5 j_back_decision j_ready = Inr j_back"
  using j_agents
  by (simp add: walk_decision_def Let_def refuse_def j_back_decision_def j_ready_def j_back_def isolated_def
      minus_edges_def listed_def replace_def since_def unreturned_def j_journal_def)

lemma j_walk: "walk_run jcx j_journal = Inr j_back"
proof -
  have s: "init_walk j_journal = j_start"
    using j_agents by (simp add: init_walk_def j_journal_def j_entries_def j_item_def j_start_def isolated_def)
  have r: "walk_restart True True (numbered 0) (numbered (Suc 0)) w = Inr w"
    and a: "walk_assessment (Some 2) (u ''scored'') w = Inr w" for w
    by (simp_all add: walk_restart_def walk_assessment_def refuse_def)
  have d: "walk_delivery j_journal j_a j_b True False j_back = Inr j_back"
    and c: "walk_tool_call j_b False j_back = Inr j_back"
    by (simp_all add: walk_delivery_def walk_tool_call_def refuse_def j_back_def)
  have steps: "walk_decision j_journal (Suc 0) j_cut_decision j_start = Inr j_isolated"
    "walk_restoration jcx j_journal (Suc (Suc (Suc (Suc 0)))) j_readmission j_isolated = Inr j_ready"
    "walk_decision j_journal (Suc (Suc (Suc (Suc (Suc 0))))) j_back_decision j_ready = Inr j_back"
    using j_step_1 j_step_4 j_step_5 by (simp_all add: eval_nat_numeral)
  have "rn_entries j_journal = j_entries" by (simp add: j_journal_def)
  then show ?thesis
    by (simp add: walk_run_def j_entries_def j_item_def s r a d c steps)
qed

lemma j_judged: "judge_journal jcx j_record False = Inr None"
proof -
  have "claims_failure j_journal = None" by (simp add: claims_failure_def claims_def j_journal_def)
  moreover have "rn_entries j_journal = j_entries" by (simp add: j_journal_def)
  ultimately show ?thesis
    by (simp add: judge_journal_def j_early j_run_of j_chain walk_failure_def j_walk)
qed

lemma j_allowed: "allowed jcx j_record j_journal"
  by (simp add: allowed_def j_judged j_run_of)

end
