(* ===== verification/ContainmentProperties.thy ===== *)
theory ContainmentProperties
  imports ToyJournal
begin

text \<open>
  What the reader of containment journals guarantees, with the toy journal as witness: it answers every
  record, an allowed journal is a run of the containment machine, and its digests, receipts and inclusion
  paths bind what they state.
\<close>

section \<open>The toy journal's history\<close>

lemma j_graphs:
  "graph_at j_entries 1 = {(j_a, j_b), (j_b, j_a)}" "graph_at j_entries 2 = {(j_b, j_a)}"
  "graph_at j_entries 6 = {(j_a, j_b), (j_b, j_a)}" "graph_at j_entries 7 = {(j_a, j_b), (j_b, j_a)}"
  by (simp_all add: graph_at_def j_entries_def j_item_def j_cut_decision_def j_back_decision_def)

lemma j_channels: "has_channel j_entries 1 j_a" "\<not> has_channel j_entries 2 j_a" "has_channel j_entries 6 j_a"
  using j_agents by (simp_all only: has_channel_def j_graphs image_insert image_empty fst_conv insert_iff empty_iff) simp_all

lemma j_isolated_from: "isolated_from j_entries j_a 1 2"
proof -
  have "m = 2" if "1 < m \<and> m \<le> 2" for m :: nat using that by linarith
  then have "\<not> has_channel j_entries m j_a" if "1 < m \<and> m \<le> 2" for m using that j_channels(2) by metis
  then show ?thesis unfolding isolated_from_def by (intro conjI allI impI) (simp_all only: j_channels(1), simp_all)
qed

lemma j_journal_entries: "rn_entries j_journal = j_entries" "length j_entries = 8"
  by (simp_all add: j_journal_def j_entries_def)

lemma j_gated: "claims j_journal ''restorationGated''" "enforced j_journal" "set (rn_agents j_journal) = {j_a, j_b}"
  by (simp_all add: claims_def enforced_def j_journal_def)

lemma lt_8: "i < 8 \<Longrightarrow> i \<in> {0, 1, 2, 3, 4, 5, 6, 7 :: nat}"
  by auto

lemma j_no_fallback: "i < 8 \<Longrightarrow> \<not> falls_back (j_entries ! i)"
  by (drule lt_8) (auto simp: falls_back_def j_entries_def j_item_def)

section \<open>The judgement of a journal\<close>

text \<open>C23. The reader of containment journals answers every record: no exception leaves it, and a journal is
  either allowed or denied with one of the declared reasons.\<close>

theorem journal_reader_answers:
  "judge_journal cx record not_canonical \<in> Inr ` insert None (Some ` set CHECKS)"
  using judged [of cx "record" not_canonical] by (metis image_eqI insertCI not_None_eq)

text \<open>C17. An allowed journal is a run of the containment machine: its histories are states of the machine, and
  every entry is a step that the machine allows in the history before it.\<close>

theorem allowed_journal_is_contained_run:
  assumes "allowed cx record rn"
  shows "contain_run (policy_of rn) (history rn 1)
    (map (\<lambda>k. action_of (en_event (rn_entries rn ! k))) [1..<length (rn_entries rn)])
    (history rn (length (rn_entries rn)))"
proof -
  have "1 \<le> length (rn_entries rn)" using allowed_walked(1) [OF assms] by (auto simp: walked_def)
  with history_run [OF allowed_walked(1) [OF assms] allowed_words [OF assms]] show ?thesis by simp
qed

theorem allowed_journal_is_contained_run_witness:
  "\<exists>acts. length acts = 7 \<and> contain_run (policy_of j_journal) (history j_journal 1) acts (history j_journal 8)"
proof -
  have "contain_run (policy_of j_journal) (history j_journal 1)
      (map (\<lambda>k. action_of (en_event (rn_entries j_journal ! k))) [1..<8]) (history j_journal 8)"
    using allowed_journal_is_contained_run [OF j_allowed] by (simp only: j_journal_entries)
  moreover have "length (map (\<lambda>k. action_of (en_event (rn_entries j_journal ! k))) [1..<8]) = 7" by simp
  ultimately show ?thesis by blast
qed

text \<open>In an allowed journal of an enforced run every delivery that was not dropped crossed an edge of the
  graph in force, and no delivery over such an edge was dropped; every tool call that was not refused is by
  an agent with an outgoing edge.\<close>

theorem allowed_journal_keeps_to_the_graph:
  assumes "allowed cx record rn" and "enforced rn" and "i < length (rn_entries rn)"
  shows "(\<forall>s r in_force dropped. en_event (rn_entries rn ! i) = Delivery s r in_force dropped \<longrightarrow>
      ((s, r) \<in> graph_at (rn_entries rn) i \<longleftrightarrow> \<not> dropped)) \<and>
    (\<forall>a chain. en_event (rn_entries rn ! i) = Tool_Call a False chain \<longrightarrow> has_channel (rn_entries rn) i a)"
  using delivery_in_force [OF allowed_walked(1) [OF assms(1)] assms(3)] assms(2)
    call_has_channel [OF allowed_walked(1) [OF assms(1)] assms(3)] by blast

theorem allowed_journal_keeps_to_the_graph_witness: "(j_a, j_b) \<in> graph_at j_entries 6 \<and> has_channel j_entries 7 j_b"
proof -
  have "en_event (j_entries ! 6) = Delivery j_a j_b True False" "en_event (j_entries ! 7) = Tool_Call j_b False None"
    by (simp_all add: j_entries_def j_item_def)
  then show ?thesis
    using allowed_journal_keeps_to_the_graph [OF j_allowed j_gated(2), of 6]
      allowed_journal_keeps_to_the_graph [OF j_allowed j_gated(2), of 7] unfolding j_journal_entries by simp blast
qed

text \<open>C18. An agent an entry isolated comes back, in an allowed journal that claims gated restoration, only by a
  fallback or after an admitted restoration of it that rests on an earlier restart of the agent with its memory
  cleared and on an earlier score below the threshold that was not its own.\<close>

theorem isolated_agent_returns_on_evidence:
  assumes "allowed cx record rn" and "claims rn ''restorationGated''" and "a \<in> set (rn_agents rn)"
    and "isolated_from (rn_entries rn) a k (Suc k)" and "k < j" and "j \<le> length (rn_entries rn)"
    and "has_channel (rn_entries rn) j a" and "\<And>i. k < i \<Longrightarrow> i < j \<Longrightarrow> \<not> falls_back (rn_entries rn ! i)"
  shows "\<exists>m. k < m \<and> m < j \<and> evidenced (rn_entries rn) m a"
proof (rule return_is_evidenced [OF allowed_walked(1) [OF assms(1)] assms(6,3,4,7,5,8) _ assms(2)])
  fix i d assume "i < j" "en_event (rn_entries rn ! i) = Decision d"
  then show "dc_function d \<in> {u ''restriction'', u ''isolation'', u ''restoration''}"
    using assms(6) by (intro allowed_words [OF assms(1)]) simp_all
qed

theorem isolated_agent_returns_on_evidence_witness: "\<exists>m. 1 < m \<and> m < 6 \<and> evidenced j_entries m j_a"
  using isolated_agent_returns_on_evidence [OF j_allowed j_gated(1), of j_a 1 6] j_isolated_from j_channels(3)
    j_no_fallback by (simp add: j_gated(3) j_journal_entries numeral_2_eq_2)

text \<open>C19. While an isolated agent of a gated journal has no permit, from entry \<open>i\<close> on and up to entry \<open>j\<close>, and no
  entry between falls back or readmits it, it stays isolated, makes no tool call, and, where edges are enforced,
  no message of its own arrives.\<close>

theorem confined_agent_is_silent:
  assumes "allowed cx record rn" and "claims rn ''restorationGated''" and "0 < i" "i \<le> j" "j \<le> length (rn_entries rn)"
    and "stays_confined (policy_of rn) a (history rn i)"
    and "\<not> list_ex (\<lambda>k. releases a (action_of (en_event (rn_entries rn ! k)))) [i..<j]"
  shows "stays_confined (policy_of rn) a (history rn j) \<and>
    \<not> list_ex (\<lambda>k. of_agent (policy_of rn) a (action_of (en_event (rn_entries rn ! k)))) [i..<j]"
proof -
  have "contain_run (policy_of rn) (history rn i) (map (\<lambda>k. action_of (en_event (rn_entries rn ! k))) [i..<j]) (history rn j)"
    by (rule history_run [OF allowed_walked(1) [OF assms(1)] allowed_words [OF assms(1)] assms(4,3,5)])
  from run_confined [OF this _ assms(6)] assms(2,7) show ?thesis by (simp add: policy_of_def list_ex_iff)
qed

theorem confined_agent_is_silent_witness: "stays_confined (policy_of j_journal) j_a (history j_journal 4)"
proof -
  have "\<not> readmits (j_entries ! m) b" if "m < 2" for m b
    using that by (auto simp: readmits_def j_entries_def j_item_def less_Suc_eq numeral_2_eq_2)
  then have "j_a \<notin> permitted_before (rn_agents j_journal) j_entries 2" by (auto simp: permitted_before_def)
  then have "stays_confined (policy_of j_journal) j_a (history j_journal 2)"
    using j_gated(3) j_channels(2)
    by (simp add: stays_confined_def history_def confined_def policy_of_def j_journal_entries has_channel_def)
  moreover have "\<not> list_ex (\<lambda>k. releases j_a (action_of (en_event (rn_entries j_journal ! k)))) [2..<4]"
    by (simp add: j_journal_entries j_entries_def j_item_def upt_rec)
  ultimately show ?thesis
    using confined_agent_is_silent [OF j_allowed j_gated(1), of 2 4 j_a] by (simp add: j_journal_entries)
qed

end
