(* ===== verification/JournalBindings.thy ===== *)
theory JournalBindings
  imports ContainmentProperties
begin

text \<open>
  What the judgements over a containment journal bind: the statement of an allowed receipt, the head of
  the chain, the document at the end of an inclusion path, and the form the digests are taken over.
\<close>

section \<open>Allowed receipts\<close>

lemma py_eq_member:
  assumes "py_eq v (JObj e)" and "map_of e (u k) = Some w" and "distinct (map fst (as_dict v))" and "distinct (map fst e)"
  shows "py_eq (member v k) w"
proof -
  from assms(1) obtain d where v: "v = JObj d" and len: "length d = length e"
    and all: "\<And>k x. (k, x) \<in> set d \<Longrightarrow> \<exists>y. map_of e k = Some y \<and> py_eq x y"
    by (cases v) (fastforce simp: list_all_iff split: option.splits)+
  have "fst ` set d \<subseteq> fst ` set e" using all by (force dest: map_of_SomeD)
  moreover have "card (fst ` set d) = card (fst ` set e)"
    using assms(3,4) v len distinct_card [of "map fst d"] distinct_card [of "map fst e"] by simp
  ultimately have "fst ` set d = fst ` set e" by (simp add: card_subset_eq)
  moreover have "u k \<in> fst ` set e" using assms(2) by (force dest: map_of_SomeD)
  ultimately obtain x where x: "(u k, x) \<in> set d" by force
  then have "dget d (u k) = x" using assms(3) v by (simp add: dget_def)
  with all [OF x] assms(2) v show ?thesis by simp
qed

lemma py_eq_strings: "py_eq v (JArr (map JStr ys)) \<Longrightarrow> v = JArr (map JStr ys)"
proof -
  assume "py_eq v (JArr (map JStr ys))"
  then obtain xs where v: "v = JArr xs" and "length xs = length ys" "list_all (\<lambda>(a, b). py_eq a b) (zip xs (map JStr ys))"
    by (cases v) auto
  then have "xs = map JStr ys" by (auto simp: list_all_length intro: nth_equalityI)
  with v show ?thesis by simp
qed

lemma is_integer_int: "is_integer lo hi v \<Longrightarrow> \<exists>i. v = JInt i \<and> lo \<le> i"
  by (cases v) auto

lemma dget_as_dict: "dget (as_dict v) (u k) = member v k"
  by (cases v) simp_all

lemma wf_member: "wf_json v \<Longrightarrow> wf_json (member v k)"
  by (cases v) (auto simp: dget_def list_all_iff split: option.splits dest: map_of_SomeD)

lemma receipt_parts:
  assumes "judge_receipt cx receipt bad rn = None"
  shows "is_dict receipt" and "\<not> receipt_malformed (as_dict receipt) rn"
    and "py_eq (member receipt ''journal'') (journal_head cx rn)"
    and "py_eq (member receipt ''reached'') (reach_json (rn_entries rn) (as_str (member receipt ''subject'')) (nat (as_int (member receipt ''fromSeq''))))"
  using assms by (simp_all add: judge_receipt_def Let_def dget_as_dict split: if_splits)

lemma receipt_shape:
  assumes "\<not> receipt_malformed (as_dict receipt) rn"
  shows "as_int (member receipt ''fromSeq'') < int (length (rn_entries rn)) \<and> 0 \<le> as_int (member receipt ''fromSeq'')"
    and "is_integer 0 None (member (member receipt ''reached'') ''deliveries'')"
    and "is_integer 0 None (member (member receipt ''reached'') ''toolCalls'')"
    and "is_integer 0 None (member (member receipt ''journal'') ''entries'')"
proof -
  have s: "is_integer 0 None (member receipt ''fromSeq'') \<and> as_int (member receipt ''fromSeq'') < int (length (rn_entries rn)) \<and>
      is_integer 0 None (member (member receipt ''reached'') ''deliveries'') \<and> is_integer 0 None (member (member receipt ''reached'') ''toolCalls'') \<and>
      is_integer 0 None (member (member receipt ''journal'') ''entries'')"
    using assms by (simp add: receipt_malformed_def Let_def dget_as_dict not_le)
  then show "is_integer 0 None (member (member receipt ''reached'') ''deliveries'')" "is_integer 0 None (member (member receipt ''reached'') ''toolCalls'')"
    "is_integer 0 None (member (member receipt ''journal'') ''entries'')" by simp_all
  from s is_integer_int [of 0 None "member receipt ''fromSeq''"]
  show "as_int (member receipt ''fromSeq'') < int (length (rn_entries rn)) \<and> 0 \<le> as_int (member receipt ''fromSeq'')"
    by auto
qed

text \<open>C20. An allowed receipt states the reach exactly: the agents to which deliveries that were not dropped
  lead from the subject, in the order of the journal and from the stated entry on, the number of those
  deliveries and of the tool calls by reached agents; and it names the journal's last digest and length.\<close>

theorem receipt_states_the_reach:
  assumes "judge_receipt cx receipt bad rn = None" and "wf_json receipt"
  shows "let es = rn_entries rn; s = as_str (member receipt ''subject''); f = nat (as_int (member receipt ''fromSeq''));
      reached = member receipt ''reached''; head = member receipt ''journal''
    in as_list (member reached ''agents'') = map JStr (sorted_list_of_set (reached_by es s f (length es) - {s})) \<and>
      member reached ''deliveries'' = JInt (int (card (counted_deliveries es s f (length es)))) \<and>
      member reached ''toolCalls'' = JInt (int (card (counted_calls es s f (length es)))) \<and>
      member head ''head'' = JStr (entry_digest cx (en_raw (last es))) \<and>
      member head ''entries'' = JInt (int (length es))"
proof -
  let ?es = "rn_entries rn" and ?s = "as_str (member receipt ''subject'')" and ?f = "nat (as_int (member receipt ''fromSeq''))"
  let ?x = "reach_of ?es ?s ?f"
  note parts = receipt_parts [OF assms(1)] and shape = receipt_shape [OF receipt_parts(2) [OF assms(1)]]
  have f: "?f \<le> length ?es" using shape(1) by linarith
  have ok: "reach_ok ?es ?s ?f (length ?es) ?x" by (rule reach_of_ok [OF f])
  have d: "distinct (map fst (as_dict (member receipt k)))" for k
    using wf_member [OF assms(2), of k] by (cases "member receipt k") auto
  note m = py_eq_member [OF parts(4) [unfolded reach_json_def] _ d] py_eq_member [OF parts(3) [unfolded journal_head_def] _ d]
  have agents: "member (member receipt ''reached'') ''agents'' = JArr (map JStr (reached_agents ?es ?s ?f))"
    by (rule py_eq_strings, rule m(1)) simp_all
  have "distinct (reached_agents ?es ?s ?f)" "sorted (reached_agents ?es ?s ?f)"
    using ok by (simp_all add: reached_agents_def reach_ok_def)
  then have "reached_agents ?es ?s ?f = sorted_list_of_set (reached_by ?es ?s ?f (length ?es) - {?s})"
    by (metis reached_agents_set [OF f] sorted_list_of_set.idem_if_sorted_distinct)
  moreover have "py_eq (member (member receipt ''reached'') ''deliveries'') (JInt (int (rc_deliveries ?x)))"
    "py_eq (member (member receipt ''reached'') ''toolCalls'') (JInt (int (rc_tools ?x)))"
    "py_eq (member (member receipt ''journal'') ''entries'') (JInt (int (length ?es)))"
    "py_eq (member (member receipt ''journal'') ''head'') (JStr (entry_digest cx (en_raw (last ?es))))"
    by (rule m; simp)+
  ultimately show ?thesis
    using agents ok shape(2-4) [THEN is_integer_int] by (auto simp: Let_def reach_ok_def)
qed

definition j_receipt :: json where
  "j_receipt =
     JObj [(u ''contractId'', JStr RECEIPT_CONTRACT_ID),
       (u ''journal'', JObj [(u ''runId'', js ''r''), (u ''head'', JStr (numbered 7)), (u ''entries'', JInt 8)]),
       (u ''subject'', JStr j_a), (u ''fromSeq'', JInt 1),
       (u ''reached'', JObj [(u ''agents'', JArr [JStr j_b]), (u ''deliveries'', JInt 1), (u ''toolCalls'', JInt 1)])]"

lemma j_reach: "reach_of j_entries j_a 1 = \<lparr>rc_tainted = [j_b, j_a], rc_deliveries = 1, rc_tools = 1\<rparr>"
  using j_agents by (simp add: reach_of_def j_entries_def j_item_def drop_Suc List.insert_def)

lemma j_found: "reach_json j_entries j_a 1 =
    JObj [(u ''agents'', JArr [JStr j_b]), (u ''deliveries'', JInt 1), (u ''toolCalls'', JInt 1)]"
  using j_agents unfolding reach_json_def reached_agents_def j_reach by simp

lemma j_head: "journal_head jcx j_journal =
    JObj [(u ''runId'', js ''r''), (u ''head'', JStr (numbered 7)), (u ''entries'', JInt 8)]"
  by (simp add: journal_head_def j_journal_def j_entries_def j_item_def j_digests)

lemma j_receipt_shape: "\<not> receipt_malformed (as_dict j_receipt) j_journal"
  using j_agents numbered_digest [of 7]
  by (simp add: receipt_malformed_def j_receipt_def Let_def keys_of_def insert_commute j_journal_entries
      sorted_unique_def str_list_def) (simp add: j_journal_def)

lemma j_receipt_wf: "wf_json j_receipt"
  by (simp add: j_receipt_def)

lemma j_receipt_allowed: "judge_receipt jcx j_receipt False j_journal = None"
proof -
  have s: "as_str (dget (as_dict j_receipt) (u ''subject'')) = j_a" "as_int (dget (as_dict j_receipt) (u ''fromSeq'')) = 1"
    and r: "dget (as_dict j_receipt) (u ''reached'') = reach_json j_entries j_a 1"
    and h: "dget (as_dict j_receipt) (u ''journal'') = journal_head jcx j_journal"
    unfolding j_found j_head by (simp_all add: j_receipt_def)
  have "py_eq (journal_head jcx j_journal) (journal_head jcx j_journal)"
    "py_eq (reach_json j_entries j_a 1) (reach_json j_entries j_a 1)"
    "\<not> understated (reach_json j_entries j_a 1) (reach_json j_entries j_a 1)"
    by (simp_all only: j_head j_found) (simp_all add: understated_def)
  moreover have "is_dict j_receipt" "has_key (as_dict j_receipt) (u ''contractId'')"
    "dget (as_dict j_receipt) (u ''contractId'') = JStr RECEIPT_CONTRACT_ID"
    by (simp_all add: j_receipt_def)
  ultimately show ?thesis
    using j_receipt_shape by (simp add: judge_receipt_def Let_def s r h j_journal_entries)
qed

theorem receipt_states_the_reach_witness:
  "sorted_list_of_set (reached_by j_entries j_a 1 8 - {j_a}) = [j_b] \<and> card (counted_calls j_entries j_a 1 8) = 1"
  using receipt_states_the_reach [OF j_receipt_allowed j_receipt_wf]
  by (simp add: j_journal_entries) (simp add: j_receipt_def Cons_eq_map_conv)

text \<open>C21. Where edges are enforced, nothing leaves a group of agents while no graph in force connects the group to
  the rest: the agents reached from a subject in the group stay in it.\<close>

theorem contained_subject_stays_inside:
  assumes "allowed cx record rn" and "enforced rn" and "s \<in> grp"
    and "\<And>i b c. f \<le> i \<Longrightarrow> i < n \<Longrightarrow> (b, c) \<in> graph_at (rn_entries rn) i \<Longrightarrow> b \<in> grp \<Longrightarrow> c \<in> grp"
  shows "reached_by (rn_entries rn) s f n \<subseteq> grp"
  by (rule reach_stays_inside [OF allowed_walked(1) [OF assms(1)] assms(2,3,4)])

lemma j_cut_graph: "2 \<le> i \<Longrightarrow> i < 6 \<Longrightarrow> graph_at j_entries i = {(j_b, j_a)}"
proof -
  assume "2 \<le> i" "i < 6"
  then have "i = 2 \<or> i = 3 \<or> i = 4 \<or> i = 5" by linarith
  then show ?thesis
    by (elim disjE) (simp_all add: graph_at_def j_entries_def j_item_def j_cut_decision_def)
qed

theorem contained_subject_stays_inside_witness: "reached_by j_entries j_a 2 6 \<subseteq> {j_a}"
  using contained_subject_stays_inside [OF j_allowed j_gated(2), of j_a "{j_a}" 2 6] j_agents
  by (simp add: j_journal_entries j_cut_graph)

section \<open>The head of the chain\<close>

lemma allowed_loaded:
  assumes "allowed cx record rn" and "wf_json record" and "canonical_values record"
  shows "list_all loaded_entry (rn_entries rn)"
proof -
  from assms(1) have r: "run_of (as_dict record) = Some rn" by (simp add: allowed_def)
  have "loaded_entry (rn_entries rn ! i)" if "i < length (rn_entries rn)" for i
  proof -
    let ?v = "as_list (member record ''entries'') ! i"
    from run_entry [OF r that] have i: "i < length (as_list (member record ''entries''))"
      and e: "entry_of ?v = Some (rn_entries rn ! i)" by (simp_all add: dget_as_dict)
    have "wf_json (member record ''entries'')" by (rule wf_member [OF assms(2)])
    moreover have "canonical_values (member record ''entries'')"
      using assms(3) by (cases "record") (auto simp: dget_def list_all_iff split: option.splits dest: map_of_SomeD)
    moreover have "?v \<in> set (as_list (member record ''entries''))" using i by simp
    ultimately have "wf_json ?v" "canonical_values ?v"
      by (cases "member record ''entries''"; auto simp: list_all_iff)+
    with e show ?thesis by (simp add: loaded_entry_def entry_of_Some)
  qed
  then show ?thesis by (simp add: list_all_length)
qed

lemma receipt_head:
  assumes "judge_receipt cx receipt bad rn = None" and "wf_json receipt"
  shows "member (member receipt ''journal'') ''head'' = JStr (entry_digest cx (en_raw (last (rn_entries rn))))"
    and "member (member receipt ''journal'') ''entries'' = JInt (int (length (rn_entries rn)))"
proof -
  have d: "distinct (map fst (as_dict (member receipt k)))" for k
    using wf_member [OF assms(2), of k] by (cases "member receipt k") auto
  note m = py_eq_member [OF receipt_parts(3) [OF assms(1), unfolded journal_head_def] _ d]
  have "py_eq (member (member receipt ''journal'') ''entries'') (JInt (int (length (rn_entries rn))))"
    "py_eq (member (member receipt ''journal'') ''head'') (JStr (entry_digest cx (en_raw (last (rn_entries rn)))))"
    by (rule m; simp)+
  then show "member (member receipt ''journal'') ''head'' = JStr (entry_digest cx (en_raw (last (rn_entries rn))))"
    "member (member receipt ''journal'') ''entries'' = JInt (int (length (rn_entries rn)))"
    using receipt_shape(4) [OF receipt_parts(2) [OF assms(1)], THEN is_integer_int] by auto
qed

text \<open>C22. A receipt binds its journal: two allowed journals beside which one receipt is allowed have the same entries, up
  to the order of members, unless the hash collides on the canonical bytes of their entries.\<close>

theorem receipt_binds_the_journal:
  assumes "allowed cx record rn" "wf_json record" "canonical_values record"
    and "allowed cx record' rn'" "wf_json record'" "canonical_values record'"
    and "judge_receipt cx receipt bad rn = None" "judge_receipt cx receipt bad' rn' = None" "wf_json receipt"
    and "\<And>b. is_bytes (cx_sha256 cx b)"
    and "inj_on (cx_sha256 cx) ((\<lambda>e. canonical_bytes cx (en_raw e)) ` (set (rn_entries rn) \<union> set (rn_entries rn')))"
  shows "map (\<lambda>e. norm (en_raw e)) (rn_entries rn) = map (\<lambda>e. norm (en_raw e)) (rn_entries rn')"
proof (rule head_determines [OF assms(10,11)])
  show "length (rn_entries rn') = length (rn_entries rn)"
    using receipt_head(2) [OF assms(7,9)] receipt_head(2) [OF assms(8,9)] by simp
  show "entry_digest cx (en_raw (last (rn_entries rn))) = entry_digest cx (en_raw (last (rn_entries rn')))"
    using receipt_head(1) [OF assms(7,9)] receipt_head(1) [OF assms(8,9)] by simp
  show "rn_entries rn \<noteq> []" using allowed_walked(1) [OF assms(1)] by (auto simp: walked_def)
qed (use allowed_walked(2) assms(1,4) allowed_loaded [OF assms(1-3)] allowed_loaded [OF assms(4-6)] in auto)

lemma jcx_bytes_out: "is_bytes (cx_sha256 jcx b)" "length (cx_sha256 jcx b) = 32"
proof -
  have "length (takeWhile (\<lambda>v. j_bytes v \<noteq> b) j_raws) \<le> length j_raws" by (rule length_takeWhile_le)
  then have "length (takeWhile (\<lambda>v. j_bytes v \<noteq> b) j_raws) < 256" by (simp add: j_raws_def)
  then show "is_bytes (cx_sha256 jcx b)" "length (cx_sha256 jcx b) = 32"
    by (simp_all add: jcx_def j_ctx_def j_hash_def is_bytes_def list_all_iff)
qed

lemma j_entry_raw: "map en_raw j_entries = j_raws"
  by (simp add: j_entries_def j_raws_def j_item_def)

lemma jcx_inj: "inj_on (cx_sha256 jcx) ((\<lambda>e. canonical_bytes jcx (en_raw e)) ` set j_entries)"
proof -
  have "(\<lambda>e. canonical_bytes jcx (en_raw e)) ` set j_entries = j_bytes ` set j_raws"
    by (simp add: jcx_bytes image_image flip: j_entry_raw)
  moreover have "set j_raws = (!) j_raws ` {..<8}" by (auto simp: j_raws_def set_conv_nth)
  moreover have "cx_sha256 jcx (j_bytes (j_raws ! i)) = replicate 31 0 @ [i]" if "i < 8" for i
    using j_hash_nth [OF that] by (simp add: jcx_def j_ctx_def)
  ultimately show ?thesis by (auto simp: inj_on_def)
qed

lemma printable_append: "printable (s @ t) \<longleftrightarrow> printable s \<and> printable t"
  by (simp add: printable_def)

lemma j_record_loaded: "wf_json j_record" "canonical_values j_record"
  using j_wf j_canonical
  by (simp_all add: j_record_def printable_append printable_literal CONTRACT_ID_def BASE_def printable_literals)

theorem receipt_binds_the_journal_witness:
  "map (\<lambda>e. norm (en_raw e)) (rn_entries j_journal) = map (\<lambda>e. norm (en_raw e)) (rn_entries j_journal) \<and> wf_json j_record"
  using receipt_binds_the_journal [OF j_allowed j_record_loaded j_allowed j_record_loaded j_receipt_allowed
    j_receipt_allowed j_receipt_wf jcx_bytes_out(1)] jcx_inj j_record_loaded(1) by (simp add: j_journal_entries)

section \<open>Inclusion paths\<close>

text \<open>An inclusion path admits one document: where the path of a document leads to the run's snapshot, an admitted
  retrieval of another document by the same path is refused, unless the hash collides on the path.\<close>

theorem inclusion_path_admits_one_document:
  assumes "rn_snapshot rn = Some (inclusion_root cx d steps)" and "digest_match d" "digest_match e" "d \<noteq> e"
    and "\<And>b. length (cx_sha256 cx b) = n" "\<And>b. is_bytes (cx_sha256 cx b)"
    and "inj_on (cx_sha256 cx) ({0 # from_hex (drop 7 d), 0 # from_hex (drop 7 e)} \<union>
      set (path_inputs cx (merkle_leaf cx d) steps) \<union> set (path_inputs cx (merkle_leaf cx e) steps))"
  shows "walk_retrieval cx rn d True steps w = Inr w \<and>
    walk_retrieval cx rn e True steps w = Inl (Refusal ''retrieval_admitted_outside_snapshot'')"
proof -
  have "inclusion_root cx d steps \<noteq> inclusion_root cx e steps"
    using inclusion_inj [OF assms(5,6,7,2,3), of steps] assms(4) by blast
  then show ?thesis by (simp add: walk_retrieval_def refuse_def assms(1))
qed

fun cut_hash :: "bytes \<Rightarrow> bytes" where
  "cut_hash (a # b # s) = [(a + 2 * b) mod 256]" | "cut_hash _ = [0]"

theorem inclusion_path_admits_one_document_witness:
  "walk_retrieval (j_ctx cut_hash) (j_journal\<lparr>rn_snapshot := Some (inclusion_root (j_ctx cut_hash) (u ''sha256:01'' @ replicate 62 48) [(u ''right'', ZERO)])\<rparr>)
    (u ''sha256:02'' @ replicate 62 48) True [(u ''right'', ZERO)] j_start = Inl (Refusal ''retrieval_admitted_outside_snapshot'')"
proof -
  let ?cx = "j_ctx cut_hash" and ?d = "u ''sha256:01'' @ replicate 62 48" and ?e = "u ''sha256:02'' @ replicate 62 48"
  have d: "from_hex (drop 7 ?d) = 1 # replicate 31 0" "from_hex (drop 7 ?e) = 2 # replicate 31 0" "from_hex (drop 7 ZERO) = replicate 32 0"
    by (simp_all add: u_def ZERO_def hex_value_def eval_nat_numeral)
  have "digest_match ?d" "digest_match ?e" "?d \<noteq> ?e"
    by (simp_all add: digest_match_def starts_def is_lower_hex_def is_digit_def u_def list_all_iff)
  moreover have "length (cx_sha256 ?cx b) = 1" "is_bytes (cx_sha256 ?cx b)" for b
    by (cases b rule: cut_hash.cases; simp add: j_ctx_def is_bytes_def)+
  moreover have "inj_on (cx_sha256 ?cx) ({0 # from_hex (drop 7 ?d), 0 # from_hex (drop 7 ?e)} \<union>
      set (path_inputs ?cx (merkle_leaf ?cx ?d) [(u ''right'', ZERO)]) \<union> set (path_inputs ?cx (merkle_leaf ?cx ?e) [(u ''right'', ZERO)]))"
    unfolding merkle_leaf_def by (simp only: path_inputs.simps d) (simp add: Let_def j_ctx_def)
  ultimately show ?thesis
    using inclusion_path_admits_one_document [of "j_journal\<lparr>rn_snapshot := Some (inclusion_root ?cx ?d [(u ''right'', ZERO)])\<rparr>"
        ?cx ?d "[(u ''right'', ZERO)]" ?e 1 j_start] by simp
qed

section \<open>The digested form\<close>

lemma ascii_scalars: "list_all (\<lambda>c. c < 128) s \<Longrightarrow> utf8_encode s = Inr s"
proof -
  assume a: "list_all (\<lambda>c. c < 128) s"
  then have "concat (map utf8_cp s) = s" by (induction s) auto
  moreover have "\<not> has_surrogate s" using a by (auto simp: has_surrogate_def surrogate_def list_all_iff list_ex_iff)
  ultimately show ?thesis by (simp add: utf8_encode_def)
qed

lemma join_with_all: "list_all P sep \<Longrightarrow> list_all (list_all P) ts \<Longrightarrow> list_all P (join_with sep ts)"
  by (induction sep ts rule: join_with.induct) auto

lemma ascii_string_ascii: "printable s \<Longrightarrow> list_all (\<lambda>c. c < 128) (ascii_string s)"
  by (auto simp: printable_def ascii_string_def ascii_char_def list_all_iff)

lemma dumps_ascii: "canonical_values v \<Longrightarrow> list_all (\<lambda>c. c < 128) (dumps cx Compact level v)"
proof (induction v arbitrary: level)
  case (JBool b)
  then show ?case by (simp add: u_def)
next
  case (JInt i)
  have "list_all (\<lambda>c. c < 128) (nat_str n)" for n
    using nat_str_digits [of n] by (force simp: is_digit_def list_all_iff)
  then show ?case by (simp add: int_str_def)
next
  case (JArr xs)
  then show ?case by (auto simp: bracketed_compact list_all_iff [of _ xs] intro!: join_with_all) (auto simp: list_all_iff)
next
  case (JObj d)
  have "list_all (\<lambda>c. c < 128) (ascii_string k @ 58 # dumps cx Compact (Suc level) v)" if "(k, v) \<in> set d" for k v
    using JObj.IH [OF that, of v] JObj.prems that ascii_string_ascii by (auto simp: list_all_iff [of _ d])
  then show ?case by (auto simp: bracketed_compact list_all_iff [of "list_all _"] intro!: join_with_all)
qed (simp_all add: u_def ascii_string_ascii)

text \<open>On values without floats whose strings and names are printable ASCII and whose integers lie inside the safe
  range, the form an entry is digested in, sorted compact ASCII, is the RFC 8785 serialization of the value.\<close>

theorem digested_form_is_rfc8785:
  assumes "canonical_values v"
  shows "jcs_dumps v = Inr (canonical_bytes cx v)"
proof -
  have "jcs_dumps v = utf8_encode (dumps cx Compact 0 v)"
    by (simp only: jcs_dumps_def ser_canonical [OF assms, of cx 0] bindr_simps)
  also have "\<dots> = Inr (canonical_bytes cx v)"
    unfolding canonical_bytes_def by (rule ascii_scalars [OF dumps_ascii [OF assms]])
  finally show ?thesis .
qed

theorem digested_form_is_rfc8785_witness: "jcs_dumps j_delivery = Inr (canonical_bytes jcx j_delivery)"
  by (rule digested_form_is_rfc8785) (use j_canonical in \<open>simp add: j_raws_def\<close>)

section \<open>Fallbacks\<close>

text \<open>A fallback that leaves a complete graph in force is refused under either posture.\<close>

lemma complete_fallback_refused:
  assumes "set new = set (complete_graph (rn_agents rn))" and "set (wk_graph w) = set new"
  shows "walk_fallback rn i new posture w = Inl (Refusal ''posture_contradicted'')"
  using assms by (auto simp: walk_fallback_def refuse_def)


end
