(* ===== verification/Readers.thy ===== *)
theory Readers
  imports Receipt ParsePrint
begin

text \<open>
  What the readers of the decision corpora under \<open>packaging/agent_evidence_vectors\<close> share: comparison,
  membership and arithmetic of carried values as Python does them, dates, an ordered list of rules of
  which the first that fails is named, and the interface of a reader to the harness that runs a corpus.
\<close>

section \<open>The standard library\<close>

text \<open>
  A \<open>datetime\<close> has an offset or has none, and the two kinds do not compare. \<open>sd_iso\<close> is
  \<open>datetime.fromisoformat\<close> (\<open>None\<close> where it raises \<open>ValueError\<close>), in microseconds; \<open>sd_fadd\<close> is addition
  where one summand is a float, \<open>sd_text\<close> the decoding \<open>json.loads\<close> gives a byte string, by the encoding it
  detects. They are parameters: no property depends on more than their being functions.
\<close>

datatype date_time = Aware int | Naive int

record std =
  sd_ctx :: ctx
  sd_iso :: "ustr \<Rightarrow> date_time option"
  sd_fadd :: "json \<Rightarrow> json \<Rightarrow> json res"
  sd_text :: "bytes \<Rightarrow> ustr option"

text \<open>\<open>stamp.replace("Z", "+00:00")\<close>.\<close>

definition utc_offset :: "ustr \<Rightarrow> ustr" where
  "utc_offset s = concat (map (\<lambda>c. if c = 90 then u ''+00:00'' else [c]) s)"

fun at_of :: "std \<Rightarrow> json \<Rightarrow> date_time res" where
  "at_of sd (JStr s) = (case sd_iso sd (utc_offset s) of None \<Rightarrow> Inl ValueError | Some t \<Rightarrow> Inr t)"
| "at_of sd _ = Inl AttributeError"

text \<open>The order of dates: only dates of one kind are comparable, and asking for another pair raises.\<close>

fun is_aware :: "date_time \<Rightarrow> bool" where
  "is_aware (Aware a) = True" | "is_aware (Naive a) = False"

instantiation date_time :: order
begin

fun less_eq_date_time :: "date_time \<Rightarrow> date_time \<Rightarrow> bool" where
  "less_eq_date_time (Aware a) (Aware b) = (a \<le> b)"
| "less_eq_date_time (Naive a) (Naive b) = (a \<le> b)"
| "less_eq_date_time _ _ = False"

definition less_date_time :: "date_time \<Rightarrow> date_time \<Rightarrow> bool" where
  "less_date_time s t \<longleftrightarrow> s \<le> t \<and> \<not> t \<le> s"

instance
proof
  fix s t r :: date_time
  show "(s < t) = (s \<le> t \<and> \<not> t \<le> s)" by (rule less_date_time_def)
  show "s \<le> s" by (cases s) simp_all
  show "s \<le> r" if "s \<le> t" "t \<le> r" using that by (cases s; cases t; cases r) simp_all
  show "s = t" if "s \<le> t" "t \<le> s" using that by (cases s; cases t) simp_all
qed

end

definition moment_le :: "date_time \<Rightarrow> date_time \<Rightarrow> bool res" where
  "moment_le s t = (if is_aware s = is_aware t then Inr (s \<le> t) else Inl TypeError)"

definition moment_less :: "date_time \<Rightarrow> date_time \<Rightarrow> bool res" where
  "moment_less s t = (if is_aware s = is_aware t then Inr (s < t) else Inl TypeError)"

lemma moment_aware [simp]:
  "moment_le (Aware a) (Aware b) = Inr (a \<le> b)" "moment_less (Aware a) (Aware b) = Inr (a < b)"
  by (auto simp: moment_le_def moment_less_def less_date_time_def)

section \<open>Carried values\<close>

text \<open>\<open>v == w\<close> of two carried values: a NaN is unequal to itself where no container is in between.\<close>

fun direct_eq :: "json \<Rightarrow> json \<Rightarrow> bool" where
  "direct_eq (JFloat NaN) w = False"
| "direct_eq v w = py_eq v w"

lemma direct_eq_JStr [simp]: "direct_eq v (JStr s) \<longleftrightarrow> v = JStr s"
  by (cases "(v, JStr s)" rule: direct_eq.cases) auto

lemma direct_eq_JStr_left [simp]: "direct_eq (JStr s) v \<longleftrightarrow> v = JStr s"
  by simp

lemma direct_eq_JInt [simp]: "direct_eq (JInt i) (JInt j) \<longleftrightarrow> i = j"
  by simp

fun float_less :: "pyfloat \<Rightarrow> pyfloat \<Rightarrow> bool" where
  "float_less (Fin m e) (Fin n f) = (m * 2 ^ nat (e - min e f) < n * 2 ^ nat (f - min e f))"
| "float_less NaN y = False"
| "float_less x NaN = False"
| "float_less NInf y = (y \<noteq> NInf)"
| "float_less x PInf = (x \<noteq> PInf)"
| "float_less x y = False"

text \<open>\<open>v < w\<close> of numbers; any other operand raises where the other one is a number.\<close>

definition num_less :: "json \<Rightarrow> json \<Rightarrow> bool res" where
  "num_less v w =
     (case (num_of v, num_of w) of (Some a, Some b) \<Rightarrow> Inr (float_less a b) | _ \<Rightarrow> Inl TypeError)"

fun int_of :: "json \<Rightarrow> int option" where
  "int_of (JBool b) = Some (if b then 1 else 0)"
| "int_of (JInt i) = Some i"
| "int_of _ = None"

definition num_add :: "std \<Rightarrow> json \<Rightarrow> json \<Rightarrow> json res" where
  "num_add sd v w = (case (int_of v, int_of w) of (Some i, Some j) \<Rightarrow> Inr (JInt (i + j)) | _ \<Rightarrow> sd_fadd sd v w)"

lemma num_less_JInt [simp]: "num_less (JInt i) (JInt j) = Inr (i < j)"
  by (simp add: num_less_def)

text \<open>\<open>v in c\<close>: a list compares, a dictionary hashes, a string looks for a substring.\<close>

fun contains :: "json \<Rightarrow> json \<Rightarrow> bool res" where
  "contains v (JArr xs) = Inr (py_in v xs)"
| "contains v (JObj d) = in_set v (map (\<lambda>(k, _). JStr k) d)"
| "contains (JStr s) (JStr t) = Inr (sublist s t)"
| "contains _ _ = Inl TypeError"

text \<open>\<open>v.get(k)\<close>: only a dictionary has the method.\<close>

fun get_item :: "json \<Rightarrow> ustr \<Rightarrow> json res" where
  "get_item (JObj d) k = Inr (dget d k)"
| "get_item _ k = Inl AttributeError"

fun py_len :: "json \<Rightarrow> nat res" where
  "py_len (JArr xs) = Inr (length xs)"
| "py_len (JStr s) = Inr (length s)"
| "py_len (JObj d) = Inr (length d)"
| "py_len _ = Inl TypeError"

lemma item_Inr [res_iff]: "item v k = Inr x \<longleftrightarrow> (\<exists>d. v = JObj d \<and> map_of d k = Some x)"
  by (cases v) (auto split: option.splits)

abbreviation path2 :: "json \<Rightarrow> string \<Rightarrow> string \<Rightarrow> json res" where
  "path2 record a b \<equiv> bindr (item record (u a)) (\<lambda>v. item v (u b))"

text \<open>Conjunction as Python evaluates it: what stands behind a false conjunct does not run.\<close>

definition andr :: "bool res \<Rightarrow> bool res \<Rightarrow> bool res" where
  "andr p q = bindr p (\<lambda>b. if b then q else Inr False)"

definition orr :: "bool res \<Rightarrow> bool res \<Rightarrow> bool res" where
  "orr p q = bindr p (\<lambda>b. if b then Inr True else q)"

lemma andr_Inr [res_iff]: "andr p q = Inr b \<longleftrightarrow> (if b then p = Inr True \<and> q = Inr True else p = Inr False \<or> p = Inr True \<and> q = Inr False)"
  by (auto simp: andr_def bindr_Inr_iff split: if_splits)

lemma orr_Inr [res_iff]: "orr p q = Inr b \<longleftrightarrow> (if b then p = Inr True \<or> p = Inr False \<and> q = Inr True else p = Inr False \<and> q = Inr False)"
  by (auto simp: orr_def bindr_Inr_iff split: if_splits)

definition eq_rule :: "json res \<Rightarrow> json \<Rightarrow> bool res" where
  "eq_rule r w = bindr r (\<lambda>v. Inr (direct_eq v w))"

section \<open>Rules in order\<close>

text \<open>A rule that raises ends the judgement with its exception; rules behind the first failed one do not run.\<close>

fun first_failed :: "(string \<times> bool res) list \<Rightarrow> string option res" where
  "first_failed [] = Inr None"
| "first_failed ((name, failed) # rules) =
     bindr failed (\<lambda>b. if b then Inr (Some name) else first_failed rules)"

lemma first_failed_None [res_iff]: "first_failed rs = Inr None \<longleftrightarrow> list_all (\<lambda>(n, b). b = Inr False) rs"
  by (induction rs) (auto simp: bindr_Inr_iff split: if_splits)

lemma first_failed_total: "list_all (\<lambda>(n, b). \<exists>x. b = Inr x) rs \<Longrightarrow> \<exists>f. first_failed rs = Inr f"
  by (induction rs) auto

lemma first_failed_name: "first_failed rs = Inr (Some n) \<Longrightarrow> n \<in> set (map fst rs)"
  by (induction rs) (auto simp: bindr_Inr_iff split: if_splits)

lemma first_failed_Some:
  "first_failed rs = Inr (Some n) \<Longrightarrow>
   \<exists>as bs. rs = as @ (n, Inr True) # bs \<and> list_all (\<lambda>(n, b). b = Inr False) as"
proof (induction rs)
  case (Cons r rs)
  obtain m b where r: "r = (m, b)" by (cases r)
  from Cons.prems r obtain x where x: "b = Inr x" by (auto simp: bindr_Inr_iff)
  show ?case
  proof (cases x)
    case True
    with Cons.prems r x have "r # rs = [] @ (n, Inr True) # rs" by simp
    then show ?thesis by fastforce
  next
    case False
    with Cons.prems r x Cons.IH obtain as bs where "rs = as @ (n, Inr True) # bs" "list_all (\<lambda>(n, b). b = Inr False) as"
      by auto
    with r x False have "r # rs = (r # as) @ (n, Inr True) # bs \<and> list_all (\<lambda>(n, b). b = Inr False) (r # as)" by simp
    then show ?thesis by blast
  qed
qed simp

text \<open>\<open>"contractId" not in record\<close> and the comparison with a default, of a dictionary.\<close>

definition contract_rules :: "ustr \<Rightarrow> json \<Rightarrow> (string \<times> bool res) list" where
  "contract_rules contract record =
     [(''contract_id_missing'', bindr (contains (js ''contractId'') record) (\<lambda>b. Inr (\<not> b))),
      (''contract_id_unknown'',
         bindr (get_item record (u ''contractId'')) (\<lambda>v.
           Inr (has_key (as_dict record) (u ''contractId'') \<and> v \<noteq> JStr contract)))]"

lemma contract_rules_pass:
  "item record (u ''contractId'') = Inr (JStr c) \<Longrightarrow> list_all (\<lambda>(n, b). b = Inr False) (contract_rules c record)"
  by (cases "record") (auto simp: contract_rules_def in_set_def py_in_JStr dget_def has_key_def split: option.splits
      intro: rev_image_eqI dest: map_of_SomeD)

section \<open>Files and answers\<close>

text \<open>The regular files of a case directory, by name.\<close>

type_synonym case_files = "(ustr \<times> bytes) list"

definition read_json :: "bytes \<Rightarrow> json res" where
  "read_json raw = (case utf8_decode raw of None \<Rightarrow> Inl UnicodeDecodeError | Some t \<Rightarrow> json_loads t)"

definition record_json :: "case_files \<Rightarrow> json res" where
  "record_json files =
     (case map_of files (u ''record.json'') of None \<Rightarrow> Inl OSError | Some raw \<Rightarrow> read_json raw)"

text \<open>An answer is a decision and a reason.\<close>

type_synonym verdict = "string \<times> string"

definition allow_or_deny :: "string \<Rightarrow> string option \<Rightarrow> verdict" where
  "allow_or_deny allowed failure =
     (case failure of None \<Rightarrow> (''allow'', allowed) | Some name \<Rightarrow> (''deny'', name))"

definition verdict_json :: "verdict \<Rightarrow> json" where
  "verdict_json v = JObj [(u ''decision'', js (fst v)), (u ''reason'', js (snd v))]"

text \<open>
  The interface of a reader to the harness. A reader answers a case directory from its files and keeps
  some members of a record; the law says which decision goes with which reason.
\<close>

locale corpus_reader =
  fixes verify_one :: "case_files \<Rightarrow> verdict res"
    and exits :: "(string \<times> int) list"
    and reasons :: "string \<Rightarrow> string list"
  assumes declared_reason: "verify_one files = Inr (d, r) \<Longrightarrow> d \<in> set (map fst exits) \<and> r \<in> set (reasons d)"
    and reason_decides: "r \<in> set (reasons d) \<Longrightarrow> r \<in> set (reasons d') \<Longrightarrow> d = d'"
begin

lemma decided_by_reason:
  "verify_one files = Inr (d, r) \<Longrightarrow> verify_one files' = Inr (d', r) \<Longrightarrow> d = d'"
  using declared_reason reason_decides by blast

lemma has_exit: "verify_one files = Inr (d, r) \<Longrightarrow> \<exists>n. map_of exits d = Some n"
  using declared_reason [of files d r] by (metis map_of_eq_None_iff not_None_eq set_map)

end

definition EXIT_FOR :: "(string \<times> int) list" where
  "EXIT_FOR = [(''allow'', 0), (''deny'', 1)]"

text \<open>The reasons of a reader that allows with one reason and denies with the name of a check.\<close>

definition allow_deny_reasons :: "string list \<Rightarrow> string list \<Rightarrow> string \<Rightarrow> string list" where
  "allow_deny_reasons allowed checks d =
     (if d = ''allow'' then allowed else if d = ''deny'' then checks else [])"

lemma allow_deny_reader:
  assumes "\<And>files v. verify_one files = Inr v \<Longrightarrow>
      \<exists>a failure. v = allow_or_deny a failure \<and> a \<in> set allowed \<and> (\<forall>name. failure = Some name \<longrightarrow> name \<in> set checks)"
    and "set allowed \<inter> set checks = {}"
  shows "corpus_reader verify_one EXIT_FOR (allow_deny_reasons allowed checks)"
proof
  fix files d r assume "verify_one files = Inr (d, r)"
  from assms(1) [OF this] show "d \<in> set (map fst EXIT_FOR) \<and> r \<in> set (allow_deny_reasons allowed checks d)"
    by (auto simp: allow_or_deny_def EXIT_FOR_def allow_deny_reasons_def split: option.splits)
qed (use assms(2) in \<open>auto simp: allow_deny_reasons_def split: if_splits\<close>)

text \<open>A reader that names the first failed rule of a parsed record.\<close>

definition judged_record :: "string \<Rightarrow> (json \<Rightarrow> string option res) \<Rightarrow> case_files \<Rightarrow> verdict res" where
  "judged_record allowed failure files =
     bindr (record_json files) (\<lambda>record. bindr (failure record) (\<lambda>f. Inr (allow_or_deny allowed f)))"

lemma judged_record_reader:
  assumes "\<And>record name. failure record = Inr (Some name) \<Longrightarrow> name \<in> set checks" and "allowed \<notin> set checks"
  shows "corpus_reader (judged_record allowed failure) EXIT_FOR (allow_deny_reasons [allowed] checks)"
proof (rule allow_deny_reader)
  fix files v assume "judged_record allowed failure files = Inr v"
  then obtain r f where "failure r = Inr f" "v = allow_or_deny allowed f" by (auto simp: judged_record_def bindr_Inr_iff)
  with assms(1) show "\<exists>a f. v = allow_or_deny a f \<and> a \<in> set [allowed] \<and> (\<forall>name. f = Some name \<longrightarrow> name \<in> set checks)"
    by (intro exI [of _ allowed] exI [of _ f]) auto
qed (use assms(2) in simp)

lemma judged_record_allows:
  "judged_record allowed failure files = Inr (''allow'', r) \<Longrightarrow>
   \<exists>record. record_json files = Inr record \<and> failure record = Inr None \<and> r = allowed"
  by (auto simp: judged_record_def bindr_Inr_iff allow_or_deny_def split: option.splits)

section \<open>Text that reads back\<close>

interpretation plain_text: keeping_hooks plain_hooks
  by unfold_locales (use dict_of_pairs [of "[]"] in \<open>simp add: plain_hooks_def\<close>)

interpretation journal_text: keeping_hooks journal_hooks
  by unfold_locales (use dict_of_pairs [of "[]"] in \<open>simp add: journal_hooks_def\<close>)

lemma json_loads_text: "readable v \<Longrightarrow> json_loads (text_of v) = Inr v"
  unfolding json_loads_def by (rule plain_text.loads_printed)

text \<open>Values whose strings encode.\<close>

fun scalar_strings :: "json \<Rightarrow> bool" where
  "scalar_strings (JStr s) = list_all scalar s"
| "scalar_strings (JArr xs) = list_all scalar_strings xs"
| "scalar_strings (JObj d) = list_all (\<lambda>(k, v). list_all scalar k \<and> scalar_strings v) d"
| "scalar_strings _ = True"

lemma scalar_u [simp]: "list_all scalar (u s)"
proof -
  have "scalar (of_char c)" for c :: char
    using nat_of_char_less_256 [of c] unfolding scalar_def surrogate_def by linarith
  then show ?thesis by (simp add: u_def list_all_iff)
qed

lemma string_scalars: "list_all scalar s \<Longrightarrow> list_all scalar (jcs_string s)"
proof -
  have "list_all scalar (jcs_char c)" if "scalar c" for c using that by (simp add: jcs_char_def jcs_escape_def)
  then show "list_all scalar s \<Longrightarrow> list_all scalar (jcs_string s)" by (auto simp: jcs_string_def list_all_iff)
qed

lemma scalar_text: "readable v \<Longrightarrow> scalar_strings v \<Longrightarrow> list_all scalar (text_of v)"
proof (induction v)
  case (JArr xs)
  then have "list_all scalar (join_with [44] (map text_of xs))" by (intro join_scalar) (auto simp: list_all_iff)
  then show ?case by simp
next
  case (JObj d)
  have "list_all scalar (jcs_string k @ [58] @ text_of v)" if "(k, v) \<in> set d" for k v
  proof -
    from JObj.prems that have "readable v" "scalar_strings v" "list_all scalar k" by (auto simp: list_all_iff)
    with JObj.IH [OF that, of v] string_scalars [of k] show ?thesis by simp
  qed
  then have "list_all scalar (join_with [44] (map (\<lambda>(k, v). jcs_string k @ [58] @ text_of v) d))"
    by (intro join_scalar) auto
  then show ?case by simp
next
  case (JInt i)
  then show ?case using nat_str_scalar by (simp add: int_str_def)
qed (auto simp: string_scalars)

lemma read_json_text:
  assumes "readable v" and "scalar_strings v"
  shows "read_json (enc (text_of v)) = Inr v"
  using utf8_decode_concat [OF scalar_text [OF assms]] json_loads_text [OF assms(1)] by (simp add: read_json_def)

end
