(* ===== verification/Decisions.thy ===== *)
theory Decisions
  imports Readers Rail
begin

text \<open>
  The harness of the decision corpora (\<open>check_corpus\<close>, \<open>run_corpus\<close> and what they call in
  \<open>packaging/agent_evidence_vectors/monitorcoverage.py\<close>): the manifest against its digest and directory,
  every case against its declared files, retained members and decision, through the reference reader or
  an external verifier, and the exit status and totals of a run.
\<close>

section \<open>The corpus\<close>

text \<open>
  \<open>MANIFEST.json\<close>, the directories under \<open>cases\<close> and the files of each case directory by its path;
  \<open>None\<close> where the operating system refuses.
\<close>

record corpus =
  co_manifest :: "bytes option"
  co_dirs :: "ustr list option"
  co_case :: "ustr \<Rightarrow> case_files option"

text \<open>One constructor per message; the arguments are the values its text formats.\<close>

datatype case_fault =
    File_Set_Changed | Digest_Mismatch | Retained_Differ | Did_Not_Run | No_Decision int
  | Exit_Disagrees int json | Answer_Differs json json

datatype corpus_fault =
    Invalid_Corpus exn | Manifest_Digest | Unexpected_Suite | Bad_Identifiers | Bad_Paths | Bad_Directories
  | Empty_Command | Case_Fault json case_fault

text \<open>\<open>except (OSError, ValueError, KeyError, TypeError)\<close>.\<close>

definition is_corpus_error :: "exn \<Rightarrow> bool" where
  "is_corpus_error e \<longleftrightarrow> is_value_error e \<or> e \<in> {OSError, KeyError, TypeError}"

definition load_manifest :: "corpus \<Rightarrow> json res" where
  "load_manifest co = (case co_manifest co of None \<Rightarrow> Inl OSError | Some raw \<Rightarrow> read_json raw)"

text \<open>\<open>_json\<close>: two spaces of indent, sorted members, ASCII, a final newline.\<close>

definition json_file :: "ctx \<Rightarrow> json \<Rightarrow> bytes" where
  "json_file cx v = dumps cx Indented 0 v @ [10]"

definition entry_id :: "json \<Rightarrow> json res" where
  "entry_id e = bindr (item e (u ''id'')) (\<lambda>i. bindr (hash_check i) (\<lambda>_. Inr i))"

definition case_path :: "ctx \<Rightarrow> json \<Rightarrow> ustr" where
  "case_path cx i = u ''cases/'' @ py_str cx i"

definition validated_entries :: "ctx \<Rightarrow> corpus \<Rightarrow> string \<Rightarrow> (json list \<times> corpus_fault option) res" where
  "validated_entries cx co suite =
     bindr (load_manifest co) (\<lambda>manifest.
     bindr (item manifest (u ''vectors'')) (\<lambda>entries.
     bindr (item manifest (u ''corpusDigest'')) (\<lambda>digest.
       if digest \<noteq> JStr (sha256_hex cx (json_file cx entries)) then Inr ([], Some Manifest_Digest)
       else if dget (as_dict manifest) (u ''suite'') \<noteq> js suite then Inr ([], Some Unexpected_Suite)
       else if \<not> truthy entries then Inr ([], Some Bad_Identifiers)
       else
         bindr (py_iter entries) (\<lambda>es.
         bindr (mapr entry_id es) (\<lambda>ids.
           if length (dedup ids) \<noteq> length es then Inr ([], Some Bad_Identifiers)
           else if list_ex (\<lambda>(e, i). dget (as_dict e) (u ''path'') \<noteq> JStr (case_path cx i)) (zip es ids)
           then Inr ([], Some Bad_Paths)
           else (case co_dirs co of
                   None \<Rightarrow> Inl OSError
                 | Some dirs \<Rightarrow>
                     Inr (if JStr ` set dirs \<noteq> set ids then ([], Some Bad_Directories) else (es, None))))))))"

definition fixture_error :: "ctx \<Rightarrow> case_files option \<Rightarrow> json \<Rightarrow> case_fault option res" where
  "fixture_error cx directory entry =
     bindr (item entry (u ''files'')) (\<lambda>files.
       case directory of
         None \<Rightarrow> Inl OSError
       | Some actual \<Rightarrow>
           bindr (py_iter files) (\<lambda>names.
           bindr (mapr hash_check names) (\<lambda>_.
             if JStr ` set (map fst actual) \<noteq> set names then Inr (Some File_Set_Changed)
             else (case files of
                     JObj d \<Rightarrow>
                       Inr (if list_ex (\<lambda>(name, digest).
                                  case map_of actual name of
                                    None \<Rightarrow> True
                                  | Some raw \<Rightarrow> digest \<noteq> JStr (sha256_hex cx raw)) d
                            then Some Digest_Mismatch else None)
                   | _ \<Rightarrow> Inl AttributeError))))"

section \<open>External verifiers\<close>

fun exit_for :: "(string \<times> int) list \<Rightarrow> json \<Rightarrow> int option" where
  "exit_for exits (JStr s) = map_of (map (\<lambda>(d, n). (u d, n)) exits) s"
| "exit_for exits _ = None"

definition printed_answer :: "ustr \<Rightarrow> json res" where
  "printed_answer stdout =
     bindr (json_loads stdout) (\<lambda>answer.
     bindr (item answer (u ''decision'')) (\<lambda>d.
     bindr (item answer (u ''reason'')) (\<lambda>r. Inr (JObj [(u ''decision'', d), (u ''reason'', r)]))))"

text \<open>
  The output is decoded strictly, as UTF-8: a byte sequence that is not UTF-8 raises out of
  \<open>subprocess.run\<close>. \<open>str\<close> of anything but a string is no decision.
\<close>

definition external_answer :: "(string \<times> int) list \<Rightarrow> process \<Rightarrow> (bool \<times> (case_fault + json)) res" where
  "external_answer exits proc =
     (case proc of
        Timed_Out \<Rightarrow> Inr (False, Inl Did_Not_Run)
      | Unrunnable \<Rightarrow> Inr (False, Inl Did_Not_Run)
      | Exited returncode out \<Rightarrow>
          (case utf8_decode out of
             None \<Rightarrow> Inl UnicodeDecodeError
           | Some stdout \<Rightarrow>
               (case printed_answer stdout of
                  Inl e \<Rightarrow>
                    if is_value_error e \<or> e \<in> {KeyError, TypeError} then Inr (True, Inl (No_Decision returncode))
                    else Inl e
                | Inr observed \<Rightarrow>
                    Inr (True,
                      if exit_for exits (member observed ''decision'') \<noteq> Some returncode
                      then Inl (Exit_Disagrees returncode (member observed ''decision'')) else Inr observed))))"

section \<open>Cases\<close>

text \<open>
  A suite's reader: how it answers, what it keeps of a record, and the exits of its decisions. \<open>verifier\<close>
  is the command of an external verifier and what its process does on each record.
\<close>

record suite_reader =
  su_name :: string
  su_verify :: "case_files \<Rightarrow> verdict res"
  su_keep :: "json \<Rightarrow> json res"
  su_exits :: "(string \<times> int) list"

type_synonym verifier = "ustr list \<times> (ustr \<Rightarrow> process)"

definition answer_of :: "suite_reader \<Rightarrow> verifier option \<Rightarrow> ustr \<Rightarrow> case_files \<Rightarrow> (bool \<times> (case_fault + json)) res" where
  "answer_of su verifier path files =
     (case verifier of
        None \<Rightarrow> bindr (su_verify su files) (\<lambda>v. Inr (True, Inr (verdict_json v)))
      | Some (command, run) \<Rightarrow> external_answer (su_exits su) (run path))"

fun answer_fault :: "json \<Rightarrow> case_fault + json \<Rightarrow> case_fault list res" where
  "answer_fault entry (Inl fault) = Inr [fault]"
| "answer_fault entry (Inr observed) =
     bindr (item entry (u ''expected'')) (\<lambda>expected.
       Inr (if py_eq observed expected then [] else [Answer_Differs expected observed]))"

text \<open>Whether a case was answered, and its faults.\<close>

definition check_case :: "ctx \<Rightarrow> corpus \<Rightarrow> suite_reader \<Rightarrow> verifier option \<Rightarrow> json \<Rightarrow> (bool \<times> corpus_fault list) res" where
  "check_case cx co su verifier entry =
     bindr (item entry (u ''id'')) (\<lambda>name.
     bindr (item entry (u ''path'')) (\<lambda>path.
       let directory = co_case co (as_str path) in
       bindr (fixture_error cx directory entry) (\<lambda>changed.
         case (changed, directory) of
           (Some fault, _) \<Rightarrow> Inr (False, [Case_Fault name fault])
         | (None, None) \<Rightarrow> Inl OSError
         | (None, Some files) \<Rightarrow>
             bindr (record_json files) (\<lambda>record.
             bindr (su_keep su record) (\<lambda>kept.
             bindr (item entry (u ''retained'')) (\<lambda>declared.
             bindr (answer_of su verifier (as_str path) files) (\<lambda>(ran, observed).
             bindr (answer_fault entry observed) (\<lambda>faults.
               Inr (ran, map (Case_Fault name)
                     ((if py_eq kept declared then [] else [Retained_Differ]) @ faults))))))))))"

definition check_decision_corpus ::
    "ctx \<Rightarrow> corpus \<Rightarrow> suite_reader \<Rightarrow> verifier option \<Rightarrow> (nat \<times> corpus_fault list) res" where
  "check_decision_corpus cx co su verifier =
     (case validated_entries cx co (su_name su) of
        Inl e \<Rightarrow> if is_corpus_error e then Inr (0, [Invalid_Corpus e]) else Inl e
      | Inr (entries, Some fault) \<Rightarrow> Inr (0, [fault])
      | Inr (entries, None) \<Rightarrow>
          if map_option fst verifier = Some [] then Inr (0, [Empty_Command])
          else
            bindr (mapr (check_case cx co su verifier) entries) (\<lambda>rows.
              Inr (length (filter fst rows), concat (map snd rows))))"

section \<open>A run\<close>

record corpus_report =
  cr_executed :: nat
  cr_vectors :: nat
  cr_conform :: int
  cr_fail :: nat
  cr_failures :: "corpus_fault list"

definition manifest_total :: "corpus \<Rightarrow> (json \<times> nat) res" where
  "manifest_total co =
     (case bindr (load_manifest co) (\<lambda>m. bindr (item m (u ''vectors'')) (\<lambda>v. bindr (py_len v) (\<lambda>n. Inr (m, n)))) of
        Inl e \<Rightarrow> if is_corpus_error e then Inr (JObj [], 0) else Inl e
      | Inr x \<Rightarrow> Inr x)"

definition run_corpus ::
    "ctx \<Rightarrow> corpus \<Rightarrow> suite_reader \<Rightarrow> verifier option \<Rightarrow> (int \<times> corpus_report option) res" where
  "run_corpus cx co su verifier =
     bindr (check_decision_corpus cx co su verifier) (\<lambda>(answered, errors).
     bindr (manifest_total co) (\<lambda>(manifest, total).
       if answered = 0 \<or> total = 0 then Inr (2, None)
       else
         bindr (item manifest (u ''corpusDigest'')) (\<lambda>_.
           Inr (if errors \<noteq> [] \<or> answered \<noteq> total then 1 else 0,
             Some \<lparr>cr_executed = answered, cr_vectors = total, cr_conform = int total - int (length errors),
                   cr_fail = length errors, cr_failures = errors\<rparr>))))"

end
