(* ===== verification/DecisionFacts.thy ===== *)
theory DecisionFacts
  imports Decisions
begin

text \<open>
  What a run over a decision corpus shows: an exit of zero is a corpus whose files are the declared ones,
  of which every case was answered with its declared decision; and an external verifier and the reference
  reader that both end with zero agree on every case.
\<close>

section \<open>Cases without a fault\<close>

text \<open>The entry \<open>e\<close> declares the files \<open>fs\<close> of its directory.\<close>

definition declares_files :: "ctx \<Rightarrow> json \<Rightarrow> case_files \<Rightarrow> bool" where
  "declares_files cx e fs \<longleftrightarrow>
     (\<exists>d. item e (u ''files'') = Inr (JObj d) \<and> fst ` set fs = fst ` set d \<and>
        (\<forall>(name, digest) \<in> set d. \<exists>raw. map_of fs name = Some raw \<and> digest = JStr (sha256_hex cx raw)))"

lemma fixture_ok:
  assumes "fixture_error cx (Some fs) e = Inr None"
  shows "declares_files cx e fs"
proof -
  from assms obtain v names where v: "item e (u ''files'') = Inr v" "py_iter v = Inr names"
    "JStr ` set (map fst fs) = set names"
    by (auto simp: fixture_error_def bindr_Inr_iff split: if_splits)
  with assms obtain d where d: "v = JObj d" by (cases v) (auto simp: fixture_error_def bindr_Inr_iff)
  have "set names = JStr ` fst ` set d" using v(2) unfolding d by force
  with v(3) have "JStr ` fst ` set fs = JStr ` fst ` set d" by simp
  then have "fst ` set fs = fst ` set d" by (simp add: inj_image_eq_iff inj_def)
  moreover have "\<not> list_ex (\<lambda>(name, digest). case map_of fs name of None \<Rightarrow> True
      | Some raw \<Rightarrow> digest \<noteq> JStr (sha256_hex cx raw)) d"
    using assms v d by (auto simp: fixture_error_def bindr_Inr_iff split: if_splits)
  then have "\<exists>raw. map_of fs name = Some raw \<and> digest = JStr (sha256_hex cx raw)" if "(name, digest) \<in> set d" for name digest
    using that by (cases "map_of fs name") (auto simp: list_ex_iff)
  ultimately show ?thesis using v(1) d unfolding declares_files_def by blast
qed

text \<open>A case whose files, retained members and answer are the declared ones.\<close>

definition holds_as_declared :: "ctx \<Rightarrow> corpus \<Rightarrow> suite_reader \<Rightarrow> verifier option \<Rightarrow> json \<Rightarrow> bool" where
  "holds_as_declared cx co su verifier e \<longleftrightarrow>
     (\<exists>fs record kept declared observed.
        co_case co (as_str (member e ''path'')) = Some fs \<and> declares_files cx e fs \<and>
        record_json fs = Inr record \<and> su_keep su record = Inr kept \<and>
        item e (u ''retained'') = Inr declared \<and> py_eq kept declared \<and>
        answer_of su verifier (as_str (member e ''path'')) fs = Inr (True, Inr observed) \<and>
        (\<exists>expected. item e (u ''expected'') = Inr expected \<and> py_eq observed expected))"

lemma item_member: "item v (u k) = Inr x \<Longrightarrow> member v k = x"
  by (cases v) (auto simp: dget_def split: option.splits)

lemma check_clean:
  assumes "check_case cx co su verifier e = Inr (True, [])"
  shows "holds_as_declared cx co su verifier e"
proof -
  from assms obtain path fs rc kept declared observed where
    p: "item e (u ''path'') = Inr path" "co_case co (as_str path) = Some fs"
    and f: "fixture_error cx (Some fs) e = Inr None"
    and k: "record_json fs = Inr rc" "su_keep su rc = Inr kept" "item e (u ''retained'') = Inr declared" "py_eq kept declared"
    and a: "answer_of su verifier (as_str path) fs = Inr (True, observed)" "answer_fault e observed = Inr []"
    by (auto simp: check_case_def Let_def bindr_Inr_iff split: option.splits if_splits)
  from a(2) obtain obs expected where "observed = Inr obs" "item e (u ''expected'') = Inr expected" "py_eq obs expected"
    by (cases observed) (auto simp: bindr_Inr_iff split: if_splits)
  with p k a(1) fixture_ok [OF f] item_member [OF p(1)] show ?thesis unfolding holds_as_declared_def by blast
qed

section \<open>An exit of zero\<close>

text \<open>The manifest's entries, with the digest, the identifiers, the paths and the directories they declare.\<close>

definition declared_entries :: "ctx \<Rightarrow> corpus \<Rightarrow> string \<Rightarrow> json list \<Rightarrow> bool" where
  "declared_entries cx co suite es \<longleftrightarrow>
     (\<exists>manifest entries ids dirs. load_manifest co = Inr manifest \<and> item manifest (u ''vectors'') = Inr entries \<and>
        py_iter entries = Inr es \<and> item manifest (u ''corpusDigest'') = Inr (JStr (sha256_hex cx (json_file cx entries))) \<and>
        dget (as_dict manifest) (u ''suite'') = js suite \<and> mapr entry_id es = Inr ids \<and> length (dedup ids) = length es \<and>
        list_all2 (\<lambda>e i. dget (as_dict e) (u ''path'') = JStr (case_path cx i)) es ids \<and>
        co_dirs co = Some dirs \<and> JStr ` set dirs = set ids)"

lemma validated_declared:
  assumes "validated_entries cx co suite = Inr (es, None)"
  shows "declared_entries cx co suite es"
proof -
  from assms obtain manifest entries ids dirs where m: "load_manifest co = Inr manifest"
    "item manifest (u ''vectors'') = Inr entries" "py_iter entries = Inr es"
    "item manifest (u ''corpusDigest'') = Inr (JStr (sha256_hex cx (json_file cx entries)))"
    "dget (as_dict manifest) (u ''suite'') = js suite" "mapr entry_id es = Inr ids" "length (dedup ids) = length es"
    "\<not> list_ex (\<lambda>(e, i). dget (as_dict e) (u ''path'') \<noteq> JStr (case_path cx i)) (zip es ids)"
    "co_dirs co = Some dirs" "JStr ` set dirs = set ids"
    by (auto simp: validated_entries_def bindr_Inr_iff split: if_splits option.splits)
  from m(6) have "length ids = length es" by (simp add: mapr_Inr_iff)
  with m(8) have "list_all2 (\<lambda>e i. dget (as_dict e) (u ''path'') = JStr (case_path cx i)) es ids"
    by (auto simp: list_all2_iff list_ex_iff)
  with m show ?thesis unfolding declared_entries_def by blast
qed

lemma answered_all:
  assumes "length (filter fst rows) = length rows" and "concat (map snd rows) = []" and "r \<in> set rows"
  shows "r = (True, [])"
proof -
  have "fst r" using assms(1,3) by (metis length_filter_less less_irrefl)
  with assms(2,3) show ?thesis by (auto intro: prod_eqI)
qed

lemma py_len_iter: "py_iter v = Inr xs \<Longrightarrow> py_len v = Inr n \<Longrightarrow> n = length xs"
  by (cases v) auto

lemma run_zero:
  assumes "run_corpus cx co su verifier = Inr (0, report)"
  shows "\<exists>es. declared_entries cx co (su_name su) es \<and> es \<noteq> [] \<and>
    validated_entries cx co (su_name su) = Inr (es, None) \<and> (\<forall>e \<in> set es. holds_as_declared cx co su verifier e)"
proof -
  from assms obtain answered manifest total where c: "check_decision_corpus cx co su verifier = Inr (answered, [])"
    and t: "manifest_total co = Inr (manifest, total)" "answered = total" "total \<noteq> 0"
    by (auto simp: run_corpus_def bindr_Inr_iff split: if_splits)
  from c obtain es rows where es: "validated_entries cx co (su_name su) = Inr (es, None)"
    and rows: "mapr (check_case cx co su verifier) es = Inr rows" "answered = length (filter fst rows)" "concat (map snd rows) = []"
    by (auto simp: check_decision_corpus_def bindr_Inr_iff split: sum.splits if_splits option.splits prod.splits)
  note d = validated_declared [OF es]
  from d t(1,3) have "total = length es"
    by (auto simp: declared_entries_def manifest_total_def bindr_Inr_iff dest: py_len_iter split: sum.splits if_splits)
  moreover from rows(1) have r: "length rows = length es" "list_all2 (\<lambda>e r. check_case cx co su verifier e = Inr r) es rows"
    by (simp_all add: mapr_Inr_iff)
  ultimately have all: "r = (True, [])" if "r \<in> set rows" for r
    using answered_all [OF _ rows(3) that] rows(2) t(2) by simp
  have "holds_as_declared cx co su verifier e" if "e \<in> set es" for e
  proof (rule check_clean)
    from that obtain i where "i < length es" "e = es ! i" by (auto simp: in_set_conv_nth)
    with r obtain r where "check_case cx co su verifier e = Inr r" "r \<in> set rows"
      by (auto simp: list_all2_conv_all_nth)
    with all show "check_case cx co su verifier e = Inr (True, [])" by simp
  qed
  with d es t(3) \<open>total = length es\<close> show ?thesis by auto
qed

section \<open>Two verifiers that pass\<close>

lemma verdict_eq:
  assumes "py_eq (verdict_json v) expected" and "py_eq (JObj [(u ''decision'', a), (u ''reason'', b)]) expected"
  shows "a = js (fst v) \<and> b = js (snd v)"
proof -
  from assms(1) obtain e where e: "expected = JObj e" "map_of e (u ''decision'') = Some (js (fst v))"
    "map_of e (u ''reason'') = Some (js (snd v))"
    by (cases expected) (auto simp: verdict_json_def split: option.splits)
  with assms(2) show ?thesis by simp
qed

lemma exit_for_js: "exit_for exits (js d) = map_of exits d"
  by (induction exits) auto

lemma external_observed:
  assumes "external_answer exits proc = Inr (True, Inr observed)"
  shows "\<exists>code out stdout a b. proc = Exited code out \<and> utf8_decode out = Some stdout \<and>
    printed_answer stdout = Inr observed \<and> observed = JObj [(u ''decision'', a), (u ''reason'', b)] \<and>
    exit_for exits a = Some code"
proof -
  from assms obtain code out stdout where p: "proc = Exited code out" "utf8_decode out = Some stdout"
    "printed_answer stdout = Inr observed" "exit_for exits (member observed ''decision'') = Some code"
    by (auto simp: external_answer_def split: process.splits option.splits sum.splits if_splits)
  from p(3) obtain a b where "observed = JObj [(u ''decision'', a), (u ''reason'', b)]"
    by (auto simp: printed_answer_def bindr_Inr_iff)
  with p show ?thesis by (auto simp: dget_def)
qed

lemma verifier_agrees:
  assumes "run_corpus cx co su None = Inr (0, report)" and "run_corpus cx co su (Some (command, run)) = Inr (0, report')"
  shows "\<exists>es. declared_entries cx co (su_name su) es \<and> es \<noteq> [] \<and>
    (\<forall>e \<in> set es. \<exists>fs v code out stdout.
       co_case co (as_str (member e ''path'')) = Some fs \<and> su_verify su fs = Inr v \<and>
       run (as_str (member e ''path'')) = Exited code out \<and> utf8_decode out = Some stdout \<and>
       printed_answer stdout = Inr (verdict_json v) \<and> map_of (su_exits su) (fst v) = Some code)"
proof -
  from run_zero [OF assms(1)] obtain es where es: "declared_entries cx co (su_name su) es" "es \<noteq> []"
    "validated_entries cx co (su_name su) = Inr (es, None)" and own: "\<forall>e \<in> set es. holds_as_declared cx co su None e" by blast
  from run_zero [OF assms(2)] es(3) have ext: "\<forall>e \<in> set es. holds_as_declared cx co su (Some (command, run)) e" by auto
  have "\<exists>fs v code out stdout. co_case co (as_str (member e ''path'')) = Some fs \<and> su_verify su fs = Inr v \<and>
       run (as_str (member e ''path'')) = Exited code out \<and> utf8_decode out = Some stdout \<and>
       printed_answer stdout = Inr (verdict_json v) \<and> map_of (su_exits su) (fst v) = Some code" if e: "e \<in> set es" for e
  proof -
    from own [rule_format, OF e] obtain fs v expected where o: "co_case co (as_str (member e ''path'')) = Some fs"
      "su_verify su fs = Inr v" "item e (u ''expected'') = Inr expected" "py_eq (verdict_json v) expected"
      by (auto simp: holds_as_declared_def answer_of_def bindr_Inr_iff)
    from ext [rule_format, OF e] o(1,3) obtain observed where x:
      "external_answer (su_exits su) (run (as_str (member e ''path''))) = Inr (True, Inr observed)" "py_eq observed expected"
      by (auto simp: holds_as_declared_def answer_of_def)
    from external_observed [OF x(1)] obtain code out stdout a b where p:
      "run (as_str (member e ''path'')) = Exited code out" "utf8_decode out = Some stdout"
      "printed_answer stdout = Inr observed" "observed = JObj [(u ''decision'', a), (u ''reason'', b)]"
      "exit_for (su_exits su) a = Some code" by blast
    from verdict_eq [OF o(4)] x(2) p(4) have ab: "a = js (fst v)" "b = js (snd v)" by auto
    with p(5) have "map_of (su_exits su) (fst v) = Some code" by (simp only: exit_for_js)
    moreover from p(3,4) ab have "printed_answer stdout = Inr (verdict_json v)" by (simp add: verdict_json_def)
    ultimately show ?thesis using o p(1,2) by blast
  qed
  with es show ?thesis by blast
qed

end
