(* ===== verification/Monitor.thy ===== *)
theory Monitor
  imports Decisions
begin

text \<open>
  The reader of monitor verdicts of \<open>packaging/agent_evidence_vectors/monitorcoverage.py\<close>: the rules on
  the window, the coverage counts, the vantage, the observed effect and the claim, in their order, and
  what an allowed verdict rests on.
\<close>

section \<open>The rules\<close>

definition MONITOR_CONTRACT_ID :: ustr where
  "MONITOR_CONTRACT_ID = u BASE @ u ''monitor-coverage''"

definition MONITOR_CHECKS :: "string list" where
  "MONITOR_CHECKS =
     [''contract_id_missing'', ''contract_id_unknown'', ''window_invalid'', ''coverage_counts_invalid'',
      ''coverage_self_reported'', ''clean_with_incomplete_coverage'', ''clean_outside_vantage'',
      ''clean_contradicts_observed_effect'', ''defence_effect_without_effective_actions'']"

definition complete :: "json \<Rightarrow> bool res" where
  "complete record =
     bindr (item record (u ''coverage'')) (\<lambda>coverage.
       andr (bindr (item coverage (u ''collected'')) (\<lambda>c. bindr (item coverage (u ''expected'')) (\<lambda>e. Inr (direct_eq c e))))
            (eq_rule (item coverage (u ''dropped'')) (JInt 0)))"

definition clean_result :: "json \<Rightarrow> bool res" where
  "clean_result record = eq_rule (path2 record ''verdict'' ''result'') (js ''clean'')"

definition monitor_counts :: "json \<Rightarrow> json \<Rightarrow> json list res" where
  "monitor_counts coverage verdict =
     mapr (\<lambda>(v, k). item v (u k))
       [(coverage, ''expected''), (coverage, ''collected''), (coverage, ''dropped''), (verdict, ''decisions''),
        (verdict, ''effectiveActions'')]"

definition counts_invalid :: "std \<Rightarrow> json \<Rightarrow> bool res" where
  "counts_invalid sd record =
     bindr (item record (u ''coverage'')) (\<lambda>coverage. bindr (item record (u ''verdict'')) (\<lambda>verdict.
     bindr (monitor_counts coverage verdict) (\<lambda>counts.
       case counts of
         [e, c, d, n, a] \<Rightarrow>
           orr (anyr (\<lambda>v. num_less v (JInt 0)) counts)
          (orr (bindr (num_add sd c d) (num_less e)) (num_less n a))
       | _ \<Rightarrow> Inl ValueError)))"

definition effect_of :: "json \<Rightarrow> json res" where
  "effect_of record = get_item record (u ''effect'')"

definition in_vantage :: "json \<Rightarrow> json \<Rightarrow> bool res" where
  "in_vantage record effect =
     bindr (item effect (u ''channel'')) (\<lambda>c. bindr (path2 record ''monitor'' ''channels'') (contains c))"

definition outside_vantage :: "json \<Rightarrow> bool res" where
  "outside_vantage record =
     bindr (effect_of record) (\<lambda>effect.
       andr (clean_result record)
      (andr (Inr (effect \<noteq> JNull))
            (bindr (in_vantage record effect) (\<lambda>b. Inr (\<not> b)))))"

definition effect_in_window :: "std \<Rightarrow> json \<Rightarrow> json \<Rightarrow> bool res" where
  "effect_in_window sd window effect =
     bindr (bindr (item window (u ''start'')) (at_of sd)) (\<lambda>s.
     bindr (bindr (item effect (u ''at'')) (at_of sd)) (\<lambda>t.
       andr (moment_le s t) (bindr (bindr (item window (u ''end'')) (at_of sd)) (moment_less t))))"

definition contradicted :: "std \<Rightarrow> json \<Rightarrow> bool res" where
  "contradicted sd record =
     bindr (effect_of record) (\<lambda>effect. bindr (item record (u ''window'')) (\<lambda>window.
       andr (clean_result record)
      (andr (Inr (effect \<noteq> JNull))
      (andr (complete record)
      (andr (in_vantage record effect) (effect_in_window sd window effect))))))"

definition defence_effect_unearned :: "json \<Rightarrow> bool res" where
  "defence_effect_unearned record =
     bindr (get_item record (u ''claim'')) (\<lambda>claim.
       andr (Inr (claim \<noteq> JNull))
      (andr (eq_rule (item claim (u ''kind'')) (js ''defence_reduced_harm''))
            (eq_rule (path2 record ''verdict'' ''effectiveActions'') (JInt 0))))"

definition window_invalid :: "std \<Rightarrow> json \<Rightarrow> bool res" where
  "window_invalid sd window =
     bindr (bindr (item window (u ''end'')) (at_of sd)) (\<lambda>e.
     bindr (bindr (item window (u ''start'')) (at_of sd)) (\<lambda>s. moment_le e s))"

definition monitor_failure :: "std \<Rightarrow> json \<Rightarrow> string option res" where
  "monitor_failure sd record =
     bindr (item record (u ''window'')) (\<lambda>window.
       first_failed (contract_rules MONITOR_CONTRACT_ID record @
         [(''window_invalid'', window_invalid sd window),
          (''coverage_counts_invalid'', counts_invalid sd record),
          (''coverage_self_reported'',
             andr (clean_result record)
               (bindr (path2 record ''coverage'' ''basis'') (\<lambda>v. Inr (v \<noteq> js ''collector_count'')))),
          (''clean_with_incomplete_coverage'',
             andr (clean_result record) (bindr (complete record) (\<lambda>b. Inr (\<not> b)))),
          (''clean_outside_vantage'', outside_vantage record),
          (''clean_contradicts_observed_effect'', contradicted sd record),
          (''defence_effect_without_effective_actions'', defence_effect_unearned record)]))"

definition monitor_verify :: "std \<Rightarrow> case_files \<Rightarrow> verdict res" where
  "monitor_verify sd = judged_record ''verdict_supported'' (monitor_failure sd)"

definition monitor_retained :: "json \<Rightarrow> json res" where
  "monitor_retained record =
     bindr (complete record) (\<lambda>c.
     bindr (path2 record ''verdict'' ''decisions'') (\<lambda>d.
     bindr (path2 record ''verdict'' ''effectiveActions'') (\<lambda>a.
     bindr (path2 record ''monitor'' ''id'') (\<lambda>m.
     bindr (path2 record ''verdict'' ''result'') (\<lambda>r.
       Inr (JObj [(u ''complete'', JBool c), (u ''decisions'', d), (u ''effectiveActions'', a),
                  (u ''monitor'', m), (u ''result'', r)]))))))"

definition monitor_suite :: "std \<Rightarrow> suite_reader" where
  "monitor_suite sd =
     \<lparr>su_name = ''monitor-coverage/v1'', su_verify = monitor_verify sd, su_keep = monitor_retained,
      su_exits = EXIT_FOR\<rparr>"

lemma monitor_failure_declared: "monitor_failure sd record = Inr (Some n) \<Longrightarrow> n \<in> set MONITOR_CHECKS"
  unfolding monitor_failure_def bindr_Inr_iff
  by (elim exE conjE, drule first_failed_name) (auto simp: contract_rules_def MONITOR_CHECKS_def)

interpretation monitor: corpus_reader "monitor_verify sd" EXIT_FOR
  "allow_deny_reasons [''verdict_supported''] MONITOR_CHECKS" for sd
  unfolding monitor_verify_def by (rule judged_record_reader) (rule monitor_failure_declared, simp_all add: MONITOR_CHECKS_def)

section \<open>What a monitor verdict says\<close>

text \<open>
  A verdict as numbers, sets and instants: the window, the collector's counts, who counted, the channels
  the monitor reads, the effect another source observed (its channel and instant), and whether the record
  claims that the defence reduced harm.
\<close>

record monitoring =
  mg_start :: int
  mg_end :: int
  mg_expected :: int
  mg_collected :: int
  mg_dropped :: int
  mg_decisions :: int
  mg_actions :: int
  mg_by_collector :: bool
  mg_clean :: bool
  mg_channels :: "ustr set"
  mg_effect :: "(ustr \<times> int) option"
  mg_reduced_harm :: bool

definition supported :: "monitoring \<Rightarrow> bool" where
  "supported m \<longleftrightarrow>
     mg_start m < mg_end m \<and>
     0 \<le> mg_expected m \<and> 0 \<le> mg_collected m \<and> 0 \<le> mg_dropped m \<and> 0 \<le> mg_decisions m \<and> 0 \<le> mg_actions m \<and>
     mg_collected m + mg_dropped m \<le> mg_expected m \<and> mg_actions m \<le> mg_decisions m \<and>
     (mg_clean m \<longrightarrow>
        mg_by_collector m \<and> mg_collected m = mg_expected m \<and>
        (\<forall>c t. mg_effect m = Some (c, t) \<longrightarrow> c \<in> mg_channels m \<and> \<not> (mg_start m \<le> t \<and> t < mg_end m))) \<and>
     (mg_reduced_harm m \<longrightarrow> mg_actions m \<noteq> 0)"

text \<open>A record that carries the verdict \<open>m\<close>; members beyond these may be there.\<close>

definition carries_effect :: "std \<Rightarrow> json \<Rightarrow> monitoring \<Rightarrow> bool" where
  "carries_effect sd record m \<longleftrightarrow>
     (case mg_effect m of
        None \<Rightarrow> effect_of record = Inr JNull
      | Some (c, t) \<Rightarrow>
          \<exists>e s. effect_of record = Inr e \<and> e \<noteq> JNull \<and> item e (u ''channel'') = Inr (JStr c) \<and>
            item e (u ''at'') = Inr (JStr s) \<and> sd_iso sd (utc_offset s) = Some (Aware t))"

definition carries_claim :: "json \<Rightarrow> monitoring \<Rightarrow> bool" where
  "carries_claim record m \<longleftrightarrow>
     (\<exists>claim. get_item record (u ''claim'') = Inr claim \<and>
       (if claim = JNull then \<not> mg_reduced_harm m
        else \<exists>k. item claim (u ''kind'') = Inr (JStr k) \<and> (k = u ''defence_reduced_harm'') = mg_reduced_harm m))"

definition carries_monitoring :: "std \<Rightarrow> json \<Rightarrow> monitoring \<Rightarrow> bool" where
  "carries_monitoring sd record m \<longleftrightarrow>
     (\<exists>w s e cs b r coverage verdict. item record (u ''contractId'') = Inr (JStr MONITOR_CONTRACT_ID) \<and>
       item record (u ''window'') = Inr w \<and> item w (u ''start'') = Inr (JStr s) \<and> item w (u ''end'') = Inr (JStr e) \<and>
       sd_iso sd (utc_offset s) = Some (Aware (mg_start m)) \<and> sd_iso sd (utc_offset e) = Some (Aware (mg_end m)) \<and>
       item record (u ''coverage'') = Inr coverage \<and> item record (u ''verdict'') = Inr verdict \<and>
       monitor_counts coverage verdict =
         Inr (map JInt [mg_expected m, mg_collected m, mg_dropped m, mg_decisions m, mg_actions m]) \<and>
       item coverage (u ''basis'') = Inr (JStr b) \<and> (b = u ''collector_count'') = mg_by_collector m \<and>
       item verdict (u ''result'') = Inr (JStr r) \<and> (r = u ''clean'') = mg_clean m \<and>
       path2 record ''monitor'' ''channels'' = Inr (JArr (map JStr cs)) \<and> set cs = mg_channels m) \<and>
     carries_effect sd record m \<and> carries_claim record m"

lemma monitor_counts_Inr:
  "monitor_counts coverage verdict = Inr [e, c, d, n, a] \<longleftrightarrow>
     item coverage (u ''expected'') = Inr e \<and> item coverage (u ''collected'') = Inr c \<and> item coverage (u ''dropped'') = Inr d \<and>
     item verdict (u ''decisions'') = Inr n \<and> item verdict (u ''effectiveActions'') = Inr a"
  by (auto simp: monitor_counts_def bindr_Inr_iff)

lemma anyr_negative: "anyr (\<lambda>v. num_less v (JInt 0)) (map JInt ns) = Inr (list_ex (\<lambda>n. n < 0) ns)"
  by (induction ns) auto

lemma py_in_strings: "py_in (JStr s) (map JStr cs) \<longleftrightarrow> s \<in> set cs"
  by (auto simp: py_in_JStr)

lemma monitor_decides:
  assumes "carries_monitoring sd record m"
  shows "(monitor_failure sd record = Inr None) = supported m"
proof -
  from assms obtain w s e cs b r coverage verdict where
    c: "item record (u ''contractId'') = Inr (JStr MONITOR_CONTRACT_ID)"
    and w: "item record (u ''window'') = Inr w" "item w (u ''start'') = Inr (JStr s)" "item w (u ''end'') = Inr (JStr e)"
      "sd_iso sd (utc_offset s) = Some (Aware (mg_start m))" "sd_iso sd (utc_offset e) = Some (Aware (mg_end m))"
    and cv: "item record (u ''coverage'') = Inr coverage" and vd: "item record (u ''verdict'') = Inr verdict"
    and counts: "monitor_counts coverage verdict =
        Inr (map JInt [mg_expected m, mg_collected m, mg_dropped m, mg_decisions m, mg_actions m])"
    and b: "item coverage (u ''basis'') = Inr (JStr b)" "(b = u ''collector_count'') = mg_by_collector m"
    and r: "item verdict (u ''result'') = Inr (JStr r)" "(r = u ''clean'') = mg_clean m"
    and cs: "path2 record ''monitor'' ''channels'' = Inr (JArr (map JStr cs))" "set cs = mg_channels m"
    and effect: "carries_effect sd record m" and claim: "carries_claim record m"
    unfolding carries_monitoring_def by blast
  note n = counts [unfolded list.map monitor_counts_Inr]
  have contract: "list_all (\<lambda>(n, b). b = Inr False) (contract_rules MONITOR_CONTRACT_ID record)"
    using c by (rule contract_rules_pass)
  have complete: "complete record = Inr (mg_collected m = mg_expected m \<and> mg_dropped m = 0)"
    by (simp add: complete_def cv n andr_def eq_rule_def)
  have clean: "clean_result record = Inr (mg_clean m)" by (simp add: clean_result_def vd r eq_rule_def)
  have invalid: "counts_invalid sd record = Inr (list_ex (\<lambda>n. n < 0)
        [mg_expected m, mg_collected m, mg_dropped m, mg_decisions m, mg_actions m] \<or>
      mg_expected m < mg_collected m + mg_dropped m \<or> mg_decisions m < mg_actions m)"
    unfolding counts_invalid_def cv vd counts bindr_simps anyr_negative
    by (simp add: orr_def num_add_def)
  have channel: "in_vantage record x = Inr (c \<in> mg_channels m)" if "item x (u ''channel'') = Inr (JStr c)" for x c
    unfolding in_vantage_def that bindr_simps cs(1) using cs(2) by (simp add: py_in_strings)
  have out: "outside_vantage record = Inr (mg_clean m \<and> (\<exists>c t. mg_effect m = Some (c, t) \<and> c \<notin> mg_channels m))"
    using effect by (auto simp: outside_vantage_def carries_effect_def clean andr_def channel split: option.splits)
  have contra: "contradicted sd record = Inr (mg_clean m \<and> mg_collected m = mg_expected m \<and> mg_dropped m = 0 \<and>
      (\<exists>c t. mg_effect m = Some (c, t) \<and> c \<in> mg_channels m \<and> mg_start m \<le> t \<and> t < mg_end m))"
    using effect w
    by (auto simp: contradicted_def carries_effect_def clean complete andr_def channel effect_in_window_def split: option.splits)
  have unearned: "defence_effect_unearned record = Inr (mg_reduced_harm m \<and> mg_actions m = 0)"
    using claim by (auto simp: defence_effect_unearned_def carries_claim_def andr_def eq_rule_def vd n split: if_splits)
  show ?thesis
    unfolding monitor_failure_def w(1) bindr_simps first_failed_None supported_def
    by (auto simp: contract clean complete invalid out contra unearned window_invalid_def w cv b andr_def)
qed

end
