(* ===== verification/Propagation.thy ===== *)
theory Propagation
  imports Decisions
begin

text \<open>
  The reader of attributions of \<open>packaging/agent_evidence_vectors/propagationstep.py\<close>: whether a report
  that a compromise propagated from one agent to another, or that both had a common cause, is carried by
  the message log, the cited chain and the exposures of its record.
\<close>

section \<open>The rules\<close>

definition PROPAGATION_CONTRACT_ID :: ustr where
  "PROPAGATION_CONTRACT_ID = u BASE @ u ''propagation-step''"

definition PROPAGATION_CHECKS :: "string list" where
  "PROPAGATION_CHECKS =
     [''contract_id_missing'', ''contract_id_unknown'', ''hop_endpoints_missing'', ''chain_digest_mismatch'',
      ''chain_not_connected'', ''edge_after_effect'', ''propagation_without_edge'', ''common_cause_unsupported'']"

text \<open>The message log by identifier; of messages with one identifier, the last.\<close>

definition messages_of :: "json \<Rightarrow> (json \<times> json) list res" where
  "messages_of record =
     bindr (bindr (item record (u ''messages'')) py_iter)
       (mapr (\<lambda>m. bindr (item m (u ''id'')) (\<lambda>k. bindr (hash_check k) (\<lambda>_. Inr (k, m)))))"

definition find_message :: "(json \<times> json) list \<Rightarrow> json \<Rightarrow> json option res" where
  "find_message ms k = bindr (hash_check k) (\<lambda>_. Inr (map_option snd (find (\<lambda>(k', _). py_eq k k') (rev ms))))"

definition linked_message :: "json \<Rightarrow> json \<Rightarrow> json res" where
  "linked_message record link =
     bindr (messages_of record) (\<lambda>ms. bindr (item link (u ''messageId'')) (\<lambda>k.
     bindr (find_message ms k) (\<lambda>m. case m of None \<Rightarrow> Inl KeyError | Some v \<Rightarrow> Inr v)))"

definition chain_links :: "json \<Rightarrow> json list res" where
  "chain_links record = bindr (item record (u ''chain'')) py_iter"

definition digest_mismatch :: "json \<Rightarrow> bool res" where
  "digest_mismatch record =
     bindr (messages_of record) (\<lambda>ms. bindr (chain_links record)
       (anyr (\<lambda>link.
          bindr (item link (u ''messageId'')) (\<lambda>k. bindr (find_message ms k) (\<lambda>m.
            case m of
              None \<Rightarrow> Inr True
            | Some v \<Rightarrow>
                bindr (item v (u ''digest'')) (\<lambda>a. bindr (item link (u ''digest'')) (\<lambda>b.
                  Inr (\<not> direct_eq a b))))))))"

definition differ :: "json res \<Rightarrow> json res \<Rightarrow> bool res" where
  "differ a b = bindr a (\<lambda>v. bindr b (\<lambda>w. Inr (\<not> direct_eq v w)))"

definition not_connected :: "json \<Rightarrow> bool res" where
  "not_connected record =
     bindr (item record (u ''chain'')) (\<lambda>chain. bindr (item record (u ''hop'')) (\<lambda>hop.
       if \<not> truthy chain then Inr False
       else
         bindr (bindr (py_iter chain) (mapr (linked_message record))) (\<lambda>sent.
           orr (differ (item (hd sent) (u ''from'')) (item hop (u ''from'')))
          (orr (differ (item (last sent) (u ''to'')) (item hop (u ''to'')))
               (anyr (\<lambda>(a, b). differ (item a (u ''to'')) (item b (u ''from''))) (zip sent (tl sent)))))))"

text \<open>
  \<open>sent != sorted(sent)\<close>: a sort of several dates compares a date that has an offset with one that has
  none as soon as both kinds occur.
\<close>

definition unsorted_moments :: "date_time list \<Rightarrow> bool res" where
  "unsorted_moments ts =
     (if list_all is_aware ts \<or> list_all (\<lambda>t. \<not> is_aware t) ts then Inr (\<not> sorted_wrt (\<le>) ts)
      else Inl TypeError)"

definition effect_at :: "std \<Rightarrow> json \<Rightarrow> date_time res" where
  "effect_at sd record = bindr (path2 record ''effect'' ''at'') (at_of sd)"

definition after_effect :: "std \<Rightarrow> json \<Rightarrow> bool res" where
  "after_effect sd record =
     bindr (bindr (chain_links record)
       (mapr (\<lambda>link. bindr (linked_message record link) (\<lambda>m. bindr (item m (u ''sentAt'')) (at_of sd))))) (\<lambda>sent.
     bindr (effect_at sd record) (\<lambda>effect.
       orr (unsorted_moments sent) (anyr (moment_le effect) sent)))"

definition exposed_sources :: "std \<Rightarrow> json \<Rightarrow> date_time \<Rightarrow> json \<Rightarrow> json list res" where
  "exposed_sources sd record effect agent =
     bindr (bindr (item record (u ''exposures'')) py_iter) (\<lambda>es.
     bindr (mapr (\<lambda>e. bindr (item e (u ''agent'')) (\<lambda>a.
         bindr (andr (Inr (direct_eq a agent)) (bindr (bindr (item e (u ''at'')) (at_of sd)) (\<lambda>t. moment_less t effect)))
           (\<lambda>b. if b then bindr (item e (u ''source'')) (\<lambda>s. bindr (hash_check s) (\<lambda>_. Inr [s])) else Inr []))) es)
       (\<lambda>ss. Inr (concat ss)))"

definition common_cause_unsupported :: "std \<Rightarrow> json \<Rightarrow> bool res" where
  "common_cause_unsupported sd record =
     bindr (item record (u ''hop'')) (\<lambda>hop. bindr (item hop (u ''attributedAs'')) (\<lambda>kind.
       if kind \<noteq> js ''common_cause'' then Inr False
       else
         bindr (effect_at sd record) (\<lambda>effect.
         bindr (bindr (item hop (u ''from'')) (exposed_sources sd record effect)) (\<lambda>xs.
         bindr (bindr (item hop (u ''to'')) (exposed_sources sd record effect)) (\<lambda>ys.
           Inr (\<not> list_ex (\<lambda>x. py_in x ys) xs))))))"

definition endpoints_missing :: "json \<Rightarrow> bool res" where
  "endpoints_missing hop =
     orr (bindr (get_item hop (u ''from'')) (\<lambda>v. Inr (\<not> truthy v)))
    (orr (bindr (get_item hop (u ''to'')) (\<lambda>v. Inr (\<not> truthy v)))
         (bindr (item hop (u ''from'')) (\<lambda>a. bindr (item hop (u ''to'')) (\<lambda>b. Inr (direct_eq a b)))))"

definition propagation_failure :: "std \<Rightarrow> json \<Rightarrow> string option res" where
  "propagation_failure sd record =
     bindr (item record (u ''hop'')) (\<lambda>hop.
       first_failed (contract_rules PROPAGATION_CONTRACT_ID record @
         [(''hop_endpoints_missing'', endpoints_missing hop),
          (''chain_digest_mismatch'', digest_mismatch record),
          (''chain_not_connected'', not_connected record),
          (''edge_after_effect'', after_effect sd record),
          (''propagation_without_edge'',
             andr (eq_rule (item hop (u ''attributedAs'')) (js ''propagation''))
               (bindr (item record (u ''chain'')) (\<lambda>v. Inr (\<not> truthy v)))),
          (''common_cause_unsupported'', common_cause_unsupported sd record)]))"

definition propagation_verify :: "std \<Rightarrow> case_files \<Rightarrow> verdict res" where
  "propagation_verify sd = judged_record ''attribution_supported'' (propagation_failure sd)"

text \<open>\<open>hop.get(k, "")\<close>.\<close>

definition get_or_empty :: "json \<Rightarrow> ustr \<Rightarrow> json res" where
  "get_or_empty v k = bindr (get_item v k) (\<lambda>x. Inr (if has_key (as_dict v) k then x else JStr []))"

definition propagation_retained :: "json \<Rightarrow> json res" where
  "propagation_retained record =
     bindr (item record (u ''hop'')) (\<lambda>hop.
     bindr (item hop (u ''attributedAs'')) (\<lambda>kind.
     bindr (bindr (item record (u ''chain'')) py_len) (\<lambda>n.
     bindr (get_or_empty hop (u ''from'')) (\<lambda>a.
     bindr (get_or_empty hop (u ''to'')) (\<lambda>b.
       Inr (JObj [(u ''attributedAs'', kind), (u ''chainLength'', JInt (int n)), (u ''from'', a), (u ''to'', b)]))))))"

definition propagation_suite :: "std \<Rightarrow> suite_reader" where
  "propagation_suite sd =
     \<lparr>su_name = ''propagation-step/v1'', su_verify = propagation_verify sd, su_keep = propagation_retained,
      su_exits = EXIT_FOR\<rparr>"

lemma propagation_failure_declared:
  "propagation_failure sd record = Inr (Some n) \<Longrightarrow> n \<in> set PROPAGATION_CHECKS"
  unfolding propagation_failure_def bindr_Inr_iff
  by (elim exE conjE, drule first_failed_name) (auto simp: contract_rules_def PROPAGATION_CHECKS_def)

interpretation propagation: corpus_reader "propagation_verify sd" EXIT_FOR
  "allow_deny_reasons [''attribution_supported''] PROPAGATION_CHECKS" for sd
  unfolding propagation_verify_def
  by (rule judged_record_reader) (rule propagation_failure_declared, simp_all add: PROPAGATION_CHECKS_def)

end
