(* ===== verification/PropagationSpec.thy ===== *)
theory PropagationSpec
  imports Propagation
begin

text \<open>
  The reader of attributions against its meaning: on a record whose members are strings and dates with an
  offset it decides exactly the support of the hop, and a hop is supported as propagation by some chain
  exactly when messages relayed the compromise from the one agent to the other before the effect.
\<close>

section \<open>Hops\<close>

record logged =
  ms_id :: ustr
  ms_digest :: ustr
  ms_from :: ustr
  ms_to :: ustr
  ms_at :: int

record hop_claim =
  hc_from :: ustr
  hc_to :: ustr
  hc_kind :: ustr
  hc_messages :: "logged list"
  hc_chain :: "(ustr \<times> ustr) list"
  hc_effect :: int
  hc_exposures :: "(ustr \<times> ustr \<times> int) list"

definition logged_as :: "logged list \<Rightarrow> ustr \<Rightarrow> logged option" where
  "logged_as ms k = find (\<lambda>m. ms_id m = k) (rev ms)"

definition sent_chain :: "hop_claim \<Rightarrow> logged list" where
  "sent_chain h = map (\<lambda>(k, _). the (logged_as (hc_messages h) k)) (hc_chain h)"

definition chain_logged :: "hop_claim \<Rightarrow> bool" where
  "chain_logged h \<longleftrightarrow>
     list_all (\<lambda>(k, d). case logged_as (hc_messages h) k of None \<Rightarrow> False | Some m \<Rightarrow> ms_digest m = d) (hc_chain h)"

definition connects :: "ustr \<Rightarrow> ustr \<Rightarrow> logged list \<Rightarrow> bool" where
  "connects a b ms \<longleftrightarrow>
     ms = [] \<or> ms_from (hd ms) = a \<and> ms_to (last ms) = b \<and> list_all (\<lambda>(m, n). ms_to m = ms_from n) (zip ms (tl ms))"

definition common_source :: "hop_claim \<Rightarrow> bool" where
  "common_source h \<longleftrightarrow>
     (\<exists>s t t'. (hc_from h, s, t) \<in> set (hc_exposures h) \<and> t < hc_effect h \<and>
        (hc_to h, s, t') \<in> set (hc_exposures h) \<and> t' < hc_effect h)"

definition supported_hop :: "hop_claim \<Rightarrow> bool" where
  "supported_hop h \<longleftrightarrow>
     hc_from h \<noteq> [] \<and> hc_to h \<noteq> [] \<and> hc_from h \<noteq> hc_to h \<and> chain_logged h \<and>
     connects (hc_from h) (hc_to h) (sent_chain h) \<and>
     sorted (map ms_at (sent_chain h)) \<and> list_all (\<lambda>m. ms_at m < hc_effect h) (sent_chain h) \<and>
     (hc_kind h = u ''propagation'' \<longrightarrow> hc_chain h \<noteq> []) \<and> (hc_kind h = u ''common_cause'' \<longrightarrow> common_source h)"

section \<open>The record of a hop\<close>

definition carries_time :: "std \<Rightarrow> json \<Rightarrow> string \<Rightarrow> int \<Rightarrow> bool" where
  "carries_time sd v k t \<longleftrightarrow> (\<exists>s. item v (u k) = Inr (JStr s) \<and> sd_iso sd (utc_offset s) = Some (Aware t))"

definition carries_message :: "std \<Rightarrow> json \<Rightarrow> logged \<Rightarrow> bool" where
  "carries_message sd v m \<longleftrightarrow>
     item v (u ''id'') = Inr (JStr (ms_id m)) \<and> item v (u ''digest'') = Inr (JStr (ms_digest m)) \<and>
     item v (u ''from'') = Inr (JStr (ms_from m)) \<and> item v (u ''to'') = Inr (JStr (ms_to m)) \<and>
     carries_time sd v ''sentAt'' (ms_at m)"

definition carries_link :: "json \<Rightarrow> ustr \<times> ustr \<Rightarrow> bool" where
  "carries_link v l \<longleftrightarrow> item v (u ''messageId'') = Inr (JStr (fst l)) \<and> item v (u ''digest'') = Inr (JStr (snd l))"

definition carries_exposure :: "std \<Rightarrow> json \<Rightarrow> ustr \<times> ustr \<times> int \<Rightarrow> bool" where
  "carries_exposure sd v x \<longleftrightarrow>
     (case x of (a, s, t) \<Rightarrow>
       item v (u ''agent'') = Inr (JStr a) \<and> item v (u ''source'') = Inr (JStr s) \<and> carries_time sd v ''at'' t)"

definition carries_hop :: "std \<Rightarrow> json \<Rightarrow> hop_claim \<Rightarrow> bool" where
  "carries_hop sd record h \<longleftrightarrow>
     (\<exists>hop ms ls xs e. item record (u ''contractId'') = Inr (JStr PROPAGATION_CONTRACT_ID) \<and>
       item record (u ''hop'') = Inr hop \<and> item hop (u ''from'') = Inr (JStr (hc_from h)) \<and>
       item hop (u ''to'') = Inr (JStr (hc_to h)) \<and> item hop (u ''attributedAs'') = Inr (JStr (hc_kind h)) \<and>
       item record (u ''messages'') = Inr (JArr ms) \<and> list_all2 (carries_message sd) ms (hc_messages h) \<and>
       item record (u ''chain'') = Inr (JArr ls) \<and> list_all2 carries_link ls (hc_chain h) \<and>
       item record (u ''exposures'') = Inr (JArr xs) \<and> list_all2 (carries_exposure sd) xs (hc_exposures h) \<and>
       item record (u ''effect'') = Inr e \<and> carries_time sd e ''at'' (hc_effect h))"

lemma mapr_list_all2:
  "list_all2 R xs ys \<Longrightarrow> (\<And>x y. R x y \<Longrightarrow> f x = Inr (g x y)) \<Longrightarrow> mapr f xs = Inr (map2 g xs ys)"
  by (induction rule: list_all2_induct) auto

lemma anyr_list_all2:
  "list_all2 R xs ys \<Longrightarrow> (\<And>x y. R x y \<Longrightarrow> p x = Inr (q y)) \<Longrightarrow> anyr p xs = Inr (list_ex q ys)"
  by (induction rule: list_all2_induct) auto

lemma carries_time_at: "carries_time sd v k t \<Longrightarrow> bindr (item v (u k)) (at_of sd) = Inr (Aware t)"
  by (auto simp: carries_time_def)

text \<open>The message found for an identifier is the one logged under it.\<close>

lemma find_logged:
  assumes "list_all2 (carries_message sd) vs ms"
  shows "case find (\<lambda>(k', _). py_eq (JStr k) k') (rev (map2 (\<lambda>v m. (JStr (ms_id m), v)) vs ms)) of
      None \<Rightarrow> logged_as ms k = None
    | Some (_, v) \<Rightarrow> \<exists>m. logged_as ms k = Some m \<and> carries_message sd v m"
proof -
  have *: "case find (\<lambda>(k', _). py_eq (JStr k) k') (map2 (\<lambda>v m. (JStr (ms_id m), v)) xs ys) of
      None \<Rightarrow> find (\<lambda>m. ms_id m = k) ys = None
    | Some (_, v) \<Rightarrow> \<exists>m. find (\<lambda>m. ms_id m = k) ys = Some m \<and> carries_message sd v m"
    if "list_all2 (carries_message sd) xs ys" for xs ys
    using that by (induction rule: list_all2_induct) (auto split: option.splits)
  have "rev (map2 (\<lambda>v m. (JStr (ms_id m), v)) vs ms) = map2 (\<lambda>v m. (JStr (ms_id m), v)) (rev vs) (rev ms)"
    using assms by (simp add: zip_rev rev_map list_all2_lengthD)
  moreover have "list_all2 (carries_message sd) (rev vs) (rev ms)" using assms by (simp add: list_all2_rev)
  note * [OF this]
  ultimately show ?thesis unfolding logged_as_def by (simp only:)
qed

text \<open>The log and the chain of a record, as parsed.\<close>

definition carries_chain :: "std \<Rightarrow> json \<Rightarrow> hop_claim \<Rightarrow> json list \<Rightarrow> json list \<Rightarrow> bool" where
  "carries_chain sd rc h vs ls \<longleftrightarrow>
     item rc (u ''messages'') = Inr (JArr vs) \<and> list_all2 (carries_message sd) vs (hc_messages h) \<and>
     item rc (u ''chain'') = Inr (JArr ls) \<and> list_all2 carries_link ls (hc_chain h)"

abbreviation log_pairs :: "json list \<Rightarrow> logged list \<Rightarrow> (json \<times> json) list" where
  "log_pairs vs ms \<equiv> map2 (\<lambda>v m. (JStr (ms_id m), v)) vs ms"

lemma carried_messages:
  assumes "carries_chain sd rc h vs ls"
  shows "messages_of rc = Inr (log_pairs vs (hc_messages h))"
proof -
  from assms have v: "item rc (u ''messages'') = Inr (JArr vs)" "list_all2 (carries_message sd) vs (hc_messages h)"
    by (simp_all add: carries_chain_def)
  show ?thesis unfolding messages_of_def v(1) bindr_simps py_iter.simps
    by (rule mapr_list_all2 [OF v(2)]) (simp add: carries_message_def)
qed

lemma carried_found:
  assumes "carries_chain sd rc h vs ls"
  shows "\<exists>r. find_message (log_pairs vs (hc_messages h)) (JStr k) = Inr r \<and>
     (case r of None \<Rightarrow> logged_as (hc_messages h) k = None
      | Some v \<Rightarrow> \<exists>m. logged_as (hc_messages h) k = Some m \<and> carries_message sd v m)"
proof -
  have "list_all2 (carries_message sd) vs (hc_messages h)" using assms by (simp add: carries_chain_def)
  from find_logged [OF this, of k] show ?thesis by (auto simp: find_message_def split: option.splits)
qed

lemma carried_mismatch:
  assumes c: "carries_chain sd rc h vs ls"
  shows "digest_mismatch rc = Inr (\<not> chain_logged h)"
proof -
  let ?q = "\<lambda>kd. case kd of (k, d) \<Rightarrow> (case logged_as (hc_messages h) k of None \<Rightarrow> True | Some m \<Rightarrow> ms_digest m \<noteq> d)"
  from c have l: "item rc (u ''chain'') = Inr (JArr ls)" "list_all2 carries_link ls (hc_chain h)"
    by (simp_all add: carries_chain_def)
  have "digest_mismatch rc = Inr (list_ex ?q (hc_chain h))"
    unfolding digest_mismatch_def carried_messages [OF c] chain_links_def l(1) bindr_simps py_iter.simps
  proof (rule anyr_list_all2 [OF l(2)])
    fix l kd assume "carries_link l kd"
    then show "bindr (item l (u ''messageId'')) (\<lambda>k. bindr (find_message (log_pairs vs (hc_messages h)) k)
        (\<lambda>m. case m of None \<Rightarrow> Inr True | Some v \<Rightarrow> bindr (item v (u ''digest'')) (\<lambda>a. bindr (item l (u ''digest''))
          (\<lambda>b. Inr (\<not> direct_eq a b))))) = Inr (?q kd)"
      using carried_found [OF c, of "fst kd"] by (auto simp: carries_link_def carries_message_def split: option.splits)
  qed
  moreover have "list_ex ?q kds \<longleftrightarrow>
      \<not> list_all (\<lambda>(k, d). case logged_as (hc_messages h) k of None \<Rightarrow> False | Some m \<Rightarrow> ms_digest m = d) kds" for kds
    by (induction kds) (auto split: option.splits)
  ultimately show ?thesis by (simp add: chain_logged_def)
qed

lemma carried_sent:
  assumes c: "carries_chain sd rc h vs ls" and "chain_logged h"
  shows "\<exists>ws. mapr (linked_message rc) ls = Inr ws \<and> list_all2 (carries_message sd) ws (sent_chain h)"
proof -
  have linked: "\<exists>v. linked_message rc l = Inr v \<and> carries_message sd v m"
    if "carries_link l (k, d)" "logged_as (hc_messages h) k = Some m" for l k d m
    using carried_found [OF c, of k] that
    by (auto simp: linked_message_def carried_messages [OF c] carries_link_def split: option.splits)
  have "list_all2 carries_link ls (hc_chain h)" using c by (simp add: carries_chain_def)
  then show ?thesis using assms(2) unfolding sent_chain_def chain_logged_def
  proof (induction rule: list_all2_induct)
    case (Cons l ls kd kds)
    obtain k d where kd: "kd = (k, d)" by (cases kd)
    with Cons.prems obtain m where m: "logged_as (hc_messages h) k = Some m" by (auto split: option.splits)
    from linked [OF Cons.hyps(1) [unfolded kd] m] Cons show ?case using kd m by auto
  qed simp
qed

lemma differ_strings: "a = Inr (JStr s) \<Longrightarrow> b = Inr (JStr t) \<Longrightarrow> differ a b = Inr (s \<noteq> t)"
  by (simp add: differ_def)

lemma carried_connected:
  assumes c: "carries_chain sd rc h vs ls" and "chain_logged h" and hop: "item rc (u ''hop'') = Inr hop"
    and ends: "item hop (u ''from'') = Inr (JStr a)" "item hop (u ''to'') = Inr (JStr b)"
  shows "not_connected rc = Inr (\<not> connects a b (sent_chain h))"
proof -
  from carried_sent [OF c assms(2)] obtain ws where ws: "mapr (linked_message rc) ls = Inr ws"
    "list_all2 (carries_message sd) ws (sent_chain h)" by blast
  have ch: "item rc (u ''chain'') = Inr (JArr ls)" and len: "length ls = length (hc_chain h)"
    using c by (auto simp: carries_chain_def list_all2_lengthD)
  show ?thesis
  proof (cases "ls = []")
    case True
    with len have "sent_chain h = []" by (simp add: sent_chain_def)
    with True show ?thesis by (simp add: not_connected_def ch hop connects_def)
  next
    case False
    with len have ne: "sent_chain h \<noteq> []" by (auto simp: sent_chain_def)
    with ws(2) have wne: "ws \<noteq> []" by auto
    have hd: "carries_message sd (hd ws) (hd (sent_chain h))" and last: "carries_message sd (last ws) (last (sent_chain h))"
      using ws(2) ne wne list_all2_lengthD [OF ws(2)] by (auto simp: list_all2_conv_all_nth hd_conv_nth last_conv_nth)
    have "list_all2 (\<lambda>(v, v') (m, m'). carries_message sd v m \<and> carries_message sd v' m')
        (zip ws (tl ws)) (zip (sent_chain h) (tl (sent_chain h)))"
      using ws(2) by (auto simp: list_all2_conv_all_nth nth_tl)
    then have pairs: "anyr (\<lambda>(v, v'). differ (item v (u ''to'')) (item v' (u ''from''))) (zip ws (tl ws)) =
        Inr (list_ex (\<lambda>(m, n). ms_to m \<noteq> ms_from n) (zip (sent_chain h) (tl (sent_chain h))))"
      by (rule anyr_list_all2) (auto simp: carries_message_def intro!: differ_strings)
    have "differ (item (hd ws) (u ''from'')) (item hop (u ''from'')) = Inr (ms_from (hd (sent_chain h)) \<noteq> a)"
      "differ (item (last ws) (u ''to'')) (item hop (u ''to'')) = Inr (ms_to (last (sent_chain h)) \<noteq> b)"
      using hd last ends by (auto simp: carries_message_def intro!: differ_strings)
    with False ne pairs show ?thesis
      by (simp add: not_connected_def ch hop ws(1) orr_def connects_def list_ex_iff list_all_iff split_beta)
  qed
qed

lemma carried_after:
  assumes c: "carries_chain sd rc h vs ls" and "chain_logged h" and e: "item rc (u ''effect'') = Inr e"
    and t: "carries_time sd e ''at'' (hc_effect h)"
  shows "after_effect sd rc = Inr (\<not> (sorted (map ms_at (sent_chain h)) \<and> list_all (\<lambda>m. ms_at m < hc_effect h) (sent_chain h)))"
proof -
  from carried_sent [OF c assms(2)] obtain ws where ws: "mapr (linked_message rc) ls = Inr ws"
    "list_all2 (carries_message sd) ws (sent_chain h)" by blast
  let ?f = "\<lambda>v. bindr (item v (u ''sentAt'')) (at_of sd)"
  have split: "mapr (\<lambda>l. bindr (linked_message rc l) ?f) ls = Inr ts"
    if "mapr (linked_message rc) ls = Inr ws" "mapr ?f ws = Inr ts" for ls ws ts
    using that by (induction ls arbitrary: ws ts) (auto simp: bindr_Inr_iff)
  have "mapr ?f ws = Inr (map2 (\<lambda>v m. Aware (ms_at m)) ws (sent_chain h))"
    by (rule mapr_list_all2 [OF ws(2)]) (auto simp: carries_message_def dest: carries_time_at)
  moreover have "map2 (\<lambda>v m. Aware (ms_at m)) ws (sent_chain h) = map (\<lambda>m. Aware (ms_at m)) (sent_chain h)"
    using list_all2_lengthD [OF ws(2)] by (intro nth_equalityI) auto
  ultimately have times: "mapr (\<lambda>l. bindr (linked_message rc l) ?f) ls = Inr (map (\<lambda>m. Aware (ms_at m)) (sent_chain h))"
    using split [OF ws(1)] by simp
  have ch: "chain_links rc = Inr ls" using c by (simp add: carries_chain_def chain_links_def)
  have eff: "effect_at sd rc = Inr (Aware (hc_effect h))" using carries_time_at [OF t] by (simp add: effect_at_def e)
  have "unsorted_moments (map (\<lambda>m. Aware (ms_at m)) ms) = Inr (\<not> sorted (map ms_at ms))" for ms :: "logged list"
    by (simp add: unsorted_moments_def list_all_iff sorted_wrt_map)
  moreover have "anyr (moment_le (Aware t)) (map (\<lambda>m. Aware (ms_at m)) ms) = Inr (\<not> list_all (\<lambda>m. ms_at m < t) ms)" for ms :: "logged list" and t
    by (induction ms) auto
  ultimately show ?thesis by (simp add: after_effect_def ch times eff orr_def)
qed

definition sources_before :: "hop_claim \<Rightarrow> int \<Rightarrow> ustr \<Rightarrow> ustr set" where
  "sources_before h t a = {s. \<exists>t'. (a, s, t') \<in> set (hc_exposures h) \<and> t' < t}"

lemma carried_sources:
  assumes x: "item rc (u ''exposures'') = Inr (JArr xs)" "list_all2 (carries_exposure sd) xs (hc_exposures h)"
  shows "\<exists>ss. exposed_sources sd rc (Aware t) (JStr a) = Inr (map JStr ss) \<and> set ss = sources_before h t a"
proof -
  let ?q = "\<lambda>(b, s, t'). if b = a \<and> t' < t then [s] else []"
  have "mapr (\<lambda>e. bindr (item e (u ''agent'')) (\<lambda>b.
      bindr (andr (Inr (direct_eq b (JStr a))) (bindr (bindr (item e (u ''at'')) (at_of sd)) (\<lambda>t'. moment_less t' (Aware t))))
        (\<lambda>c. if c then bindr (item e (u ''source'')) (\<lambda>s. bindr (hash_check s) (\<lambda>_. Inr [s])) else Inr []))) xs =
    Inr (map2 (\<lambda>e y. map JStr (?q y)) xs (hc_exposures h))"
    by (rule mapr_list_all2 [OF x(2)])
       (auto simp: carries_exposure_def andr_def carries_time_at)
  moreover have "map2 (\<lambda>e y. map JStr (?q y)) xs (hc_exposures h) = map (\<lambda>y. map JStr (?q y)) (hc_exposures h)"
    using list_all2_lengthD [OF x(2)] by (intro nth_equalityI) auto
  moreover have "concat (map (\<lambda>y. map JStr (?q y)) es) = map JStr (concat (map ?q es))" for es
    by (induction es) auto
  ultimately have "exposed_sources sd rc (Aware t) (JStr a) = Inr (map JStr (concat (map ?q (hc_exposures h))))"
    by (simp add: exposed_sources_def x(1))
  moreover have "set (concat (map ?q (hc_exposures h))) = sources_before h t a"
    by (force simp: sources_before_def split: if_splits)
  ultimately show ?thesis by blast
qed

lemma propagation_decides:
  assumes "carries_hop sd rc h"
  shows "(propagation_failure sd rc = Inr None) = supported_hop h"
proof -
  from assms obtain hop vs ls xs e where
    contract: "item rc (u ''contractId'') = Inr (JStr PROPAGATION_CONTRACT_ID)"
    and hop: "item rc (u ''hop'') = Inr hop" "item hop (u ''from'') = Inr (JStr (hc_from h))"
      "item hop (u ''to'') = Inr (JStr (hc_to h))" "item hop (u ''attributedAs'') = Inr (JStr (hc_kind h))"
    and c: "carries_chain sd rc h vs ls"
    and x: "item rc (u ''exposures'') = Inr (JArr xs)" "list_all2 (carries_exposure sd) xs (hc_exposures h)"
    and effect: "item rc (u ''effect'') = Inr e" "carries_time sd e ''at'' (hc_effect h)"
    unfolding carries_hop_def carries_chain_def by blast
  have chain: "item rc (u ''chain'') = Inr (JArr ls)" "ls = [] \<longleftrightarrow> hc_chain h = []"
    using c by (auto simp: carries_chain_def)
  have get: "get_item hop (u k) = Inr (JStr s)" if "item hop (u k) = Inr (JStr s)" for k s
    using that by (cases hop) (auto simp: dget_def split: option.splits)
  have ends: "endpoints_missing hop = Inr (hc_from h = [] \<or> hc_to h = [] \<or> hc_from h = hc_to h)"
    by (simp add: endpoints_missing_def orr_def get [OF hop(2)] get [OF hop(3)] hop)
  have eff: "effect_at sd rc = Inr (Aware (hc_effect h))" using carries_time_at [OF effect(2)] by (simp add: effect_at_def effect)
  have "common_source h \<longleftrightarrow> (\<exists>s \<in> sources_before h (hc_effect h) (hc_from h). s \<in> sources_before h (hc_effect h) (hc_to h))"
    by (auto simp: common_source_def sources_before_def)
  moreover obtain as bs where "exposed_sources sd rc (Aware (hc_effect h)) (JStr (hc_from h)) = Inr (map JStr as)"
    "set as = sources_before h (hc_effect h) (hc_from h)"
    "exposed_sources sd rc (Aware (hc_effect h)) (JStr (hc_to h)) = Inr (map JStr bs)"
    "set bs = sources_before h (hc_effect h) (hc_to h)"
    using carried_sources [OF x] by metis
  ultimately have common: "common_cause_unsupported sd rc = Inr (hc_kind h = u ''common_cause'' \<and> \<not> common_source h)"
    by (auto simp: common_cause_unsupported_def hop eff list_ex_iff py_in_JStr)
  have kind: "andr (eq_rule (item hop (u ''attributedAs'')) (js ''propagation'')) (bindr (item rc (u ''chain'')) (\<lambda>v. Inr (\<not> truthy v))) =
      Inr (hc_kind h = u ''propagation'' \<and> hc_chain h = [])"
    using chain by (auto simp: andr_def eq_rule_def hop)
  show ?thesis
  proof (cases "chain_logged h")
    case True
    note rest = carried_connected [OF c True hop(1-3)] carried_after [OF c True effect]
    show ?thesis
      unfolding propagation_failure_def hop(1) bindr_simps first_failed_None supported_hop_def
      by (auto simp: contract_rules_pass [OF contract] ends carried_mismatch [OF c] True rest kind common)
  next
    case False
    then show ?thesis
      unfolding propagation_failure_def hop(1) bindr_simps first_failed_None supported_hop_def
      by (simp add: carried_mismatch [OF c])
  qed
qed

section \<open>Relays\<close>

text \<open>Messages of the log, each sent no earlier than the one before, carry from \<open>a\<close> to \<open>b\<close>, the last at \<open>t\<close>.\<close>

inductive relayed :: "logged list \<Rightarrow> ustr \<Rightarrow> ustr \<Rightarrow> int \<Rightarrow> bool" for ms a where
  direct: "m \<in> set ms \<Longrightarrow> ms_from m = a \<Longrightarrow> relayed ms a (ms_to m) (ms_at m)"
| onward: "relayed ms a (ms_from m) t \<Longrightarrow> m \<in> set ms \<Longrightarrow> t \<le> ms_at m \<Longrightarrow> relayed ms a (ms_to m) (ms_at m)"

lemma chain_relays:
  assumes "set ws \<subseteq> set ms" and "ws \<noteq> []" and "connects a b ws" and "sorted (map ms_at ws)"
  shows "relayed ms a b (ms_at (last ws))"
  using assms
proof (induction ws arbitrary: b rule: rev_induct)
  case (snoc w ws)
  show ?case
  proof (cases "ws = []")
    case True
    with snoc.prems show ?thesis using direct [of w ms a] by (auto simp: connects_def)
  next
    case False
    have z: "zip (ws @ [w]) (tl (ws @ [w])) = zip ws (tl ws) @ [(last ws, w)]"
      using False by (induction ws rule: induct_list012) auto
    from snoc.prems(3) False have "connects a (ms_from w) ws" "ms_to w = b"
      unfolding connects_def z by auto
    moreover have "ms_at (last ws) \<le> ms_at w" "sorted (map ms_at ws)" using snoc.prems(4) False by (simp_all add: sorted_append)
    ultimately show ?thesis
      using snoc.IH [of "ms_from w"] snoc.prems(1) False onward [of ms a w "ms_at (last ws)"] by simp
  qed
qed simp

lemma relay_chain:
  assumes "relayed ms a b t"
  shows "\<exists>ws. set ws \<subseteq> set ms \<and> ws \<noteq> [] \<and> connects a b ws \<and> sorted (map ms_at ws) \<and> ms_at (last ws) = t"
  using assms
proof (induction rule: relayed.induct)
  case (direct m)
  then show ?case by (intro exI [of _ "[m]"]) (simp add: connects_def)
next
  case (onward m t)
  then obtain ws where ws: "set ws \<subseteq> set ms" "ws \<noteq> []" "connects a (ms_from m) ws" "sorted (map ms_at ws)" "ms_at (last ws) = t"
    by blast
  have z: "zip (ws @ [m]) (tl (ws @ [m])) = zip ws (tl ws) @ [(last ws, m)]"
    using ws(2) by (induction ws rule: induct_list012) auto
  have "sorted (map ms_at (ws @ [m]))"
  proof -
    have "ms_at w \<le> ms_at (last ws)" if "w \<in> set ws" for w
      using ws(2,4) that by (induction ws rule: rev_induct) (auto simp: sorted_append)
    with ws(4,5) onward.hyps show ?thesis by (force simp: sorted_append)
  qed
  moreover have "connects a (ms_to m) (ws @ [m])" using ws(2,3) unfolding connects_def z by auto
  ultimately show ?case using ws(1) onward.hyps by (intro exI [of _ "ws @ [m]"]) auto
qed

text \<open>With distinct identifiers in the log, a hop is supported as propagation by some chain exactly when
  messages relayed from its one end to the other before the effect.\<close>

lemma logged_as_mem:
  "distinct (map ms_id ms) \<Longrightarrow> m \<in> set ms \<Longrightarrow> logged_as ms (ms_id m) = Some m"
  unfolding logged_as_def by (induction ms rule: rev_induct) auto

lemma logged_as_set: "logged_as ms k = Some m \<Longrightarrow> m \<in> set ms"
  unfolding logged_as_def find_Some_iff by (metis length_rev nth_mem set_rev)

lemma supported_relayed:
  assumes s: "supported_hop h" and "hc_kind h = u ''propagation''"
  shows "\<exists>t < hc_effect h. relayed (hc_messages h) (hc_from h) (hc_to h) t"
proof -
  let ?ws = "sent_chain h"
  from s assms(2) have ne: "?ws \<noteq> []" and log: "chain_logged h" by (auto simp: supported_hop_def sent_chain_def)
  have "set ?ws \<subseteq> set (hc_messages h)"
    using log by (auto simp: sent_chain_def chain_logged_def list_all_iff split: option.splits dest!: bspec intro: logged_as_set)
  then have "relayed (hc_messages h) (hc_from h) (hc_to h) (ms_at (last ?ws))"
    by (rule chain_relays) (use s ne in \<open>auto simp: supported_hop_def\<close>)
  moreover have "ms_at (last ?ws) < hc_effect h" using s ne by (auto simp: supported_hop_def list_all_iff)
  ultimately show ?thesis by blast
qed

lemma relayed_supported:
  assumes "distinct (map ms_id (hc_messages h))" and "hc_kind h = u ''propagation''"
    and "hc_from h \<noteq> []" "hc_to h \<noteq> []" "hc_from h \<noteq> hc_to h"
    and t: "t < hc_effect h" "relayed (hc_messages h) (hc_from h) (hc_to h) t"
  shows "\<exists>chain. supported_hop (h\<lparr>hc_chain := chain\<rparr>)"
proof -
  from relay_chain [OF t(2)] obtain ws where ws: "set ws \<subseteq> set (hc_messages h)" "ws \<noteq> []"
    "connects (hc_from h) (hc_to h) ws" "sorted (map ms_at ws)" "ms_at (last ws) = t" by blast
  let ?h = "h\<lparr>hc_chain := map (\<lambda>m. (ms_id m, ms_digest m)) ws\<rparr>"
  have at: "logged_as (hc_messages h) (ms_id m) = Some m" if "m \<in> set ws" for m
    using logged_as_mem [OF assms(1)] ws(1) that by blast
  then have sent: "sent_chain ?h = ws" by (simp add: sent_chain_def map_idI)
  have "ms_at m \<le> t" if "m \<in> set ws" for m
    using ws(2,4,5) that by (induction ws rule: rev_induct) (auto simp: sorted_append)
  then have "list_all (\<lambda>m. ms_at m < hc_effect h) ws" using t(1) by (fastforce simp: list_all_iff)
  then have "supported_hop ?h"
    unfolding supported_hop_def sent using ws assms at by (simp add: chain_logged_def list_all_iff)
  then show "\<exists>chain. supported_hop (h\<lparr>hc_chain := chain\<rparr>)" by blast
qed

end
