(* ===== verification/Refusal.thy ===== *)
theory Refusal
  imports Decisions
begin

text \<open>
  The reader of refusal reasons of \<open>packaging/agent_evidence_vectors/refusalreason.py\<close>: a response, the facts
  it answered over, and the reason the closed vocabulary owes; and the reader against its meaning.
\<close>

section \<open>The vocabulary\<close>

definition REFUSAL_CONTRACT_ID :: ustr where
  "REFUSAL_CONTRACT_ID = u BASE @ u ''refusal-reason-priority''"

definition REFUSAL_EXITS :: "(string \<times> int) list" where
  "REFUSAL_EXITS = [(''conformant'', 0), (''nonconformant'', 1), (''ambiguous'', 2)]"

definition FIVE :: "string list" where
  "FIVE =
     [''evidence_binding_mismatch'', ''evidence_expired'', ''authority_not_determined'', ''authority_revoked'',
      ''operation_not_permitted'']"

definition LEASE_READINGS :: "string option list" where
  "LEASE_READINGS = [None, Some ''evidence_expired'']"

definition NO_REASON :: "string option list" where
  "NO_REASON = [None]"

definition REFUSAL_CHECKS :: "string list" where
  "REFUSAL_CHECKS =
     [''contract_id_missing'', ''contract_id_unknown'', ''reason_member_absent'', ''reason_outside_closed_set'',
      ''answer_outside_both_boundary_readings'', ''refusal_without_condition'', ''condition_ignored'',
      ''later_value_emitted'', ''observation_backfilled'', ''evidence_renewed_by_diagnostic_read'']"

definition OPEN_QUESTIONS :: "string list" where
  "OPEN_QUESTIONS = [''boundary_undeclared'', ''declaration_contradicts_use'']"

section \<open>What the facts owe\<close>

definition applicable :: "json \<Rightarrow> string list res" where
  "applicable facts =
     bindr (get_item facts (u ''bindingMismatch'')) (\<lambda>mismatch.
     bindr (get_item facts (u ''evidenceExpired'')) (\<lambda>expired.
     bindr (get_item facts (u ''authority'')) (\<lambda>authority.
     bindr (get_item facts (u ''operationPermitted'')) (\<lambda>permitted.
       Inr ((if truthy mismatch then [''evidence_binding_mismatch''] else [])
          @ (if truthy expired then [''evidence_expired''] else [])
          @ (if py_in authority [js ''unreachable'', js ''staleObservation''] then [''authority_not_determined''] else [])
          @ (if direct_eq authority (js ''revoked'') then [''authority_revoked''] else [])
          @ (if permitted = JBool False then [''operation_not_permitted''] else []))))))"

definition lease_only :: "json \<Rightarrow> bool res" where
  "lease_only facts =
     bindr (get_item facts (u ''leaseInstant'')) (\<lambda>lease.
       andr (Inr (lease \<noteq> JNull)) (bindr (applicable facts) (\<lambda>found. Inr (found = []))))"

definition owed_values :: "json \<Rightarrow> string option list res" where
  "owed_values facts =
     bindr (lease_only facts) (\<lambda>b.
       if b then Inr LEASE_READINGS
       else bindr (applicable facts) (\<lambda>found. Inr (case found of [] \<Rightarrow> NO_REASON | r # _ \<Rightarrow> [Some r])))"

text \<open>\<open>str\<close> of the reason; \<open>None\<close> where there is none or it is null.\<close>

definition emitted_of :: "ctx \<Rightarrow> json \<Rightarrow> ustr option res" where
  "emitted_of cx record =
     bindr (item record (u ''response'')) (\<lambda>response. bindr (get_item response (u ''reason'')) (\<lambda>reason.
       Inr (if reason = JNull then None else Some (py_str cx reason))))"

definition among :: "ustr option \<Rightarrow> string option list \<Rightarrow> bool" where
  "among e vs \<longleftrightarrow> e \<in> set (map (map_option u) vs)"

section \<open>The rules\<close>

definition relied_fresh :: "json \<Rightarrow> bool res" where
  "relied_fresh facts =
     bindr (get_item facts (u ''reliedOnObservation'')) (\<lambda>relied.
       andr (Inr (relied \<noteq> JNull))
      (andr (bindr (get_item relied (u ''present'')) (\<lambda>v. Inr (truthy v)))
            (bindr (get_item relied (u ''fresh'')) (\<lambda>v. Inr (truthy v)))))"

definition grant_ref :: "json \<Rightarrow> string \<Rightarrow> json res" where
  "grant_ref record k = bindr (path2 record ''response'' ''grantRef'') (\<lambda>g. get_item g (u k))"

definition backfilled :: "json \<Rightarrow> bool res" where
  "backfilled record =
     bindr (item record (u ''facts'')) (\<lambda>facts. bindr (get_item facts (u ''reliedOnObservation'')) (\<lambda>relied.
     bindr (orr (Inr (relied = JNull)) (relied_fresh facts)) (\<lambda>b.
       if b then Inr False
       else bindr (grant_ref record ''observationAsOfMs'') (\<lambda>v. Inr (v \<noteq> JNull)))))"

text \<open>\<open>v > w\<close>: numbers by value, strings by code points, lists by their first difference.\<close>

fun py_less :: "json \<Rightarrow> json \<Rightarrow> bool res" where
  "py_less (JStr s) (JStr t) = Inr (s < t)"
| "py_less (JArr []) (JArr ys) = Inr (ys \<noteq> [])"
| "py_less (JArr xs) (JArr []) = Inr False"
| "py_less (JArr (x # xs)) (JArr (y # ys)) = (if py_eq x y then py_less (JArr xs) (JArr ys) else py_less x y)"
| "py_less v w = num_less v w"

definition renewed :: "json \<Rightarrow> bool res" where
  "renewed record =
     bindr (item record (u ''facts'')) (\<lambda>facts. bindr (get_item facts (u ''diagnosticRead'')) (\<lambda>diagnostic.
     bindr (orr (Inr (diagnostic = JNull)) (relied_fresh facts)) (\<lambda>b.
       if b then Inr False
       else
         bindr (grant_ref record ''expiresAtMs'') (\<lambda>expires.
           andr (Inr (expires \<noteq> JNull))
             (bindr (item facts (u ''grantExpiresAtMs'')) (\<lambda>limit. py_less limit expires))))))"

definition derived_boundary :: "json \<Rightarrow> string option res" where
  "derived_boundary lease =
     bindr (get_item lease (u ''declaredBoundary'')) (\<lambda>v.
       Inr (if v = js ''inclusive'' then None else Some ''evidence_expired''))"

definition open_question :: "ctx \<Rightarrow> json \<Rightarrow> string option res" where
  "open_question cx record =
     bindr (item record (u ''facts'')) (\<lambda>facts. bindr (get_item facts (u ''leaseInstant'')) (\<lambda>lease.
     bindr (orr (Inr (lease = JNull)) (bindr (applicable facts) (\<lambda>found. Inr (found \<noteq> [])))) (\<lambda>b.
       if b then Inr None
       else
         bindr (get_item lease (u ''declaredBoundary'')) (\<lambda>declared.
           if declared = JNull then Inr (Some ''boundary_undeclared'')
           else
             bindr (emitted_of cx record) (\<lambda>e. bindr (derived_boundary lease) (\<lambda>owed.
               Inr (if e \<noteq> map_option u owed then Some ''declaration_contradicts_use'' else None)))))))"

definition wrong_value :: "ctx \<Rightarrow> json \<Rightarrow> json \<Rightarrow> bool res" where
  "wrong_value cx record facts =
     andr (bindr (lease_only facts) (\<lambda>b. Inr (\<not> b)))
       (bindr (emitted_of cx record) (\<lambda>e. bindr (owed_values facts) (\<lambda>owed. Inr (\<not> among e owed))))"

definition refusal_rules :: "ctx \<Rightarrow> json \<Rightarrow> json \<Rightarrow> json \<Rightarrow> (string \<times> bool res) list" where
  "refusal_rules cx record response facts =
     (let e = emitted_of cx record; wrong = wrong_value cx record facts;
          none_owed = bindr (owed_values facts) (\<lambda>owed. Inr (owed = NO_REASON))
      in contract_rules REFUSAL_CONTRACT_ID record @
        [(''reason_member_absent'', bindr (contains (js ''reason'') response) (\<lambda>b. Inr (\<not> b))),
         (''reason_outside_closed_set'',
            bindr (get_item response (u ''reason'')) (\<lambda>r. Inr (r \<noteq> JNull \<and> \<not> py_in r (map js FIVE)))),
         (''answer_outside_both_boundary_readings'',
            andr (lease_only facts) (bindr e (\<lambda>e. Inr (\<not> among e LEASE_READINGS)))),
         (''refusal_without_condition'', andr wrong (andr none_owed (bindr e (\<lambda>e. Inr (e \<noteq> None))))),
         (''condition_ignored'', andr wrong (bindr e (\<lambda>e. Inr (e = None)))),
         (''later_value_emitted'',
            andr wrong (andr (bindr e (\<lambda>e. Inr (e \<noteq> None))) (bindr none_owed (\<lambda>b. Inr (\<not> b))))),
         (''observation_backfilled'', backfilled record),
         (''evidence_renewed_by_diagnostic_read'', renewed record)])"

definition refusal_failure :: "ctx \<Rightarrow> json \<Rightarrow> string option res" where
  "refusal_failure cx record =
     bindr (item record (u ''response'')) (\<lambda>response. bindr (item record (u ''facts'')) (\<lambda>facts.
       first_failed (refusal_rules cx record response facts)))"

definition judge_refusal :: "ctx \<Rightarrow> json \<Rightarrow> verdict res" where
  "judge_refusal cx record =
     bindr (refusal_failure cx record) (\<lambda>failure.
       case failure of
         Some name \<Rightarrow> Inr (''nonconformant'', name)
       | None \<Rightarrow>
           bindr (open_question cx record) (\<lambda>question.
             Inr (case question of
                    Some q \<Rightarrow> (''ambiguous'', q)
                  | None \<Rightarrow> (''conformant'', ''response_follows_source''))))"

definition refusal_verify :: "ctx \<Rightarrow> case_files \<Rightarrow> verdict res" where
  "refusal_verify cx files = bindr (record_json files) (judge_refusal cx)"

definition refusal_retained :: "ctx \<Rightarrow> json \<Rightarrow> json res" where
  "refusal_retained cx record =
     bindr (item record (u ''response'')) (\<lambda>response.
     bindr (contains (js ''reason'') response) (\<lambda>present.
     bindr (if present then bindr (item response (u ''reason'')) (\<lambda>r. Inr (if r = JNull then u ''null'' else py_str cx r))
            else Inr (u ''absent'')) (\<lambda>emitted.
     bindr (bindr (item record (u ''facts'')) owed_values) (\<lambda>owed.
       Inr (JObj [(u ''emitted'', JStr emitted),
                  (u ''owed'', JStr (join_with (u ''|'') (sort (map (\<lambda>v. case v of None \<Rightarrow> u ''null'' | Some r \<Rightarrow> u r) owed))))])))))"

definition refusal_suite :: "ctx \<Rightarrow> suite_reader" where
  "refusal_suite cx =
     \<lparr>su_name = ''refusal-reason-priority/v1'', su_verify = refusal_verify cx, su_keep = refusal_retained cx,
      su_exits = REFUSAL_EXITS\<rparr>"

definition refusal_reasons :: "string \<Rightarrow> string list" where
  "refusal_reasons d =
     (if d = ''conformant'' then [''response_follows_source'']
      else if d = ''nonconformant'' then REFUSAL_CHECKS
      else if d = ''ambiguous'' then OPEN_QUESTIONS else [])"

lemma refusal_failure_declared: "refusal_failure cx record = Inr (Some n) \<Longrightarrow> n \<in> set REFUSAL_CHECKS"
  unfolding refusal_failure_def refusal_rules_def Let_def bindr_Inr_iff
  by (elim exE conjE, drule first_failed_name) (auto simp: contract_rules_def REFUSAL_CHECKS_def)

lemma open_question_declared: "open_question cx record = Inr (Some q) \<Longrightarrow> q \<in> set OPEN_QUESTIONS"
  by (auto simp: open_question_def bindr_Inr_iff OPEN_QUESTIONS_def split: if_splits)

interpretation refusal: corpus_reader "refusal_verify cx" REFUSAL_EXITS refusal_reasons for cx
proof
  fix files d r assume "refusal_verify cx files = Inr (d, r)"
  then show "d \<in> set (map fst REFUSAL_EXITS) \<and> r \<in> set (refusal_reasons d)"
    using refusal_failure_declared open_question_declared
    by (auto simp: refusal_verify_def judge_refusal_def bindr_Inr_iff REFUSAL_EXITS_def refusal_reasons_def split: option.splits)
qed (auto simp: refusal_reasons_def REFUSAL_CHECKS_def OPEN_QUESTIONS_def split: if_splits)


section \<open>What a response owes\<close>

text \<open>
  A response over its facts: the reason it emits, the conditions of the vocabulary that apply, whether it
  was given at the lease instant and with which declared boundary, whether the observation relied on was
  named and fresh and one was filled in, and whether a diagnostic read was made and the expiry moved.
\<close>

record refusing =
  rf_reason :: "string option"
  rf_applies :: "string set"
  rf_lease :: "string option option"
  rf_relied :: "bool option"
  rf_filled :: bool
  rf_diagnostic :: bool
  rf_moved :: bool

text \<open>The first value of the list whose condition applies.\<close>

definition owed_reason :: "refusing \<Rightarrow> string option" where
  "owed_reason r = find (\<lambda>v. v \<in> rf_applies r) FIVE"

definition at_lease :: "refusing \<Rightarrow> bool" where
  "at_lease r \<longleftrightarrow> rf_lease r \<noteq> None \<and> owed_reason r = None"

definition follows :: "refusing \<Rightarrow> bool" where
  "follows r \<longleftrightarrow>
     (if at_lease r then rf_reason r \<in> {None, Some ''evidence_expired''} else rf_reason r = owed_reason r) \<and>
     (rf_relied r = Some False \<longrightarrow> \<not> rf_filled r) \<and>
     (rf_diagnostic r \<and> rf_relied r \<noteq> Some True \<longrightarrow> \<not> rf_moved r)"

text \<open>At the lease instant the answer is the one its declared boundary owes.\<close>

definition settled :: "refusing \<Rightarrow> bool" where
  "settled r \<longleftrightarrow>
     (at_lease r \<longrightarrow>
        (\<exists>b. rf_lease r = Some (Some b) \<and> rf_reason r = (if b = ''inclusive'' then None else Some ''evidence_expired'')))"

definition carries_relied :: "json \<Rightarrow> bool option \<Rightarrow> bool" where
  "carries_relied facts b \<longleftrightarrow>
     (case b of
        None \<Rightarrow> get_item facts (u ''reliedOnObservation'') = Inr JNull
      | Some f \<Rightarrow>
          \<exists>v. get_item facts (u ''reliedOnObservation'') = Inr v \<and> v \<noteq> JNull \<and> relied_fresh facts = Inr f)"

definition carries_lease :: "json \<Rightarrow> string option option \<Rightarrow> bool" where
  "carries_lease facts l \<longleftrightarrow>
     (case l of
        None \<Rightarrow> get_item facts (u ''leaseInstant'') = Inr JNull
      | Some b \<Rightarrow>
          \<exists>v. get_item facts (u ''leaseInstant'') = Inr v \<and> v \<noteq> JNull \<and>
            get_item v (u ''declaredBoundary'') = Inr (case b of None \<Rightarrow> JNull | Some s \<Rightarrow> js s))"

definition carries_refusing :: "json \<Rightarrow> refusing \<Rightarrow> bool" where
  "carries_refusing record r \<longleftrightarrow>
     (\<exists>response facts found grant seen expires limit.
       item record (u ''contractId'') = Inr (JStr REFUSAL_CONTRACT_ID) \<and>
       item record (u ''response'') = Inr response \<and> item record (u ''facts'') = Inr facts \<and>
       item response (u ''reason'') = Inr (case rf_reason r of None \<Rightarrow> JNull | Some s \<Rightarrow> js s) \<and>
       (\<forall>s. rf_reason r = Some s \<longrightarrow> s \<in> set FIVE) \<and>
       applicable facts = Inr found \<and> set found = rf_applies r \<and>
       carries_lease facts (rf_lease r) \<and> carries_relied facts (rf_relied r) \<and>
       item response (u ''grantRef'') = Inr grant \<and> get_item grant (u ''observationAsOfMs'') = Inr seen \<and>
       (seen \<noteq> JNull) = rf_filled r \<and>
       (\<exists>d. get_item facts (u ''diagnosticRead'') = Inr d \<and> (d \<noteq> JNull) = rf_diagnostic r) \<and>
       get_item grant (u ''expiresAtMs'') = Inr (JInt expires) \<and>
       item facts (u ''grantExpiresAtMs'') = Inr (JInt limit) \<and> (limit < expires) = rf_moved r)"

lemma applicable_first:
  assumes "applicable facts = Inr found"
  shows "find (\<lambda>v. v \<in> set found) FIVE = (case found of [] \<Rightarrow> None | r # _ \<Rightarrow> Some r)"
  using assms by (auto simp: applicable_def bindr_Inr_iff FIVE_def)


lemma among_u [simp]: "among (map_option u e) vs \<longleftrightarrow> e \<in> set vs"
proof -
  have "inj (map_option u)" by (rule option.inj_map) (simp add: inj_def)
  then show ?thesis by (auto simp: among_def inj_eq)
qed

text \<open>What each rule computes on the record of a response.\<close>

lemma carried_lease:
  assumes "applicable facts = Inr found" and "set found = rf_applies r" and "carries_lease facts (rf_lease r)"
  shows "lease_only facts = Inr (at_lease r)"
    and "owed_values facts = Inr (if at_lease r then LEASE_READINGS else [owed_reason r])"
proof -
  have o: "owed_reason r = (case found of [] \<Rightarrow> None | v # _ \<Rightarrow> Some v)"
    using applicable_first [OF assms(1)] assms(2) by (simp add: owed_reason_def)
  show l: "lease_only facts = Inr (at_lease r)"
    using assms(1,3) by (auto simp: lease_only_def at_lease_def carries_lease_def o andr_def split: option.splits list.splits)
  show "owed_values facts = Inr (if at_lease r then LEASE_READINGS else [owed_reason r])"
    by (simp add: owed_values_def l assms(1) o NO_REASON_def split: list.splits)
qed

lemma carried_reason:
  assumes "item record (u ''response'') = Inr response"
    and "item response (u ''reason'') = Inr (case rf_reason r of None \<Rightarrow> JNull | Some s \<Rightarrow> js s)"
  shows "emitted_of cx record = Inr (map_option u (rf_reason r))"
    and "get_item response (u ''reason'') = Inr (case rf_reason r of None \<Rightarrow> JNull | Some s \<Rightarrow> js s)"
    and "contains (js ''reason'') response = Inr True"
proof -
  from assms(2) obtain d where d: "response = JObj d"
    "map_of d (u ''reason'') = Some (case rf_reason r of None \<Rightarrow> JNull | Some s \<Rightarrow> js s)"
    by (auto simp: item_Inr)
  show g: "get_item response (u ''reason'') = Inr (case rf_reason r of None \<Rightarrow> JNull | Some s \<Rightarrow> js s)"
    using d by (simp add: dget_def)
  show "emitted_of cx record = Inr (map_option u (rf_reason r))"
    unfolding emitted_of_def assms(1) bindr_simps g by (cases "rf_reason r") simp_all
  show "contains (js ''reason'') response = Inr True"
    using d map_of_SomeD [OF d(2)] by (auto simp: in_set_def py_in_JStr image_iff intro!: bexI)
qed

lemma carried_observation:
  assumes "item record (u ''facts'') = Inr facts" and "item record (u ''response'') = Inr response"
    and "carries_relied facts (rf_relied r)" and "item response (u ''grantRef'') = Inr grant"
    and "get_item grant (u ''observationAsOfMs'') = Inr seen" and "(seen \<noteq> JNull) = rf_filled r"
  shows "backfilled record = Inr (rf_relied r = Some False \<and> rf_filled r)"
  using assms by (auto simp: backfilled_def carries_relied_def grant_ref_def orr_def cong: if_cong split: option.splits)

lemma carried_expiry:
  assumes "item record (u ''facts'') = Inr facts" and "item record (u ''response'') = Inr response"
    and "carries_relied facts (rf_relied r)" and "item response (u ''grantRef'') = Inr grant"
    and "get_item facts (u ''diagnosticRead'') = Inr d" and "(d \<noteq> JNull) = rf_diagnostic r"
    and "get_item grant (u ''expiresAtMs'') = Inr (JInt expires)" and "item facts (u ''grantExpiresAtMs'') = Inr (JInt limit)"
    and "(limit < expires) = rf_moved r"
  shows "renewed record = Inr (rf_diagnostic r \<and> rf_relied r \<noteq> Some True \<and> rf_moved r)"
proof -
  have "relied_fresh facts = Inr (rf_relied r = Some True)"
    using assms(3) by (auto simp: carries_relied_def relied_fresh_def andr_def split: option.splits)
  with assms show ?thesis by (auto simp: renewed_def grant_ref_def orr_def andr_def)
qed

lemma refusal_decides:
  assumes "carries_refusing record r"
  shows "\<exists>reason. judge_refusal cx record =
    Inr (if \<not> follows r then ''nonconformant'' else if settled r then ''conformant'' else ''ambiguous'', reason)"
proof -
  from assms obtain response facts found grant seen expires limit d where
    contract: "item record (u ''contractId'') = Inr (JStr REFUSAL_CONTRACT_ID)"
    and parts: "item record (u ''response'') = Inr response" "item record (u ''facts'') = Inr facts"
    and reason: "item response (u ''reason'') = Inr (case rf_reason r of None \<Rightarrow> JNull | Some s \<Rightarrow> js s)"
      "\<forall>s. rf_reason r = Some s \<longrightarrow> s \<in> set FIVE"
    and found: "applicable facts = Inr found" "set found = rf_applies r"
    and lease: "carries_lease facts (rf_lease r)" and relied: "carries_relied facts (rf_relied r)"
    and grant: "item response (u ''grantRef'') = Inr grant" "get_item grant (u ''observationAsOfMs'') = Inr seen"
      "(seen \<noteq> JNull) = rf_filled r" "get_item grant (u ''expiresAtMs'') = Inr (JInt expires)"
      "item facts (u ''grantExpiresAtMs'') = Inr (JInt limit)" "(limit < expires) = rf_moved r"
    and diagnostic: "get_item facts (u ''diagnosticRead'') = Inr d" "(d \<noteq> JNull) = rf_diagnostic r"
    unfolding carries_refusing_def by blast
  note c = contract_rules_pass [OF contract] carried_lease [OF found lease] carried_reason [OF parts(1) reason(1)]
    carried_observation [OF parts(2,1) relied grant(1-3)]
    carried_expiry [OF parts(2,1) relied grant(1) diagnostic grant(4-6)]
  let ?wrong = "\<not> at_lease r \<and> rf_reason r \<noteq> owed_reason r"
  have wrong: "wrong_value cx record facts = Inr ?wrong" by (auto simp: wrong_value_def c andr_def)
  have none: "bindr (owed_values facts) (\<lambda>owed. Inr (owed = NO_REASON)) = Inr (\<not> at_lease r \<and> owed_reason r = None)"
    by (simp add: c LEASE_READINGS_def NO_REASON_def)
  have closed: "bindr (get_item response (u ''reason'')) (\<lambda>v. Inr (v \<noteq> JNull \<and> \<not> py_in v (map js FIVE))) = Inr False"
    using reason(2) by (cases "rf_reason r") (auto simp: c py_in_JStr)
  have fails: "refusal_failure cx record = Inr None \<longleftrightarrow> follows r"
    unfolding refusal_failure_def parts bindr_simps first_failed_None refusal_rules_def Let_def wrong none closed
    by (auto simp: c andr_def follows_def LEASE_READINGS_def)
  have total: "\<exists>f. refusal_failure cx record = Inr f"
    unfolding refusal_failure_def parts bindr_simps refusal_rules_def Let_def wrong none closed
    by (rule first_failed_total) (use c(1) in \<open>auto simp: c andr_def list_all_iff\<close>)
  have question: "open_question cx record = Inr None \<longleftrightarrow> settled r" "\<exists>q. open_question cx record = Inr q"
    using lease applicable_first [OF found(1)] found(2)
    by (auto simp: open_question_def parts c found(1) carries_lease_def orr_def settled_def at_lease_def owed_reason_def
        derived_boundary_def split: option.splits list.splits)
  show ?thesis
  proof (cases "follows r")
    case True
    with fails have "refusal_failure cx record = Inr None" by simp
    with True question show ?thesis by (auto simp: judge_refusal_def split: option.splits)
  next
    case False
    with fails total obtain name where "refusal_failure cx record = Inr (Some name)" by (metis not_None_eq)
    with False show ?thesis by (simp add: judge_refusal_def)
  qed
qed

end
