(* ===== verification/SignatureCoverage.thy ===== *)
theory SignatureCoverage
  imports Decisions
begin

text \<open>
  The reader of \<open>packaging/agent_evidence_vectors/signaturecoverage.py\<close>: a source as its readers see it,
  the signed payload beside it, and the rules on both.
\<close>

section \<open>Sources\<close>

definition SIGNATURE_CONTRACT_ID :: ustr where
  "SIGNATURE_CONTRACT_ID = u BASE @ u ''signature-coverage''"

definition MAX_EXACT_INTEGER :: int where
  "MAX_EXACT_INTEGER = 2 ^ 53 - 1"

definition SIGNATURE_CHECKS :: "string list" where
  "SIGNATURE_CHECKS =
     [''contract_id_missing'', ''contract_id_unknown'', ''signature_invalid'', ''payload_repeated_member'',
      ''number_not_interoperable'', ''source_repeated_key'', ''reading_differs_from_signed'',
      ''consumer_reads_unsigned'']"

text \<open>\<open>_is_map\<close>: a dictionary whose one key is \<open>entries\<close>.\<close>

fun map_value :: "json \<Rightarrow> json option" where
  "map_value (JObj d) = (if set (map fst d) = {u ''entries''} then map_of d (u ''entries'') else None)"
| "map_value _ = None"

text \<open>\<open>for key, item in value["entries"]\<close>.\<close>

definition unpack2 :: "json \<Rightarrow> (json \<times> json) res" where
  "unpack2 v = bindr (py_iter v) (\<lambda>xs. case xs of [a, b] \<Rightarrow> Inr (a, b) | _ \<Rightarrow> Inl ValueError)"

definition map_entries :: "json \<Rightarrow> (json \<times> json) list res" where
  "map_entries entries = bindr (py_iter entries) (mapr unpack2)"

definition children :: "json \<Rightarrow> json list res" where
  "children v =
     (case map_value v of
        Some entries \<Rightarrow> bindr (map_entries entries) (\<lambda>ps. Inr (map snd ps))
      | None \<Rightarrow> Inr (as_list v))"

fun depth :: "json \<Rightarrow> nat" where
  "depth (JArr xs) = Suc (foldr max (map depth xs) 0)"
| "depth (JObj d) = Suc (foldr max (map (\<lambda>(k, v). depth v) d) 0)"
| "depth _ = 0"

lemma foldr_max_mem: "x \<in> set xs \<Longrightarrow> x \<le> foldr max xs (0 :: nat)"
  by (induction xs) auto

lemma depth_JArr: "x \<in> set xs \<Longrightarrow> depth x < depth (JArr xs)"
  by (simp add: less_Suc_eq_le foldr_max_mem)

lemma depth_JObj: "(k, v) \<in> set d \<Longrightarrow> depth v < depth (JObj d)"
proof -
  assume "(k, v) \<in> set d"
  then have "depth v \<in> set (map (\<lambda>(k, v). depth v) d)" by force
  then show ?thesis by (simp only: depth.simps less_Suc_eq_le foldr_max_mem)
qed

lemma py_iter_depth:
  assumes "py_iter v = Inr xs" and "x \<in> set xs"
  shows "depth x = 0 \<or> depth x < depth v"
proof (cases v)
  case (JArr ys)
  with assms depth_JArr [of x ys] show ?thesis by simp
qed (use assms in auto)

lemma unpack2_Inr [res_iff]: "unpack2 v = Inr (a, b) \<longleftrightarrow> py_iter v = Inr [a, b]"
proof (cases "py_iter v")
  case (Inr xs)
  then show ?thesis by (cases xs rule: remdups_adj.cases) (auto simp: unpack2_def split: list.split)
qed (simp add: unpack2_def)

lemma entry_depth:
  assumes "py_iter v = Inr xs" and "x \<in> set xs" and "unpack2 x = Inr (a, b)"
  shows "depth b = 0 \<or> depth b < depth v"
proof -
  from assms(3) have "py_iter x = Inr [a, b]" by (simp add: unpack2_Inr)
  from py_iter_depth [OF this, of b] py_iter_depth [OF assms(1,2)] show ?thesis by auto
qed

lemma map_entries_depth:
  assumes "map_entries v = Inr ps" and "(a, b) \<in> set ps"
  shows "depth b = 0 \<or> depth b < depth v"
proof -
  from assms(1) obtain xs where xs: "py_iter v = Inr xs" "list_all2 (\<lambda>x y. unpack2 x = Inr y) xs ps"
    by (auto simp: map_entries_def bindr_Inr_iff mapr_Inr_iff)
  from assms(2) obtain i where "i < length ps" "ps ! i = (a, b)" by (meson in_set_conv_nth)
  with xs(2) have "xs ! i \<in> set xs" "unpack2 (xs ! i) = Inr (a, b)" by (auto simp: list_all2_conv_all_nth)
  with entry_depth [OF xs(1)] show ?thesis by blast
qed

lemma map_value_depth: "map_value v = Some w \<Longrightarrow> depth w < depth v"
proof -
  assume "map_value v = Some w"
  then obtain d where d: "v = JObj d" "map_of d (u ''entries'') = Some w"
    by (cases v) (simp_all split: if_splits)
  from depth_JObj [OF map_of_SomeD [OF d(2)]] d(1) show ?thesis by simp
qed

lemma children_depth:
  assumes "children v = Inr cs" and "c \<in> set cs"
  shows "depth c < depth v"
proof (cases "map_value v")
  case None
  with assms depth_JArr show ?thesis by (cases v) (auto simp: children_def)
next
  case (Some w)
  with assms obtain ps a where "map_entries w = Inr ps" "(a, c) \<in> set ps"
    by (auto simp: children_def bindr_Inr_iff)
  from map_entries_depth [OF this] map_value_depth [OF Some] show ?thesis by linarith
qed

lemma bindr_cong [fundef_cong]:
  "m = m' \<Longrightarrow> (\<And>x. m' = Inr x \<Longrightarrow> f x = g x) \<Longrightarrow> bindr m f = bindr m' g"
  by (cases m') auto

lemma anyr_cong [fundef_cong]: "xs = ys \<Longrightarrow> (\<And>x. x \<in> set ys \<Longrightarrow> p x = q x) \<Longrightarrow> anyr p xs = anyr q ys"
proof (induction ys arbitrary: xs)
  case (Cons y ys)
  then have "p y = q y" "anyr p ys = anyr q ys" by simp_all
  with Cons.prems(1) show ?case by (simp cong: if_cong)
qed simp

definition own_repeat :: "json \<Rightarrow> bool res" where
  "own_repeat v =
     (case map_value v of
        None \<Rightarrow> Inr False
      | Some entries \<Rightarrow>
          bindr (map_entries entries) (\<lambda>ps. bindr (py_set (map fst ps)) (\<lambda>s. Inr (length ps \<noteq> length s))))"

function repeats :: "json \<Rightarrow> bool res" where
  "repeats v =
     bindr (own_repeat v) (\<lambda>b. if b then Inr True else bindr (children v) (\<lambda>cs. anyr repeats cs))"
  by pat_completeness auto
termination
  by (relation "measure depth") (auto intro: children_depth)

declare repeats.simps [simp del]

text \<open>
  A reading is the value \<open>flatten\<close> returns: a dictionary, whose keys are carried values, a list, or a
  value without members. \<open>plain\<close> is the reading a carried value is.
\<close>

datatype reading = Leaf json | Items "reading list" | Keyed "(json \<times> reading) list"

fun plain :: "json \<Rightarrow> reading" where
  "plain (JArr xs) = Items (map plain xs)"
| "plain (JObj d) = Keyed (map (\<lambda>(k, v). (JStr k, plain v)) d)"
| "plain v = Leaf v"

lemma loopr_cong [fundef_cong]:
  "xs = ys \<Longrightarrow> s = t \<Longrightarrow> (\<And>x s. x \<in> set ys \<Longrightarrow> f x s = g x s) \<Longrightarrow> loopr f xs s = loopr g ys t"
proof (induction ys arbitrary: xs s t)
  case (Cons y ys)
  then have "f y t = g y t" "\<And>s. loopr f ys s = loopr g ys s" by simp_all
  with Cons.prems(1,2) show ?case by (cases "g y t") simp_all
qed simp

function flatten :: "bool \<Rightarrow> json \<Rightarrow> reading res" where
  "flatten keep_first v =
     (case map_value v of
        Some entries \<Rightarrow>
          bindr (py_iter entries) (\<lambda>es.
          bindr (loopr (\<lambda>e out.
                   bindr (unpack2 e) (\<lambda>(k, item).
                   bindr (if keep_first then bindr (hash_check k) (\<lambda>_. Inr (lookup out k \<noteq> None)) else Inr False) (\<lambda>held.
                     if held then Inr out
                     else bindr (flatten keep_first item) (\<lambda>r. bindr (hash_check k) (\<lambda>_. Inr (store out k r)))))) es [])
            (\<lambda>out. Inr (Keyed out)))
      | None \<Rightarrow>
          (case v of
             JArr xs \<Rightarrow> bindr (mapr (flatten keep_first) xs) (\<lambda>rs. Inr (Items rs))
           | _ \<Rightarrow> Inr (plain v)))"
  by pat_completeness auto
termination
  by (relation "measure (\<lambda>(k, v). depth v)") (use map_value_depth entry_depth depth_JArr in fastforce)+

declare flatten.simps [simp del]


function entry_count :: "json \<Rightarrow> nat res" where
  "entry_count v =
     bindr (case map_value v of None \<Rightarrow> Inr 0 | Some entries \<Rightarrow> py_len entries) (\<lambda>own.
     bindr (children v) (\<lambda>cs. bindr (mapr entry_count cs) (\<lambda>ns. Inr (own + sum_list ns))))"
  by pat_completeness auto
termination
  by (relation "measure depth") (auto intro: children_depth)

declare entry_count.simps [simp del]

section \<open>The signed payload\<close>

text \<open>\<open>base64.b64decode(v, validate=True)\<close> of a carried value.\<close>

fun b64_json :: "json \<Rightarrow> bytes res" where
  "b64_json (JStr s) = (case b64decode s of None \<Rightarrow> Inl ValueError | Some raw \<Rightarrow> Inr raw)"
| "b64_json _ = Inl TypeError"

definition signed_payload :: "json \<Rightarrow> bytes res" where
  "signed_payload record = bindr (path2 record ''envelope'' ''payload'') b64_json"

definition signature_valid :: "std \<Rightarrow> json \<Rightarrow> bool res" where
  "signature_valid sd record =
     bindr (item record (u ''envelope'')) (\<lambda>envelope.
     bindr (bindr (item envelope (u ''publicKey'')) b64_json) (\<lambda>key.
     bindr (bindr (item envelope (u ''signature'')) b64_json) (\<lambda>signature.
     bindr (signed_payload record) (\<lambda>payload.
       Inr (ed25519_verify (cx_sha512 (sd_ctx sd)) key payload signature)))))"

definition loads_bytes :: "std \<Rightarrow> hooks \<Rightarrow> bytes \<Rightarrow> json res" where
  "loads_bytes sd h raw = (case sd_text sd raw of None \<Rightarrow> Inl UnicodeDecodeError | Some t \<Rightarrow> loads h t)"

definition payload_value :: "std \<Rightarrow> json \<Rightarrow> json res" where
  "payload_value sd record = bindr (signed_payload record) (loads_bytes sd plain_hooks)"

text \<open>\<open>_unique\<close>: the exception of a repeated member is one of its own, and the only one that is caught.\<close>

definition unique_hooks :: hooks where
  "unique_hooks =
     plain_hooks\<lparr>pairs_hook := \<lambda>ps.
       if distinct (map fst ps) then pairs_hook plain_hooks ps else Inl (Refusal ''repeated_member'')\<rparr>"

definition repeated_member :: "std \<Rightarrow> json \<Rightarrow> bool res" where
  "repeated_member sd record =
     exceptr (bindr (signed_payload record) (\<lambda>raw. bindr (loads_bytes sd unique_hooks raw) (\<lambda>_. Inr False)))
       (\<lambda>e. e = Refusal ''repeated_member'') (Inr True)"

fun has_inexact_integer :: "json \<Rightarrow> bool" where
  "has_inexact_integer (JInt i) = (\<bar>i\<bar> > MAX_EXACT_INTEGER)"
| "has_inexact_integer (JArr xs) = list_ex has_inexact_integer xs"
| "has_inexact_integer (JObj d) = list_ex (\<lambda>(k, v). has_inexact_integer v) d"
| "has_inexact_integer _ = False"

text \<open>\<open>_same\<close>: the members of a carried object have string names, so a member of the reading with another key differs.\<close>

fun same_leaf :: "json \<Rightarrow> json \<Rightarrow> bool" where
  "same_leaf (JBool a) w = (w = JBool a)"
| "same_leaf v (JBool b) = False"
| "same_leaf v w =
     (if num_of v \<noteq> None \<and> num_of w \<noteq> None then direct_eq v w else v = w \<and> (v = JNull \<or> is_str v))"

lemma zip_fst_size [termination_simp]: "(a, b) \<in> set (zip xs ys) \<Longrightarrow> size a < Suc (size_list size xs)"
  by (simp add: less_Suc_eq_le size_list_estimation' [OF set_zip_leftD])

fun same :: "reading \<Rightarrow> json \<Rightarrow> bool" where
  "same (Leaf v) w = same_leaf v w"
| "same (Items rs) w =
     (case w of JArr ws \<Rightarrow> length rs = length ws \<and> list_all (\<lambda>(r, x). same r x) (zip rs ws) | _ \<Rightarrow> False)"
| "same (Keyed m) w =
     (case w of
        JObj d \<Rightarrow>
          length m = length d \<and>
          list_all (\<lambda>(k, r). case k of
                      JStr s \<Rightarrow> (case map_of d s of None \<Rightarrow> False | Some x \<Rightarrow> same r x)
                    | _ \<Rightarrow> False) m
      | _ \<Rightarrow> False)"

section \<open>The rules\<close>

definition excluded_keys :: "json \<Rightarrow> json list res" where
  "excluded_keys record = bindr (path2 record ''envelope'' ''excluded'') (\<lambda>v. bindr (py_iter v) py_set)"

definition reading_differs :: "std \<Rightarrow> json \<Rightarrow> bool res" where
  "reading_differs sd record =
     bindr (bindr (item record (u ''source'')) (flatten False)) (\<lambda>reading.
       case reading of
         Keyed m \<Rightarrow>
           bindr (excluded_keys record) (\<lambda>excluded.
           bindr (payload_value sd record) (\<lambda>payload.
             Inr (\<not> same (Keyed (filter (\<lambda>(k, r). \<not> py_in k excluded) m)) payload)))
       | _ \<Rightarrow> Inr True)"

definition reads_unsigned :: "json \<Rightarrow> bool res" where
  "reads_unsigned record =
     bindr (excluded_keys record) (\<lambda>excluded.
     bindr (bindr (item record (u ''consumerReads'')) py_iter) (anyr (\<lambda>path.
       bindr (item0 path) (\<lambda>k. in_set k excluded))))"

definition inexact_numbers :: "std \<Rightarrow> json \<Rightarrow> bool res" where
  "inexact_numbers sd record =
     orr (bindr (payload_value sd record) (\<lambda>v. Inr (has_inexact_integer v)))
         (bindr (item record (u ''source'')) (\<lambda>v. Inr (has_inexact_integer v)))"

definition signature_failure :: "std \<Rightarrow> json \<Rightarrow> string option res" where
  "signature_failure sd record =
     first_failed (contract_rules SIGNATURE_CONTRACT_ID record @
       [(''signature_invalid'', bindr (signature_valid sd record) (\<lambda>b. Inr (\<not> b))),
        (''payload_repeated_member'', repeated_member sd record),
        (''number_not_interoperable'', inexact_numbers sd record),
        (''source_repeated_key'', bindr (item record (u ''source'')) repeats),
        (''reading_differs_from_signed'', reading_differs sd record),
        (''consumer_reads_unsigned'', reads_unsigned record)])"

definition signature_verify :: "std \<Rightarrow> case_files \<Rightarrow> verdict res" where
  "signature_verify sd = judged_record ''signature_covers_reading'' (signature_failure sd)"

definition signature_retained :: "std \<Rightarrow> json \<Rightarrow> json res" where
  "signature_retained sd record =
     bindr (bindr (item record (u ''consumerReads'')) py_len) (\<lambda>reads.
     bindr (bindr (path2 record ''envelope'' ''excluded'') py_len) (\<lambda>excluded.
     bindr (signed_payload record) (\<lambda>payload.
     bindr (bindr (item record (u ''source'')) entry_count) (\<lambda>entries.
       Inr (JObj [(u ''consumerReads'', JInt (int reads)), (u ''excluded'', JInt (int excluded)),
                  (u ''payloadSha256'', JStr (sha256_hex (sd_ctx sd) payload)),
                  (u ''sourceEntries'', JInt (int entries))])))))"

definition signature_suite :: "std \<Rightarrow> suite_reader" where
  "signature_suite sd =
     \<lparr>su_name = ''signature-coverage/v1'', su_verify = signature_verify sd, su_keep = signature_retained sd,
      su_exits = EXIT_FOR\<rparr>"

lemma signature_failure_declared: "signature_failure sd record = Inr (Some n) \<Longrightarrow> n \<in> set SIGNATURE_CHECKS"
  unfolding signature_failure_def
  by (drule first_failed_name) (auto simp: contract_rules_def SIGNATURE_CHECKS_def)

interpretation signature: corpus_reader "signature_verify sd" EXIT_FOR
  "allow_deny_reasons [''signature_covers_reading''] SIGNATURE_CHECKS" for sd
  unfolding signature_verify_def
  by (rule judged_record_reader) (rule signature_failure_declared, simp_all add: SIGNATURE_CHECKS_def)

end
