(* ===== verification/SignatureFacts.thy ===== *)
theory SignatureFacts
  imports SignatureCoverage
begin

text \<open>
  What the rules on a signature secure: a source without repeated keys has one reading whichever entry a
  reader keeps, and what a reader finds on a path a consumer relies on is in the signed payload.
\<close>

section \<open>One reading\<close>

lemma lookup_None: "lookup d k = None \<longleftrightarrow> \<not> py_in k (map fst d)"
  by (induction d) (auto split: if_splits)

lemma lookup_store_None: "lookup d k' = None \<Longrightarrow> \<not> py_eq k' k \<Longrightarrow> lookup (store d k v) k' = None"
  by (induction d) (auto split: if_splits)

lemma store_new: "lookup d k = None \<Longrightarrow> store d k v = d @ [(k, v)]"
  by (induction d) (auto split: if_splits)

lemma float_eq_sym: "float_eq a b = float_eq b a"
  by (cases "(a, b)" rule: float_eq.cases) (auto simp: min.commute)

lemma py_eq_sym: "hashable a \<Longrightarrow> py_eq a b = py_eq b a"
  by (cases a; cases b) (auto simp: float_eq_sym)

lemma length_dedup: "length (dedup xs) \<le> length xs"
  by (induction xs) auto

text \<open>Keys of which a set is no shorter than the list: pairwise unequal.\<close>

inductive unrepeated :: "json list \<Rightarrow> bool" where
  "unrepeated []"
| "hashable k \<Longrightarrow> \<not> py_in k ks \<Longrightarrow> unrepeated ks \<Longrightarrow> unrepeated (k # ks)"

inductive_simps unrepeated_Cons [simp]: "unrepeated (k # ks)"

lemma py_set_unrepeated: "py_set ks = Inr s \<Longrightarrow> length s = length ks \<Longrightarrow> unrepeated ks"
proof (induction ks arbitrary: s)
  case (Cons k ks)
  from Cons.prems obtain x where h: "hashable k" "mapr hash_check ks = Inr x" and s: "s = dedup (k # ks)"
    by (auto simp: py_set_def bindr_Inr_iff)
  from Cons.prems(2) s length_dedup [of ks] have "\<not> py_in k ks" "length (dedup ks) = length ks" by (auto split: if_splits)
  moreover have "py_set ks = Inr (dedup ks)" by (simp add: py_set_def h(2))
  ultimately show ?case using Cons.IH h(1) by simp
qed (rule unrepeated.intros)

text \<open>The body of the loop of \<open>flatten\<close>.\<close>

definition keep_entry :: "bool \<Rightarrow> json \<Rightarrow> (json \<times> reading) list \<Rightarrow> (json \<times> reading) list res" where
  "keep_entry keep_first e out =
     bindr (unpack2 e) (\<lambda>(k, item).
     bindr (if keep_first then bindr (hash_check k) (\<lambda>_. Inr (lookup out k \<noteq> None)) else Inr False) (\<lambda>held.
       if held then Inr out
       else bindr (flatten keep_first item) (\<lambda>r. bindr (hash_check k) (\<lambda>_. Inr (store out k r)))))"

lemma flatten_map:
  "map_value v = Some entries \<Longrightarrow>
   flatten keep v = bindr (py_iter entries) (\<lambda>es. bindr (loopr (keep_entry keep) es []) (\<lambda>out. Inr (Keyed out)))"
  by (subst flatten.simps) (simp add: keep_entry_def [abs_def])

lemma flatten_list: "flatten keep (JArr xs) = bindr (mapr (flatten keep) xs) (\<lambda>rs. Inr (Items rs))"
  by (subst flatten.simps) simp

lemma flatten_other:
  "map_value v = None \<Longrightarrow> \<nexists>xs. v = JArr xs \<Longrightarrow> flatten keep v = Inr (plain v)"
  by (subst flatten.simps) (cases v; simp)

definition read_entry :: "bool \<Rightarrow> json \<times> json \<Rightarrow> (json \<times> reading) res" where
  "read_entry keep p = bindr (flatten keep (snd p)) (\<lambda>r. Inr (fst p, r))"

lemma keep_entries:
  assumes "list_all2 (\<lambda>e p. unpack2 e = Inr p) es ps" and "unrepeated (map fst ps)"
    and "\<And>k item. (k, item) \<in> set ps \<Longrightarrow> lookup out k = None"
  shows "loopr (keep_entry keep) es out = bindr (mapr (read_entry keep) ps) (\<lambda>rs. Inr (out @ rs))"
  using assms
proof (induction es ps arbitrary: out rule: list_all2_induct)
  case (Cons e es p ps)
  obtain k item where p: "p = (k, item)" by (cases p)
  with Cons.prems have k: "hashable k" "lookup out k = None" "\<not> py_in k (map fst ps)" by auto
  show ?case
  proof (cases "flatten keep item")
    case (Inr r)
    have "keep_entry keep e out = Inr (out @ [(k, r)])"
      using Cons.hyps(1) p k Inr by (cases keep) (simp_all add: keep_entry_def hash_check_def store_new)
    moreover have "lookup (out @ [(k, r)]) k' = None" if "(k', item') \<in> set ps" for k' item'
    proof -
      from that k have "\<not> py_eq k k'" by (force simp: py_in_def list_ex_iff)
      with k(1) have "\<not> py_eq k' k" by (simp add: py_eq_sym)
      with Cons.prems(2) [of k' item'] that lookup_store_None [of out k' k r] store_new [OF k(2)] show ?thesis by simp
    qed
    ultimately show ?thesis
      using Cons.IH [of "out @ [(k, r)]"] Cons.prems(1) p Inr
      by (simp add: read_entry_def bindr_assoc)
  qed (use Cons.hyps(1) p k in \<open>cases keep; simp add: keep_entry_def hash_check_def read_entry_def\<close>)
qed simp

lemma repeats_False:
  assumes "repeats v = Inr False"
  shows "own_repeat v = Inr False" and "\<exists>cs. children v = Inr cs \<and> (\<forall>c \<in> set cs. repeats c = Inr False)"
proof -
  from assms have *: "own_repeat v = Inr False \<and> (\<exists>cs. children v = Inr cs \<and> anyr repeats cs = Inr False)"
    by (subst (asm) repeats.simps) (auto simp: bindr_Inr_iff split: if_splits)
  then show "own_repeat v = Inr False" ..
  from * show "\<exists>cs. children v = Inr cs \<and> (\<forall>c \<in> set cs. repeats c = Inr False)" using anyr_False by blast
qed

lemma unrepeated_map:
  assumes "repeats v = Inr False" and "map_value v = Some entries"
  obtains es ps where "py_iter entries = Inr es" "list_all2 (\<lambda>e p. unpack2 e = Inr p) es ps"
    "map_entries entries = Inr ps" "unrepeated (map fst ps)" "\<forall>(k, item) \<in> set ps. repeats item = Inr False"
proof -
  from repeats_False(1) [OF assms(1)] assms(2) obtain ps s where ps: "map_entries entries = Inr ps"
    "py_set (map fst ps) = Inr s" "length ps = length s"
    by (auto simp: own_repeat_def bindr_Inr_iff)
  from ps(1) obtain es where es: "py_iter entries = Inr es" "list_all2 (\<lambda>e p. unpack2 e = Inr p) es ps"
    by (auto simp: map_entries_def bindr_Inr_iff mapr_Inr_iff)
  from repeats_False(2) [OF assms(1)] assms(2) ps(1) have "\<forall>(k, item) \<in> set ps. repeats item = Inr False"
    by (force simp: children_def)
  with that es ps py_set_unrepeated show thesis by auto
qed

lemma flatten_unrepeated:
  assumes "repeats v = Inr False" and "map_value v = Some entries" and "map_entries entries = Inr ps"
  shows "flatten keep v = bindr (mapr (read_entry keep) ps) (\<lambda>rs. Inr (Keyed rs))"
proof -
  obtain es qs where qs: "py_iter entries = Inr es" "list_all2 (\<lambda>e p. unpack2 e = Inr p) es qs"
    "map_entries entries = Inr qs" "unrepeated (map fst qs)"
    by (rule unrepeated_map [OF assms(1,2)])
  with assms(3) have es: "py_iter entries = Inr es" "list_all2 (\<lambda>e p. unpack2 e = Inr p) es ps" "unrepeated (map fst ps)"
    by simp_all
  from keep_entries [OF es(2,3), of "[]" keep] es(1) show ?thesis
    by (simp add: flatten_map [OF assms(2)] bindr_assoc)
qed

lemma one_reading: "repeats v = Inr False \<Longrightarrow> flatten True v = flatten False v"
proof (induction v rule: measure_induct_rule [of depth])
  case (less v)
  show ?case
  proof (cases "map_value v")
    case (Some entries)
    obtain es ps where "py_iter entries = Inr es" "list_all2 (\<lambda>e p. unpack2 e = Inr p) es ps" and
      ps: "map_entries entries = Inr ps" and "unrepeated (map fst ps)" and
      children: "\<forall>(k, item) \<in> set ps. repeats item = Inr False"
      by (rule unrepeated_map [OF less.prems Some])
    have "flatten True item = flatten False item" if "(k, item) \<in> set ps" for k item
    proof (rule less.IH)
      show "depth item < depth v" using map_entries_depth [OF ps that] map_value_depth [OF Some] by auto
    qed (use children that in auto)
    then have "mapr (read_entry True) ps = mapr (read_entry False) ps"
      by (intro mapr_cong) (auto simp: read_entry_def)
    then show ?thesis by (simp add: flatten_unrepeated [OF less.prems Some ps])
  next
    case None
    show ?thesis
    proof (cases "\<exists>xs. v = JArr xs")
      case True
      then obtain xs where v: "v = JArr xs" by blast
      with repeats_False(2) [OF less.prems] None have "\<forall>c \<in> set xs. repeats c = Inr False" by (auto simp: children_def)
      then have "mapr (flatten True) xs = mapr (flatten False) xs"
        using less.IH depth_JArr v by (intro mapr_cong) auto
      then show ?thesis by (simp add: v flatten_list)
    qed (use None in \<open>simp add: flatten_other\<close>)
  qed
qed


section \<open>What a reader finds on a path\<close>

text \<open>
  A reader goes down a source by keys and positions. A map may hold a key several times: \<open>finds\<close> leaves
  the reader free to take any of its entries.
\<close>

datatype path_step = Key ustr | At nat

inductive finds :: "json \<Rightarrow> path_step list \<Rightarrow> json \<Rightarrow> bool" where
  finds_here: "finds v [] v"
| finds_member: "map_value v = Some entries \<Longrightarrow> map_entries entries = Inr ps \<Longrightarrow> (JStr k, child) \<in> set ps \<Longrightarrow>
    finds child path w \<Longrightarrow> finds v (Key k # path) w"
| finds_element: "i < length xs \<Longrightarrow> finds (xs ! i) path w \<Longrightarrow> finds (JArr xs) (At i # path) w"

inductive_cases finds_KeyE: "finds v (Key k # path) w"

fun json_at :: "json \<Rightarrow> path_step list \<Rightarrow> json option" where
  "json_at v [] = Some v"
| "json_at (JObj d) (Key k # path) = (case map_of d k of None \<Rightarrow> None | Some x \<Rightarrow> json_at x path)"
| "json_at (JArr xs) (At i # path) = (if i < length xs then json_at (xs ! i) path else None)"
| "json_at _ _ = None"

lemma mapr_read_entry:
  assumes "mapr (read_entry keep) ps = Inr m" and "(k, child) \<in> set ps"
  obtains r where "flatten keep child = Inr r" "(k, r) \<in> set m"
proof -
  from assms have "\<exists>r. flatten keep child = Inr r \<and> (k, r) \<in> set m"
    by (induction ps arbitrary: m) (auto simp: bindr_Inr_iff read_entry_def)
  with that show thesis by blast
qed

lemma same_member:
  assumes "same (Keyed m) p" and "(JStr k, r) \<in> set m"
  obtains d x where "p = JObj d" "map_of d k = Some x" "same r x"
proof -
  from assms(1) obtain d where d: "p = JObj d" by (cases p) auto
  with assms(1) have "list_all (\<lambda>(k, r). case k of JStr s \<Rightarrow> (case map_of d s of None \<Rightarrow> False | Some x \<Rightarrow> same r x)
      | _ \<Rightarrow> False) m" by simp
  from this [unfolded list_all_iff, rule_format, OF assms(2)] have "\<exists>x. map_of d k = Some x \<and> same r x"
    by (auto split: option.splits)
  with that d show thesis by blast
qed

lemma found_is_same:
  "finds v path w \<Longrightarrow> repeats v = Inr False \<Longrightarrow> flatten False v = Inr r \<Longrightarrow> same r p \<Longrightarrow>
   \<exists>r' p'. flatten False w = Inr r' \<and> json_at p path = Some p' \<and> same r' p'"
proof (induction arbitrary: r p rule: finds.induct)
  case (finds_member v entries ps k child path w)
  from flatten_unrepeated [OF finds_member.prems(1) finds_member.hyps(1,2)] finds_member.prems(2)
  obtain m where m: "mapr (read_entry False) ps = Inr m" "r = Keyed m" by (auto simp: bindr_Inr_iff)
  obtain r1 where r1: "flatten False child = Inr r1" "(JStr k, r1) \<in> set m"
    by (rule mapr_read_entry [OF m(1) finds_member.hyps(3)])
  obtain d x where x: "p = JObj d" "map_of d k = Some x" "same r1 x"
    by (rule same_member [OF finds_member.prems(3) [unfolded m(2)] r1(2)])
  from repeats_False(2) [OF finds_member.prems(1)] finds_member.hyps(1,2,3) have "repeats child = Inr False"
    by (force simp: children_def)
  from finds_member.IH [OF this r1(1) x(3)] x(1,2) show ?case by simp
next
  case (finds_element i xs path w)
  from finds_element.prems(2) obtain rs where rs: "r = Items rs" "list_all2 (\<lambda>x y. flatten False x = Inr y) xs rs"
    by (auto simp: flatten_list bindr_Inr_iff mapr_Inr_iff)
  from finds_element.prems(3) rs(1) obtain ws where ws: "p = JArr ws" "length rs = length ws"
    "list_all (\<lambda>(r, x). same r x) (zip rs ws)"
    by (cases p) auto
  from rs(2) finds_element.hyps(1) have "flatten False (xs ! i) = Inr (rs ! i)" "i < length rs"
    by (auto simp: list_all2_conv_all_nth)
  moreover from this(2) ws have "same (rs ! i) (ws ! i)" by (auto simp: list_all_length)
  moreover from repeats_False(2) [OF finds_element.prems(1)] finds_element.hyps(1) have "repeats (xs ! i) = Inr False"
    by (auto simp: children_def)
  ultimately show ?case using finds_element.IH ws by auto
qed auto

text \<open>A path a consumer relies on starts at a key that is not declared outside the signature.\<close>

lemma allowed_record:
  assumes "signature_failure sd record = Inr None" and "item record (u ''source'') = Inr source"
    and "item record (u ''consumerReads'') = Inr (JArr relied)" and "JArr (JStr k # rest) \<in> set relied"
    and "finds source (Key k # path) w"
  shows "\<exists>p r x. payload_value sd record = Inr p \<and> flatten False w = Inr r \<and> json_at p (Key k # path) = Some x \<and> same r x"
proof -
  from assms(1) have f: "repeats source = Inr False" "reading_differs sd record = Inr False" "reads_unsigned record = Inr False"
    by (auto simp: signature_failure_def first_failed_None assms(2))
  from assms(5) obtain entries ps child where e: "map_value source = Some entries" "map_entries entries = Inr ps"
    "(JStr k, child) \<in> set ps" "finds child path w"
    by (rule finds_KeyE)
  from f(2) obtain reading where reading: "flatten False source = Inr reading"
    by (auto simp: reading_differs_def bindr_Inr_iff assms(2))
  with flatten_unrepeated [OF f(1) e(1,2)] obtain m where m: "mapr (read_entry False) ps = Inr m" "reading = Keyed m"
    by (auto simp: bindr_Inr_iff)
  with f(2) reading obtain ex p where p: "excluded_keys record = Inr ex" "payload_value sd record = Inr p"
    "same (Keyed (filter (\<lambda>(k, r). \<not> py_in k ex) m)) p"
    by (auto simp: reading_differs_def bindr_Inr_iff assms(2) simp del: same.simps)
  obtain r1 where r1: "flatten False child = Inr r1" "(JStr k, r1) \<in> set m" by (rule mapr_read_entry [OF m(1) e(3)])
  from f(3) p(1) have "anyr (\<lambda>path. bindr (item0 path) (\<lambda>k. in_set k ex)) relied = Inr False"
    by (simp add: reads_unsigned_def assms(3))
  from anyr_False [OF this, rule_format, OF assms(4)] have "\<not> py_in (JStr k) ex" by (auto simp: py_in_JStr)
  with r1(2) have "(JStr k, r1) \<in> set (filter (\<lambda>(k, r). \<not> py_in k ex) m)" by simp
  with p(3) obtain d x where x: "p = JObj d" "map_of d k = Some x" "same r1 x" by (rule same_member)
  from repeats_False(2) [OF f(1)] e have "repeats child = Inr False" by (force simp: children_def)
  from found_is_same [OF e(4) this r1(1) x(3)] p(2) x(1,2) show ?thesis by auto
qed

text \<open>The signature is over the payload, and no object of the payload repeats a member.\<close>

lemma allowed_signature:
  assumes "signature_failure sd record = Inr None"
  shows "\<exists>raw key sig v. signed_payload record = Inr raw \<and> path2 record ''envelope'' ''publicKey'' = Inr key \<and>
    path2 record ''envelope'' ''signature'' = Inr sig \<and>
    (\<exists>kb sb. b64_json key = Inr kb \<and> b64_json sig = Inr sb \<and> ed25519_verify (cx_sha512 (sd_ctx sd)) kb raw sb) \<and>
    loads_bytes sd unique_hooks raw = Inr v"
proof -
  from assms have f: "signature_valid sd record = Inr True" "repeated_member sd record = Inr False"
    by (auto simp: signature_failure_def first_failed_None bindr_Inr_iff)
  from f(1) obtain raw where raw: "signed_payload record = Inr raw" by (auto simp: signature_valid_def bindr_Inr_iff)
  with f(2) have "\<exists>v. loads_bytes sd unique_hooks raw = Inr v"
    by (auto simp: repeated_member_def exceptr_Inr_iff bindr_Inr_iff)
  with f(1) raw show ?thesis by (auto simp: signature_valid_def bindr_Inr_iff)
qed

end
