(* ===== verification/Signer.thy ===== *)
theory Signer
  imports SignatureFacts
begin

text \<open>
  The reference signer of \<open>packaging/agent_evidence_vectors/signaturecoverage.py\<close> (\<open>signature_input\<close>) and
  the judgement of a signer over the corpus's pairs, with what the rule of the module asks of it: sources
  that read differently do not share a signature input.
\<close>

section \<open>The signature input\<close>

text \<open>
  \<open>json.dumps\<close> writes the keys of a dictionary as strings, a number or a constant as its text. The members
  are sorted before, by their keys as they are: strings by code points, numbers by value, and one of each
  kind does not compare. (A NaN has no place among other numbers; it is put where an insertion leaves it.)
\<close>

fun key_text :: "ctx \<Rightarrow> json \<Rightarrow> ustr" where
  "key_text cx (JStr s) = s"
| "key_text cx v = dumps cx Compact 0 v"

fun insert_member :: "json \<times> 'a \<Rightarrow> (json \<times> 'a) list \<Rightarrow> (json \<times> 'a) list" where
  "insert_member p [] = [p]"
| "insert_member p (q # ps) =
     (if num_less (fst q) (fst p) = Inr True then q # insert_member p ps else p # q # ps)"

definition sort_members :: "(json \<times> 'a) list \<Rightarrow> (json \<times> 'a) list res" where
  "sort_members m =
     (if length m < 2 then Inr m
      else if list_all (\<lambda>(k, v). is_str k) m then Inr (sort_key (\<lambda>(k, v). as_str k) m)
      else if list_all (\<lambda>(k, v). num_of k \<noteq> None) m then Inr (foldr insert_member m [])
      else Inl TypeError)"

fun leaf_text :: "ctx \<Rightarrow> json \<Rightarrow> ustr" where
  "leaf_text cx (JStr s) = jcs_string s"
| "leaf_text cx v = dumps cx Compact 0 v"

fun reading_text :: "ctx \<Rightarrow> reading \<Rightarrow> ustr res" where
  "reading_text cx (Leaf v) = Inr (leaf_text cx v)"
| "reading_text cx (Items rs) = bindr (mapr (reading_text cx) rs) (\<lambda>ts. Inr ([91] @ join_with [44] ts @ [93]))"
| "reading_text cx (Keyed m) =
     bindr (sort_members (map (\<lambda>(k, r). (k, reading_text cx r)) m)) (\<lambda>sorted.
     bindr (mapr (\<lambda>(k, t). bindr t (\<lambda>t. Inr (jcs_string (key_text cx k) @ [58] @ t))) sorted) (\<lambda>ts.
       Inr ([123] @ join_with [44] ts @ [125])))"

definition signature_input :: "ctx \<Rightarrow> json \<Rightarrow> bytes option res" where
  "signature_input cx source =
     bindr (repeats source) (\<lambda>b.
       if b then Inr None
       else bindr (flatten False source) (\<lambda>r. bindr (reading_text cx r) (\<lambda>t. bindr (utf8_encode t) (\<lambda>raw. Inr (Some raw)))))"

section \<open>Judging a signer\<close>

definition signer_pairs :: "std \<Rightarrow> corpus \<Rightarrow> bytes option \<Rightarrow> json res" where
  "signer_pairs sd co pairs_file =
     (case pairs_file of
        None \<Rightarrow> Inl OSError
      | Some raw \<Rightarrow>
          bindr (load_manifest co) (\<lambda>manifest.
          bindr (item manifest (u ''signerPairsSha256'')) (\<lambda>digest.
            if digest \<noteq> JStr (sha256_hex (sd_ctx sd) raw) then Inl ValueError else loads_bytes sd plain_hooks raw)))"

definition judge_pair :: "(json \<Rightarrow> bytes option res) \<Rightarrow> json \<Rightarrow> json list res" where
  "judge_pair sign pair =
     bindr (bindr (item pair (u ''first'')) sign) (\<lambda>first.
     bindr (bindr (item pair (u ''second'')) sign) (\<lambda>second.
       if first \<noteq> None \<and> first = second then bindr (item pair (u ''id'')) (\<lambda>i. Inr [i]) else Inr []))"

definition judge_signer :: "(json \<Rightarrow> bytes option res) \<Rightarrow> std \<Rightarrow> corpus \<Rightarrow> bytes option \<Rightarrow> (nat \<times> json list) res" where
  "judge_signer sign sd co pairs_file =
     bindr (signer_pairs sd co pairs_file) (\<lambda>pairs.
     bindr (py_iter pairs) (\<lambda>ps.
     bindr (mapr (judge_pair sign) ps) (\<lambda>errors.
     bindr (py_len pairs) (\<lambda>n. Inr (n, concat errors)))))"

section \<open>Sources with string keys\<close>

text \<open>
  A reading with string keys, scalar strings, integers every parser reads exactly and no float; and the
  value it is, its members in the order of their keys.
\<close>

fun signable :: "reading \<Rightarrow> bool" where
  "signable (Leaf v) = (case v of JInt i \<Rightarrow> \<bar>i\<bar> \<le> MAX_EXACT_INTEGER | JStr s \<Rightarrow> list_all scalar s | JNull \<Rightarrow> True
     | JBool b \<Rightarrow> True | _ \<Rightarrow> False)"
| "signable (Items rs) = list_all signable rs"
| "signable (Keyed m) =
     (distinct (map fst m) \<and> list_all (\<lambda>(k, r). is_str k \<and> list_all scalar (as_str k) \<and> signable r) m)"

fun value_of :: "reading \<Rightarrow> json" where
  "value_of (Leaf v) = v"
| "value_of (Items rs) = JArr (map value_of rs)"
| "value_of (Keyed m) = JObj (sort_key fst (map (\<lambda>(k, r). (as_str k, value_of r)) m))"

lemma string_keys:
  assumes "list_all (\<lambda>(k, r). is_str k) m"
  obtains ms where "m = map (\<lambda>(s, r). (JStr s, r)) ms"
proof
  show "m = map (\<lambda>(s, r). (JStr s, r)) (map (\<lambda>(k, r). (as_str k, r)) m)"
    using assms by (induction m) (auto simp: is_str_iff)
qed

lemma sort_key_mapped: "sort_key f (map g xs) = map g (sort_key (f \<circ> g) xs)"
proof -
  have "insort_key f (g x) (map g ys) = map g (insort_key (f \<circ> g) x ys)" for x ys by (induction ys) auto
  then show ?thesis by (induction xs) auto
qed

lemma keyed_strings:
  "signable (Keyed (map (\<lambda>(s, r). (JStr s, r)) ms)) \<longleftrightarrow>
     distinct (map fst ms) \<and> list_all (\<lambda>(s, r). list_all scalar s \<and> signable r) ms"
proof -
  have "map fst (map (\<lambda>(s, r). (JStr s, r)) ms) = map JStr (map fst ms)" by auto
  then have "distinct (map fst (map (\<lambda>(s, r). (JStr s, r)) ms)) = distinct (map fst ms)"
    by (simp only: distinct_map) (auto simp: inj_on_def)
  then show ?thesis by (auto simp: list_all_iff)
qed

lemma value_of_strings:
  "value_of (Keyed (map (\<lambda>(s, r). (JStr s, r)) ms)) = JObj (map (\<lambda>(s, r). (s, value_of r)) (sort_key fst ms))"
proof -
  have "map (\<lambda>(k, r). (as_str k, value_of r)) (map (\<lambda>(s, r). (JStr s, r)) ms) = map (\<lambda>(s, r). (s, value_of r)) ms" by auto
  moreover have "(fst \<circ> (\<lambda>(s :: ustr, r). (s, value_of r))) = fst" by auto
  ultimately show ?thesis by (simp only: value_of.simps sort_key_mapped)
qed

text \<open>Induction over signable readings: what holds of a dictionary is shown for its string keys.\<close>

lemma signable_induct [consumes 1, case_names Leaf Items Keyed]:
  assumes "signable r"
    and "\<And>v. signable (Leaf v) \<Longrightarrow> P (Leaf v)"
    and "\<And>rs. \<forall>r \<in> set rs. signable r \<and> P r \<Longrightarrow> P (Items rs)"
    and "\<And>ms. distinct (map fst ms) \<Longrightarrow> \<forall>(s, r) \<in> set ms. list_all scalar s \<and> signable r \<and> P r \<Longrightarrow>
       P (Keyed (map (\<lambda>(s, r). (JStr s, r)) ms))"
  shows "P r"
  using assms(1)
proof (induction r)
  case (Keyed m)
  from Keyed.prems have "list_all (\<lambda>(k, r). is_str k) m" by (auto simp: list_all_iff)
  then obtain ms where m: "m = map (\<lambda>(s, r). (JStr s, r)) ms" by (rule string_keys)
  have "\<forall>(s, r) \<in> set ms. list_all scalar s \<and> signable r \<and> P r"
  proof clarify
    fix s r assume sr: "(s, r) \<in> set ms"
    with Keyed.prems m have "list_all scalar s \<and> signable r" by (auto simp: keyed_strings list_all_iff)
    moreover have "P r" if "signable r" using sr m that by (intro Keyed.IH [of "(JStr s, r)"]) auto
    ultimately show "list_all scalar s \<and> signable r \<and> P r" by blast
  qed
  with assms(4) [of ms] Keyed.prems [unfolded m keyed_strings] show ?case unfolding m by blast
qed (use assms(2,3) in \<open>auto simp: list_all_iff\<close>)

lemma distinct_sorted_members: "distinct (map fst ms) \<Longrightarrow> distinct (map fst (sort_key fst ms))"
  by (metis distinct_map distinct_sort set_sort)

lemma signable_readable: "signable r \<Longrightarrow> readable (value_of r)"
proof (induction rule: signable_induct)
  case (Leaf v)
  then show ?case by (cases v) (auto simp: MAX_EXACT_INTEGER_def SAFE_INT_LIMIT_def)
next
  case (Keyed ms)
  have "map fst (map (\<lambda>(s, r). (s, value_of r)) (sort_key fst ms)) = map fst (sort_key fst ms)" by auto
  with Keyed distinct_sorted_members [of ms] show ?case unfolding value_of_strings
    by (auto simp: list_all_iff simp del: map_map)
qed (auto simp: list_all_iff)

lemma reading_text_value: "signable r \<Longrightarrow> reading_text cx r = Inr (text_of (value_of r))"
proof (induction rule: signable_induct)
  case (Leaf v)
  then show ?case by (cases v) auto
next
  case (Items rs)
  then have "mapr (reading_text cx) rs = Inr (map (text_of \<circ> value_of) rs)" by (intro mapr_total) auto
  then show ?case by simp
next
  case (Keyed ms)
  let ?m = "map (\<lambda>(s, r). (JStr s, reading_text cx r)) ms"
  have "sort_members ?m = Inr (sort_key (\<lambda>(k, v). as_str k) ?m)"
    by (cases ms rule: remdups_adj.cases) (auto simp: sort_members_def list_all_iff)
  moreover have "((\<lambda>(k, v). as_str k) \<circ> (\<lambda>(s, r). (JStr s, reading_text cx r))) = fst" by auto
  then have "sort_key (\<lambda>(k, v). as_str k) ?m = map (\<lambda>(s, r). (JStr s, reading_text cx r)) (sort_key fst ms)"
    by (simp only: sort_key_mapped)
  moreover have "mapr (\<lambda>(k, t). bindr t (\<lambda>t. Inr (jcs_string (key_text cx k) @ [58] @ t)))
      (map (\<lambda>(s, r). (JStr s, reading_text cx r)) (sort_key fst ms))
      = Inr (map (\<lambda>(s, r). jcs_string s @ [58] @ text_of (value_of r)) (sort_key fst ms))"
    unfolding mapr_map by (rule mapr_total) (use Keyed(2) in auto)
  ultimately show ?case unfolding value_of_strings by (simp add: comp_def case_prod_unfold)
qed


text \<open>The text of a signable reading is of scalars, so its UTF-8 bytes give it back.\<close>

lemma signable_strings: "signable r \<Longrightarrow> scalar_strings (value_of r)"
proof (induction rule: signable_induct)
  case (Leaf v)
  then show ?case by (cases v) auto
next
  case (Keyed ms)
  then show ?case unfolding value_of_strings by (auto simp: list_all_iff)
qed (auto simp: list_all_iff)

lemma text_scalars: "signable r \<Longrightarrow> list_all scalar (text_of (value_of r))"
  by (rule scalar_text [OF signable_readable signable_strings])

lemma signature_input_value:
  assumes "signature_input cx a = Inr (Some raw)" and "flatten False a = Inr r" and "signable r"
  shows "utf8_encode (text_of (value_of r)) = Inr raw"
  using assms by (auto simp: signature_input_def bindr_Inr_iff reading_text_value split: if_splits)

lemma shared_input:
  assumes "signature_input cx a = Inr (Some raw)" and "signature_input cx b = Inr (Some raw)"
    and "flatten False a = Inr ra" and "flatten False b = Inr rb" and "signable ra" and "signable rb"
  shows "value_of ra = value_of rb"
proof -
  have "text_of (value_of ra) = text_of (value_of rb)"
    using utf8_encode_inj [OF text_scalars text_scalars] signature_input_value assms by metis
  then show ?thesis using plain_text.text_of_inject signable_readable assms(5,6) by blast
qed

end
