(* ===== verification/ToyDecisions.thy ===== *)
theory ToyDecisions
  imports DecisionFacts Monitor PropagationSpec Refusal Signer Example
begin

text \<open>Concrete corpora, records and readers at which the properties of the decision corpora are applied.\<close>

section \<open>A monitor verdict\<close>

definition toy_std :: std where
  "toy_std = \<lparr>sd_ctx = toy_ctx, sd_iso = (\<lambda>s. Some (Aware (int (length s)))), sd_fadd = (\<lambda>v w. Inr (JFloat NaN)),
     sd_text = utf8_decode\<rparr>"

definition toy_coverage :: json where
  "toy_coverage =
     JObj [(u ''basis'', js ''collector_count''), (u ''collected'', JInt 3), (u ''dropped'', JInt 0), (u ''expected'', JInt 3)]"

definition toy_verdict :: json where
  "toy_verdict = JObj [(u ''decisions'', JInt 2), (u ''effectiveActions'', JInt 1), (u ''result'', js ''clean'')]"

definition toy_window :: json where
  "toy_window = JObj [(u ''end'', js ''ab''), (u ''start'', js ''a'')]"

definition toy_monitor_json :: json where
  "toy_monitor_json =
     JObj [(u ''contractId'', JStr MONITOR_CONTRACT_ID), (u ''coverage'', toy_coverage),
           (u ''monitor'', JObj [(u ''channels'', JArr (map JStr [u ''mail''])), (u ''id'', js ''m'')]),
           (u ''verdict'', toy_verdict), (u ''window'', toy_window)]"

definition toy_monitoring :: monitoring where
  "toy_monitoring =
     \<lparr>mg_start = 1, mg_end = 2, mg_expected = 3, mg_collected = 3, mg_dropped = 0, mg_decisions = 2, mg_actions = 1,
      mg_by_collector = True, mg_clean = True, mg_channels = {u ''mail''}, mg_effect = None, mg_reduced_harm = False\<rparr>"

lemma dget_simps: "dget [] k = JNull" "dget ((a, v) # d) k = (if a = k then v else dget d k)"
  by (simp_all add: dget_def)

lemma utc_offset_toy: "sd_iso toy_std (utc_offset (u ''a'')) = Some (Aware 1)" "sd_iso toy_std (utc_offset (u ''ab'')) = Some (Aware 2)"
  by (simp_all add: toy_std_def utc_offset_def u_def)

lemma toy_monitor_carries: "carries_monitoring toy_std toy_monitor_json toy_monitoring"
  unfolding carries_monitoring_def carries_effect_def carries_claim_def
proof (intro conjI)
  show "\<exists>w s e cs b r coverage verdict. item toy_monitor_json (u ''contractId'') = Inr (JStr MONITOR_CONTRACT_ID) \<and>
       item toy_monitor_json (u ''window'') = Inr w \<and> item w (u ''start'') = Inr (JStr s) \<and> item w (u ''end'') = Inr (JStr e) \<and>
       sd_iso toy_std (utc_offset s) = Some (Aware (mg_start toy_monitoring)) \<and>
       sd_iso toy_std (utc_offset e) = Some (Aware (mg_end toy_monitoring)) \<and>
       item toy_monitor_json (u ''coverage'') = Inr coverage \<and> item toy_monitor_json (u ''verdict'') = Inr verdict \<and>
       monitor_counts coverage verdict =
         Inr (map JInt [mg_expected toy_monitoring, mg_collected toy_monitoring, mg_dropped toy_monitoring,
           mg_decisions toy_monitoring, mg_actions toy_monitoring]) \<and>
       item coverage (u ''basis'') = Inr (JStr b) \<and> (b = u ''collector_count'') = mg_by_collector toy_monitoring \<and>
       item verdict (u ''result'') = Inr (JStr r) \<and> (r = u ''clean'') = mg_clean toy_monitoring \<and>
       path2 toy_monitor_json ''monitor'' ''channels'' = Inr (JArr (map JStr cs)) \<and> set cs = mg_channels toy_monitoring"
    by (rule exI [of _ toy_window], rule exI [of _ "u ''a''"], rule exI [of _ "u ''ab''"], rule exI [of _ "[u ''mail'']"],
        rule exI [of _ "u ''collector_count''"], rule exI [of _ "u ''clean''"], rule exI [of _ toy_coverage], rule exI [of _ toy_verdict])
       (simp add: toy_monitor_json_def toy_monitoring_def toy_coverage_def toy_verdict_def toy_window_def monitor_counts_def
         utc_offset_toy)
qed (simp_all add: toy_monitor_json_def toy_monitoring_def effect_of_def dget_simps)

lemma toy_supported: "supported toy_monitoring"
  by (simp add: supported_def toy_monitoring_def)

lemma toy_monitor_failure: "monitor_failure toy_std toy_monitor_json = Inr None"
  using monitor_decides [OF toy_monitor_carries] toy_supported by simp

section \<open>A corpus of one monitor verdict\<close>

definition toy_files :: case_files where
  "toy_files = [(u ''record.json'', enc (text_of toy_monitor_json))]"

definition toy_kept :: json where
  "toy_kept =
     JObj [(u ''complete'', JBool True), (u ''decisions'', JInt 2), (u ''effectiveActions'', JInt 1),
           (u ''monitor'', js ''m''), (u ''result'', js ''clean'')]"

text \<open>The entry declares what the case must answer and what is kept of its record.\<close>

definition toy_corpus_entry :: "verdict \<Rightarrow> json \<Rightarrow> json" where
  "toy_corpus_entry v kept =
     JObj [(u ''expected'', verdict_json v), (u ''files'', JObj [(u ''record.json'', JStr zeros)]), (u ''id'', js ''a''),
           (u ''path'', JStr (u ''cases/'' @ u ''a'')), (u ''retained'', kept)]"

definition toy_corpus_manifest :: "verdict \<Rightarrow> json \<Rightarrow> json" where
  "toy_corpus_manifest v kept =
     JObj [(u ''corpusDigest'', JStr zeros), (u ''suite'', js ''monitor-coverage/v1''),
           (u ''vectors'', JArr [toy_corpus_entry v kept])]"

definition toy_decisions :: "verdict \<Rightarrow> json \<Rightarrow> corpus" where
  "toy_decisions v kept =
     \<lparr>co_manifest = Some (enc (text_of (toy_corpus_manifest v kept))), co_dirs = Some [u ''a''],
      co_case = (\<lambda>p. if p = u ''cases/'' @ u ''a'' then Some toy_files else None)\<rparr>"

definition toy_allowed :: verdict where
  "toy_allowed = (''allow'', ''verdict_supported'')"

lemma zeros_scalar: "list_all scalar zeros"
  by (simp add: zeros_def list_all_iff)

lemma toy_record_read: "record_json toy_files = Inr toy_monitor_json"
proof -
  have "read_json (enc (text_of toy_monitor_json)) = Inr toy_monitor_json"
    by (rule read_json_text) (simp_all add: toy_monitor_json_def toy_coverage_def toy_verdict_def toy_window_def
        MONITOR_CONTRACT_ID_def SAFE_INT_LIMIT_def)
  then show ?thesis by (simp add: record_json_def toy_files_def)
qed

lemma toy_manifest_read:
  assumes "readable kept" and "scalar_strings kept"
  shows "load_manifest (toy_decisions v kept) = Inr (toy_corpus_manifest v kept)"
proof -
  have "read_json (enc (text_of (toy_corpus_manifest v kept))) = Inr (toy_corpus_manifest v kept)"
    by (rule read_json_text) (simp_all add: toy_corpus_manifest_def toy_corpus_entry_def verdict_json_def assms zeros_scalar)
  then show ?thesis by (simp add: load_manifest_def toy_decisions_def)
qed

lemma toy_kept_plain: "readable toy_kept" "scalar_strings toy_kept"
  by (simp_all add: toy_kept_def SAFE_INT_LIMIT_def)

lemma toy_kept_self: "py_eq toy_kept toy_kept"
  by (simp add: toy_kept_def)

lemma toy_retained: "monitor_retained toy_monitor_json = Inr toy_kept"
  by (simp add: monitor_retained_def complete_def toy_monitor_json_def toy_coverage_def toy_verdict_def toy_kept_def
      andr_def eq_rule_def)

lemma toy_monitor_verify: "monitor_verify toy_std toy_files = Inr toy_allowed"
  by (simp add: monitor_verify_def judged_record_def toy_record_read toy_monitor_failure allow_or_deny_def toy_allowed_def)

lemma toy_entries:
  assumes "readable kept" and "scalar_strings kept"
  shows "validated_entries toy_ctx (toy_decisions v kept) ''monitor-coverage/v1'' = Inr ([toy_corpus_entry v kept], None)"
  unfolding validated_entries_def toy_manifest_read [OF assms] bindr_simps
  by (simp add: toy_corpus_manifest_def dget_simps entry_id_def toy_corpus_entry_def case_path_def toy_decisions_def)

lemma toy_case:
  "check_case toy_ctx (toy_decisions v kept) (monitor_suite toy_std) verifier (toy_corpus_entry v kept) =
     bindr (answer_of (monitor_suite toy_std) verifier (u ''cases/'' @ u ''a'') toy_files) (\<lambda>(ran, observed).
     bindr (answer_fault (toy_corpus_entry v kept) observed) (\<lambda>faults.
       Inr (ran, map (Case_Fault (js ''a'')) ((if py_eq toy_kept kept then [] else [Retained_Differ]) @ faults))))"
proof -
  have f: "fixture_error toy_ctx (Some toy_files) (toy_corpus_entry v kept) = Inr None"
    by (simp add: fixture_error_def toy_corpus_entry_def toy_files_def)
  have k: "su_keep (monitor_suite toy_std) toy_monitor_json = Inr toy_kept" by (simp add: monitor_suite_def toy_retained)
  have e: "item (toy_corpus_entry v kept) (u ''id'') = Inr (js ''a'')"
    "item (toy_corpus_entry v kept) (u ''path'') = Inr (JStr (u ''cases/'' @ u ''a''))"
    "item (toy_corpus_entry v kept) (u ''retained'') = Inr kept"
    by (simp_all add: toy_corpus_entry_def)
  have c: "co_case (toy_decisions v kept) (u ''cases/'' @ u ''a'') = Some toy_files" by (simp add: toy_decisions_def)
  show ?thesis unfolding check_case_def e Let_def bindr_simps as_str.simps c f prod.case option.case toy_record_read k ..
qed

lemma toy_own_answer: "answer_of (monitor_suite toy_std) None p toy_files = Inr (True, Inr (verdict_json toy_allowed))"
  by (simp add: answer_of_def monitor_suite_def toy_monitor_verify)

text \<open>The process that prints the verdict.\<close>

definition toy_process :: "ustr \<Rightarrow> process" where
  "toy_process p = Exited 0 (enc (text_of (verdict_json toy_allowed)))"

lemma toy_printed: "printed_answer (text_of (verdict_json v)) = Inr (verdict_json v)"
proof -
  have "json_loads (text_of (verdict_json v)) = Inr (verdict_json v)"
    by (rule json_loads_text) (simp add: verdict_json_def)
  then show ?thesis by (simp add: printed_answer_def verdict_json_def)
qed

lemma external_prints:
  "utf8_decode out = Some t \<Longrightarrow> printed_answer t = Inr observed \<Longrightarrow>
   exit_for exits (member observed ''decision'') = Some n \<Longrightarrow> external_answer exits (Exited n out) = Inr (True, Inr observed)"
  by (simp add: external_answer_def)

lemma toy_external_answer:
  "answer_of (monitor_suite toy_std) (Some (c, toy_process)) p fs = Inr (True, Inr (verdict_json toy_allowed))"
proof -
  have "utf8_decode (enc (text_of (verdict_json toy_allowed))) = Some (text_of (verdict_json toy_allowed))"
    by (rule utf8_decode_concat, rule scalar_text) (simp_all add: verdict_json_def)
  moreover have "exit_for EXIT_FOR (member (verdict_json toy_allowed) ''decision'') = Some 0"
    by (simp add: verdict_json_def toy_allowed_def dget_simps EXIT_FOR_def)
  ultimately have "external_answer EXIT_FOR (toy_process p) = Inr (True, Inr (verdict_json toy_allowed))"
    unfolding toy_process_def by (intro external_prints [OF _ toy_printed])
  then show ?thesis by (simp add: answer_of_def monitor_suite_def)
qed

lemma py_eq_verdict: "py_eq (verdict_json v) (verdict_json w) \<longleftrightarrow> v = w"
  by (cases v; cases w) (auto simp: verdict_json_def)

lemma toy_row:
  assumes "verifier = None \<or> verifier = Some (c, toy_process)"
  shows "check_case toy_ctx (toy_decisions v kept) (monitor_suite toy_std) verifier (toy_corpus_entry v kept) =
    Inr (True, map (Case_Fault (js ''a'')) ((if py_eq toy_kept kept then [] else [Retained_Differ]) @
      (if toy_allowed = v then [] else [Answer_Differs (verdict_json v) (verdict_json toy_allowed)])))"
proof -
  have "item (toy_corpus_entry v kept) (u ''expected'') = Inr (verdict_json v)" by (simp add: toy_corpus_entry_def)
  then have "answer_fault (toy_corpus_entry v kept) (Inr (verdict_json toy_allowed)) =
      Inr (if toy_allowed = v then [] else [Answer_Differs (verdict_json v) (verdict_json toy_allowed)])"
    by (simp add: py_eq_verdict)
  with assms show ?thesis by (auto simp: toy_case toy_own_answer toy_external_answer)
qed

lemma toy_corpus_run:
  assumes "verifier = None \<or> verifier = Some (c, toy_process)" and "c \<noteq> []" and "readable kept" and "scalar_strings kept"
  shows "run_corpus toy_ctx (toy_decisions v kept) (monitor_suite toy_std) verifier =
    (let errors = map (Case_Fault (js ''a'')) ((if py_eq toy_kept kept then [] else [Retained_Differ]) @
      (if toy_allowed = v then [] else [Answer_Differs (verdict_json v) (verdict_json toy_allowed)]))
     in Inr (if errors \<noteq> [] then 1 else 0,
          Some \<lparr>cr_executed = 1, cr_vectors = 1, cr_conform = 1 - int (length errors), cr_fail = length errors,
            cr_failures = errors\<rparr>))"
proof -
  have n: "su_name (monitor_suite toy_std) = ''monitor-coverage/v1''" by (simp add: monitor_suite_def)
  have m: "manifest_total (toy_decisions v kept) = Inr (toy_corpus_manifest v kept, 1)"
    unfolding manifest_total_def toy_manifest_read [OF assms(3,4)] by (simp add: toy_corpus_manifest_def)
  have d: "item (toy_corpus_manifest v kept) (u ''corpusDigest'') = Inr (JStr zeros)" by (simp add: toy_corpus_manifest_def)
  have "map_option fst verifier \<noteq> Some []" using assms(1,2) by auto
  then show ?thesis
    unfolding run_corpus_def check_decision_corpus_def n toy_entries [OF assms(3,4)]
    by (simp add: toy_row [OF assms(1)] m d Let_def)
qed


section \<open>An attribution\<close>

text \<open>One message from \<open>a\<close> to \<open>b\<close> before the effect, cited by the chain of the hop.\<close>

definition toy_hop :: hop_claim where
  "toy_hop =
     \<lparr>hc_from = u ''a'', hc_to = u ''b'', hc_kind = u ''propagation'',
      hc_messages = [\<lparr>ms_id = u ''m1'', ms_digest = u ''d1'', ms_from = u ''a'', ms_to = u ''b'', ms_at = 1\<rparr>],
      hc_chain = [(u ''m1'', u ''d1'')], hc_effect = 2, hc_exposures = []\<rparr>"

definition toy_message :: json where
  "toy_message =
     JObj [(u ''digest'', js ''d1''), (u ''from'', js ''a''), (u ''id'', js ''m1''), (u ''sentAt'', js ''a''), (u ''to'', js ''b'')]"

definition toy_link :: json where
  "toy_link = JObj [(u ''digest'', js ''d1''), (u ''messageId'', js ''m1'')]"

definition toy_hop_member :: json where
  "toy_hop_member = JObj [(u ''attributedAs'', js ''propagation''), (u ''from'', js ''a''), (u ''to'', js ''b'')]"

definition toy_effect :: json where
  "toy_effect = JObj [(u ''at'', js ''ab'')]"

definition toy_hop_json :: json where
  "toy_hop_json =
     JObj [(u ''chain'', JArr [toy_link]), (u ''contractId'', JStr PROPAGATION_CONTRACT_ID), (u ''effect'', toy_effect),
           (u ''exposures'', JArr []), (u ''hop'', toy_hop_member), (u ''messages'', JArr [toy_message])]"

lemma toy_hop_carried: "carries_hop toy_std toy_hop_json toy_hop"
  unfolding carries_hop_def
  by (rule exI [of _ toy_hop_member], rule exI [of _ "[toy_message]"], rule exI [of _ "[toy_link]"], rule exI [of _ "[]"],
      rule exI [of _ toy_effect])
     (simp add: toy_hop_def toy_hop_json_def toy_hop_member_def toy_message_def toy_link_def toy_effect_def carries_message_def
       carries_link_def carries_time_def utc_offset_toy)

lemma toy_hop_supported: "supported_hop toy_hop"
proof -
  have "u ''a'' \<noteq> []" "u ''b'' \<noteq> []" by (simp_all add: u_def)
  then show ?thesis by (simp add: supported_hop_def toy_hop_def chain_logged_def sent_chain_def logged_as_def connects_def)
qed

lemma toy_hop_read: "record_json [(u ''record.json'', enc (text_of toy_hop_json))] = Inr toy_hop_json"
proof -
  have "read_json (enc (text_of toy_hop_json)) = Inr toy_hop_json"
    by (rule read_json_text) (simp_all add: toy_hop_json_def toy_hop_member_def toy_message_def toy_link_def toy_effect_def
        PROPAGATION_CONTRACT_ID_def)
  then show ?thesis by (simp add: record_json_def)
qed

end
