(* ===== verification/ToySigned.thy ===== *)
theory ToySigned
  imports Signer Refusal Example
begin

text \<open>A signed record and a refusal record at which the properties of their readers are applied.\<close>

section \<open>Sources of entries\<close>

definition toy_map :: "(json \<times> json) list \<Rightarrow> json" where
  "toy_map ps = JObj [(u ''entries'', JArr (map (\<lambda>(k, v). JArr [k, v]) ps))]"

text \<open>A value that is neither a list nor an object.\<close>

fun scalar_value :: "json \<Rightarrow> bool" where
  "scalar_value (JArr xs) = False"
| "scalar_value (JObj d) = False"
| "scalar_value v = True"

lemma toy_map_value: "map_value (toy_map ps) = Some (JArr (map (\<lambda>(k, v). JArr [k, v]) ps))"
  by (simp add: toy_map_def)

lemma toy_map_entries: "map_entries (JArr (map (\<lambda>(k, v). JArr [k, v]) ps)) = Inr ps"
proof -
  have "mapr unpack2 (map (\<lambda>(k, v). JArr [k, v]) ps) = Inr ps" by (induction ps) (auto simp: unpack2_def)
  then show ?thesis by (simp add: map_entries_def)
qed

lemma scalar_no_map: "scalar_value v \<Longrightarrow> map_value v = None \<and> as_list v = [] \<and> (\<nexists>xs. v = JArr xs) \<and> plain v = Leaf v"
  by (cases v) auto

lemma scalar_repeats: "scalar_value v \<Longrightarrow> repeats v = Inr False"
  using scalar_no_map [of v] by (subst repeats.simps) (simp add: own_repeat_def children_def)

lemma toy_map_repeats:
  assumes "list_all (\<lambda>(k, v). scalar_value v) ps" and "unrepeated (map fst ps)"
  shows "repeats (toy_map ps) = Inr False"
proof -
  have "mapr hash_check ks = Inr (map (\<lambda>_. ()) ks) \<and> dedup ks = ks" if "unrepeated ks" for ks
    using that by (induction rule: unrepeated.induct) (auto simp: hash_check_def)
  from this [OF assms(2)] have "own_repeat (toy_map ps) = Inr False"
    by (simp add: own_repeat_def toy_map_value toy_map_entries py_set_def)
  moreover have "anyr repeats (map snd ps) = Inr False" using assms(1) by (induction ps) (auto simp: scalar_repeats)
  ultimately show ?thesis by (subst repeats.simps) (simp add: children_def toy_map_value toy_map_entries)
qed

lemma toy_map_flatten:
  assumes "list_all (\<lambda>(k, v). scalar_value v) ps" and "unrepeated (map fst ps)"
  shows "flatten keep (toy_map ps) = Inr (Keyed (map (\<lambda>(k, v). (k, Leaf v)) ps))"
proof -
  have "mapr (read_entry keep) ps = Inr (map (\<lambda>(k, v). (k, Leaf v)) ps)"
    using assms(1) by (induction ps) (auto simp: read_entry_def flatten_other scalar_no_map)
  with flatten_unrepeated [OF toy_map_repeats [OF assms] toy_map_value toy_map_entries] show ?thesis by simp
qed

section \<open>A signed record\<close>

definition toy_source :: json where
  "toy_source = toy_map [(js ''d'', js ''x'')]"

definition toy_payload :: json where
  "toy_payload = JObj [(u ''d'', js ''x'')]"

definition toy_raw :: bytes where
  "toy_raw = enc (text_of toy_payload)"

definition toy_envelope :: json where
  "toy_envelope =
     JObj [(u ''excluded'', JArr []), (u ''payload'', JStr (b64encode toy_raw)), (u ''publicKey'', JStr (b64encode ident_key)),
           (u ''signature'', JStr (b64encode ident_sig))]"

definition toy_signed :: json where
  "toy_signed =
     JObj [(u ''consumerReads'', JArr [JArr [js ''d'']]), (u ''contractId'', JStr SIGNATURE_CONTRACT_ID),
           (u ''envelope'', toy_envelope), (u ''source'', toy_source)]"

definition toy_signed_std :: std where
  "toy_signed_std = \<lparr>sd_ctx = toy_ctx, sd_iso = (\<lambda>s. None), sd_fadd = (\<lambda>v w. Inr (JFloat NaN)), sd_text = utf8_decode\<rparr>"

definition toy_signed_files :: case_files where
  "toy_signed_files = [(u ''record.json'', enc (text_of toy_signed))]"

interpretation unique_text: keeping_hooks unique_hooks
  by unfold_locales (use dict_of_pairs [of "[]"] in \<open>simp add: unique_hooks_def plain_hooks_def\<close>)

lemma b64_char_ascii: "b64_char n < 128"
  by (auto simp: b64_char_def)

lemma b64_scalar: "list_all scalar (b64encode bs)"
  by (induction bs rule: b64encode.induct) (auto simp: b64_char_ascii)

lemma toy_bytes: "is_bytes toy_raw" "is_bytes ident_key" "is_bytes ident_sig"
proof -
  have "text_of toy_payload = [123, 34, 100, 34, 58, 34, 120, 34, 125]"
    by (simp add: toy_payload_def jcs_string_def jcs_char_def u_def)
  then show "is_bytes toy_raw" by (simp add: toy_raw_def)
  have "is_bytes (replicate n 0)" for n by (simp add: is_bytes_def list_all_iff)
  then show "is_bytes ident_key" "is_bytes ident_sig" by (simp_all add: ident_key_def ident_sig_def)
qed

lemma toy_signed_read: "record_json toy_signed_files = Inr toy_signed"
proof -
  have "read_json (enc (text_of toy_signed)) = Inr toy_signed"
    by (rule read_json_text) (simp_all add: toy_signed_def toy_envelope_def toy_source_def toy_map_def SIGNATURE_CONTRACT_ID_def
        b64_scalar)
  then show ?thesis by (simp add: record_json_def toy_signed_files_def)
qed


lemma toy_signed_payload: "signed_payload toy_signed = Inr toy_raw"
  by (simp add: signed_payload_def toy_signed_def toy_envelope_def b64decode_encode toy_bytes)

lemma toy_payload_text: "readable toy_payload" "utf8_decode toy_raw = Some (text_of toy_payload)"
proof -
  show r: "readable toy_payload" by (simp add: toy_payload_def)
  have "list_all scalar (text_of toy_payload)" by (rule scalar_text [OF r]) (simp add: toy_payload_def)
  then show "utf8_decode toy_raw = Some (text_of toy_payload)" unfolding toy_raw_def by (rule utf8_decode_concat)
qed

lemma toy_payload_loads:
  "loads_bytes toy_signed_std plain_hooks toy_raw = Inr toy_payload"
  "loads_bytes toy_signed_std unique_hooks toy_raw = Inr toy_payload"
  using plain_text.loads_printed [OF toy_payload_text(1)] unique_text.loads_printed [OF toy_payload_text(1)] toy_payload_text(2)
  by (simp_all add: loads_bytes_def toy_signed_std_def)

lemma toy_signature_valid: "signature_valid toy_signed_std toy_signed = Inr True"
proof -
  have "cx_sha512 (sd_ctx toy_signed_std) = (\<lambda>b. replicate 64 0)" by (simp add: toy_signed_std_def toy_ctx_def)
  then show ?thesis
    unfolding signature_valid_def toy_signed_payload
    by (simp add: toy_signed_def toy_envelope_def b64decode_encode toy_bytes ident_verifies)
qed

lemma toy_source_read: "item toy_signed (u ''source'') = Inr toy_source"
  by (simp add: toy_signed_def)

lemma toy_source_repeats: "repeats toy_source = Inr False"
  unfolding toy_source_def by (rule toy_map_repeats) (auto intro: unrepeated.intros)

lemma toy_source_flatten: "flatten keep toy_source = Inr (Keyed [(js ''d'', Leaf (js ''x''))])"
  unfolding toy_source_def by (subst toy_map_flatten) (auto intro: unrepeated.intros)

lemma toy_signed_allowed: "signature_failure toy_signed_std toy_signed = Inr None"
proof -
  have c: "list_all (\<lambda>(n, b). b = Inr False) (contract_rules SIGNATURE_CONTRACT_ID toy_signed)"
    by (rule contract_rules_pass) (simp add: toy_signed_def)
  have p: "payload_value toy_signed_std toy_signed = Inr toy_payload"
    by (simp add: payload_value_def toy_signed_payload toy_payload_loads)
  have m: "repeated_member toy_signed_std toy_signed = Inr False"
    by (simp add: repeated_member_def toy_signed_payload toy_payload_loads)
  have n: "inexact_numbers toy_signed_std toy_signed = Inr False"
    by (simp add: inexact_numbers_def p toy_source_read orr_def toy_source_def toy_map_def toy_payload_def)
  have e: "excluded_keys toy_signed = Inr []"
    by (simp add: excluded_keys_def toy_signed_def toy_envelope_def py_set_def)
  have d: "reading_differs toy_signed_std toy_signed = Inr False"
    by (simp add: reading_differs_def toy_source_read toy_source_flatten e p toy_payload_def)
  have r: "reads_unsigned toy_signed = Inr False"
    unfolding reads_unsigned_def e by (simp add: toy_signed_def)
  show ?thesis
    unfolding signature_failure_def first_failed_None
    by (simp add: c toy_signature_valid m n toy_source_read toy_source_repeats d r)
qed

lemma toy_signed_verify: "signature_verify toy_signed_std toy_signed_files = Inr (''allow'', ''signature_covers_reading'')"
  by (simp add: signature_verify_def judged_record_def toy_signed_read toy_signed_allowed allow_or_deny_def)

lemma toy_finds: "finds toy_source [Key (u ''d'')] (js ''x'')"
  unfolding toy_source_def
  by (rule finds_member [OF toy_map_value toy_map_entries]) (auto intro: finds_here)

section \<open>Signature inputs\<close>

text \<open>Two orders of the same members.\<close>

definition toy_members :: "(json \<times> json) list" where
  "toy_members = [(js ''a'', JInt 1), (js ''b'', js ''x'')]"

lemma toy_signable: "signable (Keyed (map (\<lambda>(k, v). (k, Leaf v)) toy_members))"
  "signable (Keyed (map (\<lambda>(k, v). (k, Leaf v)) (rev toy_members)))"
  by (simp_all add: toy_members_def MAX_EXACT_INTEGER_def)

lemma toy_input:
  assumes "list_all (\<lambda>(k, v). scalar_value v) ps" and "unrepeated (map fst ps)"
    and "signable (Keyed (map (\<lambda>(k, v). (k, Leaf v)) ps))"
  shows "signature_input cx (toy_map ps) = Inr (Some (enc (text_of (value_of (Keyed (map (\<lambda>(k, v). (k, Leaf v)) ps))))))"
proof -
  have "\<not> has_surrogate (text_of (value_of (Keyed (map (\<lambda>(k, v). (k, Leaf v)) ps))))"
    using text_scalars [OF assms(3)] by (rule scalar_no_surrogate)
  then show ?thesis
    unfolding signature_input_def toy_map_repeats [OF assms(1,2)] toy_map_flatten [OF assms(1,2)] bindr_simps
      reading_text_value [OF assms(3)] utf8_encode_def
    by simp
qed

text \<open>A null key and the string it is written as.\<close>

lemma toy_null_key:
  "signature_input cx (toy_map [(JNull, JInt 1)]) = signature_input cx (toy_map [(js ''null'', JInt 1)])"
  "signature_input cx (toy_map [(JNull, JInt 1)]) \<noteq> Inr None"
  "\<exists>raw. signature_input cx (toy_map [(JNull, JInt 1)]) = Inr raw"
  "flatten False (toy_map [(JNull, JInt 1)]) \<noteq> flatten False (toy_map [(js ''null'', JInt 1)])"
proof -
  have p: "list_all (\<lambda>(k, v). scalar_value v) [(k, JInt 1)]" "unrepeated (map fst [(k, JInt 1)])" if "hashable k" for k
    using that by (auto intro: unrepeated.intros)
  have i: "signature_input cx (toy_map [(k, JInt 1)]) =
      bindr (utf8_encode (u ''{'' @ jcs_string (u ''null'') @ u '':1}'')) (\<lambda>raw. Inr (Some raw))"
    if "k = JNull \<or> k = js ''null''" for k
  proof -
    have h: "hashable k" using that by auto
    have "key_text cx k = u ''null''" using that by auto
    then have "reading_text cx (Keyed (map (\<lambda>(k, v). (k, Leaf v)) [(k, JInt 1)])) = Inr (u ''{'' @ jcs_string (u ''null'') @ u '':1}'')"
      by (simp add: sort_members_def int_str_def nat_str.simps u_def)
    then show ?thesis
      unfolding signature_input_def toy_map_repeats [OF p [OF h]] toy_map_flatten [OF p [OF h]] bindr_simps by simp
  qed
  show e: "signature_input cx (toy_map [(JNull, JInt 1)]) = signature_input cx (toy_map [(js ''null'', JInt 1)])"
    using i by simp
  show "signature_input cx (toy_map [(JNull, JInt 1)]) \<noteq> Inr None" using i by (auto simp: bindr_Inr_iff)
  have "\<not> has_surrogate (u ''{'' @ jcs_string (u ''null'') @ u '':1}'')"
    by (rule scalar_no_surrogate) (simp add: string_scalars)
  then show "\<exists>raw. signature_input cx (toy_map [(JNull, JInt 1)]) = Inr raw" using i by (simp add: utf8_encode_def)
  show "flatten False (toy_map [(JNull, JInt 1)]) \<noteq> flatten False (toy_map [(js ''null'', JInt 1)])"
    using toy_map_flatten [OF p] by simp
qed


section \<open>A refusal\<close>

text \<open>Two conditions apply, and the response emits the first of them.\<close>

definition toy_refusing :: refusing where
  "toy_refusing =
     \<lparr>rf_reason = Some ''evidence_expired'', rf_applies = {''evidence_expired'', ''authority_revoked''}, rf_lease = None,
      rf_relied = None, rf_filled = False, rf_diagnostic = False, rf_moved = False\<rparr>"

definition toy_grant :: json where
  "toy_grant = JObj [(u ''expiresAtMs'', JInt 5)]"

definition toy_response :: json where
  "toy_response = JObj [(u ''grantRef'', toy_grant), (u ''reason'', js ''evidence_expired'')]"

definition toy_facts :: json where
  "toy_facts =
     JObj [(u ''authority'', js ''revoked''), (u ''evidenceExpired'', JBool True), (u ''grantExpiresAtMs'', JInt 5)]"

definition toy_refusal :: json where
  "toy_refusal =
     JObj [(u ''contractId'', JStr REFUSAL_CONTRACT_ID), (u ''facts'', toy_facts), (u ''response'', toy_response)]"

lemma toy_dget: "dget [] k = JNull" "dget ((a, v) # d) k = (if a = k then v else dget d k)"
  by (simp_all add: dget_def)

lemma toy_applicable: "applicable toy_facts = Inr [''evidence_expired'', ''authority_revoked'']"
  by (simp add: applicable_def toy_facts_def toy_dget)

lemma toy_refusal_carried: "carries_refusing toy_refusal toy_refusing"
  unfolding carries_refusing_def
  by (rule exI [of _ toy_response], rule exI [of _ toy_facts], rule exI [of _ "[''evidence_expired'', ''authority_revoked'']"],
      rule exI [of _ toy_grant], rule exI [of _ JNull], rule exI [of _ 5], rule exI [of _ 5])
     (simp add: toy_applicable toy_refusal_def toy_response_def toy_grant_def toy_refusing_def FIVE_def carries_lease_def
       carries_relied_def, simp add: toy_facts_def toy_dget)

lemma toy_refusal_read: "record_json [(u ''record.json'', enc (text_of toy_refusal))] = Inr toy_refusal"
proof -
  have "read_json (enc (text_of toy_refusal)) = Inr toy_refusal"
    by (rule read_json_text) (simp_all add: toy_refusal_def toy_response_def toy_facts_def toy_grant_def SAFE_INT_LIMIT_def
        REFUSAL_CONTRACT_ID_def)
  then show ?thesis by (simp add: record_json_def)
qed

lemma toy_refusal_follows: "follows toy_refusing" "settled toy_refusing"
  by (simp_all add: follows_def settled_def at_lease_def owed_reason_def toy_refusing_def FIVE_def)

end
