(* ===== verification/Readmission.thy ===== *)
theory Readmission
  imports ToyJournal
begin

text \<open>
  No admissible journal locks an agent out: whatever the walk went through, a restart, a score below the
  threshold from another witness, a restoration that cites both and a decision that adds an edge of the
  agent are accepted behind it.
\<close>

section \<open>Longer journals\<close>

definition append_entries :: "journal \<Rightarrow> entry list \<Rightarrow> journal" where
  "append_entries rn es = rn\<lparr>rn_entries := rn_entries rn @ es\<rparr>"

definition digests :: "ctx \<Rightarrow> entry list \<Rightarrow> ustr list" where
  "digests cx es = map (\<lambda>e. entry_digest cx (en_raw e)) es"

lemma appended [simp]:
  "rn_entries (append_entries rn es) = rn_entries rn @ es" "rn_agents (append_entries rn es) = rn_agents rn"
  "rn_enforcement (append_entries rn es) = rn_enforcement rn" "rn_fields (append_entries rn es) = rn_fields rn"
  "rn_claims (append_entries rn es) = rn_claims rn" "rn_snapshot (append_entries rn es) = rn_snapshot rn"
  by (simp_all add: append_entries_def)

lemma by_digest_iff:
  assumes "distinct (digests cx (rn_entries rn))"
  shows "by_digest cx rn d = Some i \<longleftrightarrow> i < length (rn_entries rn) \<and> entry_digest cx (en_raw (rn_entries rn ! i)) = d"
proof -
  let ?ps = "map (\<lambda>(i, e). (entry_digest cx (en_raw e), i)) (enumerate 0 (rn_entries rn))"
  have "map fst ?ps = digests cx (rn_entries rn)"
    unfolding digests_def by (rule nth_equalityI) (simp_all add: nth_enumerate_eq)
  with assms have d: "distinct (map fst (rev ?ps))" by (simp flip: rev_map)
  then have "by_digest cx rn d = Some i \<longleftrightarrow> (d, i) \<in> set (rev ?ps)" by (simp add: by_digest_def)
  also have "\<dots> \<longleftrightarrow> i < length (rn_entries rn) \<and> entry_digest cx (en_raw (rn_entries rn ! i)) = d"
    by (auto simp: in_set_enumerate_eq image_iff intro!: bexI [of _ "(i, rn_entries rn ! i)"])
  finally show ?thesis .
qed

text \<open>What the walk accepted it accepts with entries behind it, unless their digests collide.\<close>

lemma cited_longer:
  assumes "distinct (digests cx (rn_entries rn @ es))" and "cited_entry cx rn i d = Inr e"
  shows "cited_entry cx (append_entries rn es) i d = Inr e"
proof -
  from assms(1) have d: "distinct (digests cx (rn_entries rn))" "distinct (digests cx (rn_entries (append_entries rn es)))"
    by (simp_all add: digests_def)
  from assms(2) obtain at where at: "by_digest cx rn d = Some at" "\<not> i \<le> at" "e = rn_entries rn ! at"
    by (auto simp: cited_entry_def refuse_def split: option.splits if_splits)
  from at(1) have "at < length (rn_entries rn)" "entry_digest cx (en_raw (rn_entries rn ! at)) = d"
    by (simp_all add: by_digest_iff [OF d(1)])
  moreover from this have "by_digest cx (append_entries rn es) d = Some at" by (simp add: by_digest_iff [OF d(2)] nth_append)
  ultimately show ?thesis using at by (simp add: cited_entry_def refuse_def nth_append)
qed

lemma mapr_mono: "mapr f xs = Inr ys \<Longrightarrow> (\<And>x y. f x = Inr y \<Longrightarrow> g x = Inr y) \<Longrightarrow> mapr g xs = Inr ys"
  by (induction xs arbitrary: ys) (auto simp: bindr_Inr_iff)

lemma loopr_mono: "loopr f xs s = Inr t \<Longrightarrow> (\<And>x s t. f x s = Inr t \<Longrightarrow> g x s = Inr t) \<Longrightarrow> loopr g xs s = Inr t"
  by (induction xs arbitrary: s) (auto simp: bindr_Inr_iff)

lemma restoration_longer:
  assumes "distinct (digests cx (rn_entries rn @ es))" and "walk_restoration cx rn i r w = Inr w'"
  shows "walk_restoration cx (append_entries rn es) i r w = Inr w'"
proof (cases "rs_admitted r")
  case True
  with assms(2) obtain cited where c: "mapr (cited_entry cx rn i) (rs_evidence r) = Inr cited"
    by (auto simp: walk_restoration_def bindr_Inr_iff refuse_def split: if_splits)
  have "mapr (cited_entry cx (append_entries rn es) i) (rs_evidence r) = Inr cited"
    by (rule mapr_mono [OF c cited_longer [OF assms(1)]])
  with c have "bindr (mapr (cited_entry cx (append_entries rn es) i) (rs_evidence r)) f =
      bindr (mapr (cited_entry cx rn i) (rs_evidence r)) f" for f :: "entry list \<Rightarrow> walk res" by simp
  with assms(2) show ?thesis unfolding walk_restoration_def by (simp only:)
qed (use assms(2) in \<open>simp add: walk_restoration_def\<close>)

lemma entry_longer:
  assumes "distinct (digests cx (rn_entries rn @ es))" and "walk_entry cx rn x w = Inr w'"
  shows "walk_entry cx (append_entries rn es) x w = Inr w'"
proof -
  obtain i e where x: "x = (i, e)" by (cases x)
  have c: "claims (append_entries rn es) name = claims rn name" "enforced (append_entries rn es) = enforced rn" for name
    by (simp_all add: claims_def enforced_def)
  have un: "unreturned (append_entries rn es) i w = unreturned rn i w" for i w by (simp add: fun_eq_iff unreturned_def)
  have "walk_delivery (append_entries rn es) = walk_delivery rn" "walk_decision (append_entries rn es) = walk_decision rn"
    "walk_fallback (append_entries rn es) = walk_fallback rn" "walk_response (append_entries rn es) = walk_response rn"
    "walk_retrieval cx (append_entries rn es) = walk_retrieval cx rn"
    by (simp_all add: fun_eq_iff walk_delivery_def walk_decision_def walk_fallback_def walk_response_def walk_retrieval_def
        replace_def c un)
  with assms restoration_longer [OF assms(1)] show ?thesis by (auto simp: x split: event.splits)
qed

lemma enumerate_append: "enumerate n (xs @ ys) = enumerate n xs @ enumerate (n + length xs) ys"
  by (induction xs arbitrary: n) auto

lemma run_longer:
  assumes "distinct (digests cx (rn_entries rn @ es))" and "rn_entries rn \<noteq> []" and "walk_run cx rn = Inr w"
  shows "walk_run cx (append_entries rn es) =
    loopr (walk_entry cx (append_entries rn es)) (enumerate (length (rn_entries rn)) es) w"
proof -
  let ?xs = "enumerate 1 (tl (rn_entries rn))"
  have "loopr (walk_entry cx rn) ?xs (init_walk rn) = Inr w" using assms(3) by (simp add: walk_run_def)
  from loopr_mono [OF this entry_longer [OF assms(1)]]
  have "loopr (walk_entry cx (append_entries rn es)) ?xs (init_walk rn) = Inr w" .
  moreover have "init_walk (append_entries rn es) = init_walk rn" using assms(2) by (simp add: init_walk_def)
  moreover have "enumerate 1 (tl (rn_entries rn @ es)) = ?xs @ enumerate (length (rn_entries rn)) es"
    using assms(2) by (cases "rn_entries rn") (simp_all add: enumerate_append)
  ultimately show ?thesis by (simp add: walk_run_def loopr_append)
qed

section \<open>The way back\<close>

definition reconnecting :: "ustr list \<Rightarrow> edge list \<Rightarrow> edge \<Rightarrow> decision" where
  "reconnecting agents g e =
     (let new = listed (e # g)
      in \<lparr>dc_basis = u ''evidence_gate'', dc_function = u ''restoration'', dc_edges = new,
          dc_removed = listed (minus_edges g new), dc_added = listed (minus_edges new g), dc_isolated = isolated agents new,
          dc_estimates = [], dc_inputs = []\<rparr>)"

text \<open>The four entries after a walk that ended in \<open>w\<close>: the restart may change the configuration or not.\<close>

definition way_back :: "ctx \<Rightarrow> journal \<Rightarrow> walk \<Rightarrow> ustr \<Rightarrow> ustr \<Rightarrow> entry list \<Rightarrow> bool" where
  "way_back cx rn w a b es \<longleftrightarrow>
     (\<exists>e1 e2 e3 e4 cfg cfg' s wit t. es = [e1, e2, e3, e4] \<and>
        en_event e1 = Restart a (cfg \<noteq> cfg') True cfg cfg' \<and>
        en_event e2 = Assessment a (Some s) (u ''scored'') wit \<and> wit \<noteq> u ''SELF'' \<and> s < t \<and>
        en_event e3 = Restoration \<lparr>rs_agent = a, rs_admitted = True, rs_threshold = t, rs_evidence = digests cx [e1, e2]\<rparr> \<and>
        en_event e4 = Decision (reconnecting (rn_agents rn) (wk_graph w) (a, b)))"

lemma set_listed [simp]: "set (listed es) = set es"
  by (simp add: listed_def)

lemma walked_end:
  assumes "walked cx rn" and "walk_run cx rn = Inr w"
  shows "walk_inv rn (length (rn_entries rn)) w"
proof -
  from assms(1) obtain e es g where es: "rn_entries rn = e # es" "en_event e = Topology g" by (auto simp: walked_def)
  with assms(2) have "loopr (walk_entry cx rn) (enumerate 1 es) (init_walk rn) = Inr w" by (simp add: walk_run_def)
  from loopr_enumerate [where P = "walk_inv rn", OF this walk_inv_init [OF es]]
  have "walk_inv rn (1 + length es) w"
  proof (rule conjunct1)
    fix i s s'
    assume "1 \<le> i" "i < 1 + length es" "walk_inv rn i s" "walk_entry cx rn (i, es ! (i - 1)) s = Inr s'"
    then show "walk_inv rn (Suc i) s'" by (intro walk_entry_inv [of rn i s cx]) (simp_all add: es nth_Cons')
  qed
  then show ?thesis by (simp add: es)
qed

lemma reconnecting_accepted:
  assumes inv: "walk_inv rn n w" and adm: "wk_admitted w' = wk_admitted w @ [(a, m)]" and iso: "wk_isolated w' = wk_isolated w"
    and graph: "wk_graph w' = wk_graph w" and "n \<le> m" and "m < i" and agents: "rn_agents rn' = rn_agents rn"
  shows "\<exists>w''. walk_decision rn' i (reconnecting (rn_agents rn) (wk_graph w) (a, b)) w' = Inr w'' \<and>
    set (wk_graph w'') = insert (a, b) (set (wk_graph w))"
proof -
  let ?new = "listed ((a, b) # wk_graph w)"
  let ?returned = "filter (\<lambda>c. c \<notin> set (isolated (rn_agents rn) ?new)) (map fst (wk_isolated w'))"
  have "\<not> unreturned rn' i w' c" if c: "c \<in> set ?returned" for c
  proof -
    have "map fst (wk_isolated w) = isolated (rn_agents rn) (wk_graph w)" using inv by (simp add: walk_inv_def)
    then have "c \<in> set (isolated (rn_agents rn) (wk_graph w))" using c iso by simp
    then have "c \<in> set (rn_agents rn)" "c \<notin> fst ` set (wk_graph w)" by (auto simp: set_isolated)
    moreover from this(1) c have "c \<in> fst ` set ?new" by (auto simp: set_isolated)
    ultimately have a: "c = a" by auto
    have "since w c \<noteq> None"
      using since_None [OF inv, of c] walk_inv_channel [OF inv, of c] \<open>c \<in> set (rn_agents rn)\<close> \<open>c \<notin> fst ` set (wk_graph w)\<close>
      by blast
    then obtain k where k: "since w c = Some k" by blast
    with since_Some [OF inv] have "k < n" by (auto simp: isolated_from_def)
    with k a iso adm assms(5,6) show ?thesis by (simp add: unreturned_def since_def)
  qed
  then have "\<not> list_ex (unreturned rn' i w') ?returned" unfolding list_ex_iff by blast
  moreover have "\<not> starts (u ''detector_'') (u ''evidence_gate'')" by simp
  ultimately have "walk_decision rn' i (reconnecting (rn_agents rn) (wk_graph w) (a, b)) w' = Inr (replace rn' i ?new w')"
    by (simp add: walk_decision_def Let_def reconnecting_def graph agents refuse_def)
  then show ?thesis by (simp add: replace_def)
qed

lemma way_back_accepted:
  assumes "walked cx rn" and "walk_run cx rn = Inr w" and "way_back cx rn w a b es"
    and d: "distinct (digests cx (rn_entries rn @ es))"
  shows "\<exists>w'. walk_run cx (append_entries rn es) = Inr w' \<and> set (wk_graph w') = insert (a, b) (set (wk_graph w))"
proof -
  from assms(3) obtain e1 e2 e3 e4 cfg cfg' s wit t where es: "es = [e1, e2, e3, e4]"
    and ev: "en_event e1 = Restart a (cfg \<noteq> cfg') True cfg cfg'" "en_event e2 = Assessment a (Some s) (u ''scored'') wit"
      "wit \<noteq> u ''SELF''" "s < t"
      "en_event e3 = Restoration \<lparr>rs_agent = a, rs_admitted = True, rs_threshold = t, rs_evidence = digests cx [e1, e2]\<rparr>"
      "en_event e4 = Decision (reconnecting (rn_agents rn) (wk_graph w) (a, b))"
    unfolding way_back_def by blast
  let ?rn = "append_entries rn es"
  let ?n = "length (rn_entries rn)"
  have ne: "rn_entries rn \<noteq> []" using assms(1) by (auto simp: walked_def)
  have "distinct (digests cx (rn_entries ?rn))" using d by simp
  from by_digest_iff [OF this] have found: "by_digest cx ?rn (entry_digest cx (en_raw e1)) = Some ?n"
    "by_digest cx ?rn (entry_digest cx (en_raw e2)) = Some (Suc ?n)"
    by (simp_all add: es nth_append)
  have c: "cited_entry cx ?rn (Suc (Suc ?n)) (entry_digest cx (en_raw e1)) = Inr e1"
    "cited_entry cx ?rn (Suc (Suc ?n)) (entry_digest cx (en_raw e2)) = Inr e2"
    unfolding cited_entry_def found by (simp_all add: refuse_def es nth_append)
  let ?w = "w\<lparr>wk_admitted := wk_admitted w @ [(a, Suc (Suc ?n))]\<rparr>"
  have r: "walk_restoration cx ?rn (Suc (Suc ?n))
      \<lparr>rs_agent = a, rs_admitted = True, rs_threshold = t, rs_evidence = digests cx [e1, e2]\<rparr> w = Inr ?w"
    using ev by (simp add: walk_restoration_def digests_def c refuse_def)
  from reconnecting_accepted [OF walked_end [OF assms(1,2)], of ?w a "Suc (Suc ?n)" "Suc (Suc (Suc ?n))" ?rn b]
  obtain w'' where "walk_decision ?rn (Suc (Suc (Suc ?n))) (reconnecting (rn_agents rn) (wk_graph w) (a, b)) ?w = Inr w''"
    "set (wk_graph w'') = insert (a, b) (set (wk_graph w))" by auto
  then show ?thesis
    unfolding run_longer [OF d ne assms(2)] using ev r
    by (simp add: es walk_restart_def walk_assessment_def refuse_def)
qed


section \<open>The toy journal cut off\<close>

definition j_short :: journal where
  "j_short = j_journal\<lparr>rn_entries := take 2 j_entries\<rparr>"

definition j_four :: "entry list" where
  "j_four =
     [j_item 2 (numbered 1) (Restart j_a True True (numbered 0) (numbered 1)) j_restart,
      j_item 3 (numbered 2) (Assessment j_a (Some 2) (u ''scored'') (u ''EXTERNAL'')) j_assessment,
      j_item 4 (numbered 3) (Restoration j_readmission) j_restoration,
      j_item 5 (numbered 4) (Decision j_back_decision) j_reconnect]"

lemma j_short_run: "walk_run jcx j_short = Inr j_isolated"
proof -
  have s: "init_walk j_short = j_start"
    using j_agents by (simp add: init_walk_def j_short_def j_entries_def j_item_def j_start_def isolated_def j_journal_def)
  have "walk_decision j_short 1 j_cut_decision j_start = Inr j_isolated"
    using j_agents
    by (simp add: walk_decision_def Let_def refuse_def j_cut_decision_def j_start_def j_isolated_def isolated_def
        minus_edges_def listed_def replace_def since_def j_short_def j_journal_def)
  then show ?thesis unfolding walk_run_def s by (simp add: j_short_def j_entries_def j_item_def)
qed

lemma j_short_walked: "walked jcx j_short"
  using j_short_run j_agents by (auto simp: walked_def j_short_def j_entries_def j_item_def j_journal_def)

lemma j_way_back: "way_back jcx j_short j_isolated j_a j_b j_four"
proof -
  have r: "reconnecting (rn_agents j_short) (wk_graph j_isolated) (j_a, j_b) = j_back_decision"
    using j_agents by (simp add: reconnecting_def Let_def j_back_decision_def listed_def minus_edges_def isolated_def j_isolated_def
        j_short_def j_journal_def)
  have d: "digests jcx [j_four ! 0, j_four ! 1] = [numbered 2, numbered 3]"
    by (simp add: digests_def j_four_def j_item_def j_digests)
  show ?thesis
    unfolding way_back_def
    by (rule exI [of _ "j_four ! 0"], rule exI [of _ "j_four ! 1"], rule exI [of _ "j_four ! 2"], rule exI [of _ "j_four ! 3"],
        rule exI [of _ "numbered 0"], rule exI [of _ "numbered 1"], rule exI [of _ 2], rule exI [of _ "u ''EXTERNAL''"],
        rule exI [of _ 5])
       (simp add: d r, simp add: j_four_def j_item_def j_readmission_def digests_def j_digests)
qed

lemma j_short_digests: "distinct (digests jcx (rn_entries j_short @ j_four))"
  by (simp add: digests_def j_short_def j_four_def j_entries_def j_item_def j_digests)

end
