(* ===== verification/JournalSuite.thy ===== *)
theory JournalSuite
  imports Decisions JournalTotal
begin

text \<open>
  The containment journal as a suite of the decision harness (\<open>verify\<close>, \<open>retained\<close> and \<open>check\<close> of
  \<open>packaging/agent_evidence_vectors/containmentjournal.py\<close>): a case directory holds a journal and, for some
  cases, a receipt.
\<close>

fun ruling_word :: "ruling \<Rightarrow> string" where
  "ruling_word Allow = ''allow''"
| "ruling_word Deny = ''deny''"

definition containment_verify :: "ctx \<Rightarrow> case_files \<Rightarrow> verdict res" where
  "containment_verify cx files =
     (case map_of files (u ''record.json'') of
        None \<Rightarrow> Inl OSError
      | Some raw \<Rightarrow>
          bindr (journal_verify cx raw (map_of files (u ''receipt.json''))) (\<lambda>(r, reason). Inr (ruling_word r, reason)))"

text \<open>The values of \<open>event\<close>, of the entries that are objects.\<close>

definition journal_events :: "json \<Rightarrow> json list" where
  "journal_events record =
     map (\<lambda>e. member e ''event'') (filter is_dict (as_list (member record ''entries'')))"

definition containment_retained :: "ctx \<Rightarrow> json \<Rightarrow> json res" where
  "containment_retained cx record =
     (let events = journal_events record;
          names = sort (remdups (map (py_str cx) events))
      in Inr (JObj [(u ''enforcement'', member record ''enforcement''), (u ''entries'', JInt (int (length events))),
                    (u ''events'', JObj (map (\<lambda>n. (n, JInt (int (count_list events (JStr n))))) names))]))"

definition containment_suite :: "ctx \<Rightarrow> suite_reader" where
  "containment_suite cx =
     \<lparr>su_name = ''containment-journal/v1'', su_verify = containment_verify cx, su_keep = containment_retained cx,
      su_exits = EXIT_FOR\<rparr>"

definition journal_reasons :: "string list" where
  "journal_reasons = [''containment_consistent'', ''blast_radius_consistent'']"

lemma receipt_declared: "judge_receipt cx r bad rn = Some n \<Longrightarrow> n \<in> set RECEIPT_CHECKS"
  unfolding judge_receipt_def Let_def by (drule first_rule_mem) (simp add: RECEIPT_CHECKS_def)

lemma answer_word: "answer f a = (r, reason) \<Longrightarrow> (ruling_word r, reason) = allow_or_deny a f"
  by (auto simp: answer_def allow_or_deny_def split: option.splits)

lemma journal_answer:
  assumes "journal_verify cx raw receipt = Inr (r, reason)"
  obtains f a where "answer f a = (r, reason)" "a \<in> set journal_reasons" "\<forall>n. f = Some n \<longrightarrow> n \<in> set (CHECKS @ RECEIPT_CHECKS)"
proof -
  from assms obtain v bad where load: "strict_load raw = Inr (v, bad)" by (auto simp: journal_verify_def bindr_Inr_iff)
  obtain f where f: "judge_journal cx v bad = Inr f" "\<forall>n. f = Some n \<longrightarrow> n \<in> set CHECKS" using judged by blast
  have "(\<exists>bad' r' rn. answer (judge_receipt cx r' bad' rn) ''blast_radius_consistent'' = (r, reason)) \<or>
      answer f ''containment_consistent'' = (r, reason)"
    using assms by (auto simp: journal_verify_def load f(1) bindr_Inr_iff split: option.splits)
  then show thesis
  proof
    assume "\<exists>bad' r' rn. answer (judge_receipt cx r' bad' rn) ''blast_radius_consistent'' = (r, reason)"
    then obtain bad' r' rn where j: "answer (judge_receipt cx r' bad' rn) ''blast_radius_consistent'' = (r, reason)" by blast
    show thesis by (rule that [OF j]) (use receipt_declared in \<open>auto simp: journal_reasons_def\<close>)
  next
    assume j: "answer f ''containment_consistent'' = (r, reason)"
    show thesis by (rule that [OF j]) (use f(2) in \<open>auto simp: journal_reasons_def\<close>)
  qed
qed

interpretation containment: corpus_reader "containment_verify cx" EXIT_FOR
  "allow_deny_reasons journal_reasons (CHECKS @ RECEIPT_CHECKS)" for cx
proof (rule allow_deny_reader)
  fix files v assume "containment_verify cx files = Inr v"
  then obtain raw r reason where raw: "journal_verify cx raw (map_of files (u ''receipt.json'')) = Inr (r, reason)"
    "v = (ruling_word r, reason)"
    by (auto simp: containment_verify_def bindr_Inr_iff split: option.splits)
  obtain f a where f: "answer f a = (r, reason)" "a \<in> set journal_reasons" "\<forall>n. f = Some n \<longrightarrow> n \<in> set (CHECKS @ RECEIPT_CHECKS)"
    by (rule journal_answer [OF raw(1)])
  with answer_word raw(2) show "\<exists>a f. v = allow_or_deny a f \<and> a \<in> set journal_reasons \<and>
      (\<forall>name. f = Some name \<longrightarrow> name \<in> set (CHECKS @ RECEIPT_CHECKS))" by metis
next
  show "set journal_reasons \<inter> set (CHECKS @ RECEIPT_CHECKS) = {}"
    by (simp add: journal_reasons_def CHECKS_def RECEIPT_CHECKS_def)
qed

end
