(* ===== verification/DecisionProperties.thy ===== *)
theory DecisionProperties
  imports ToyDecisions ToySigned Readmission JournalSuite
begin

text \<open>What the decision corpora and their readers show, with the inputs the properties are applied at.\<close>

section \<open>Runs\<close>

text \<open>C25. A run over a decision corpus that ends with zero had declared entries (the digest of the manifest,
  distinct identifiers, the case directories), and every case had its declared files, kept its declared
  members and was answered with its declared decision.\<close>

theorem exit_zero_decides_every_case:
  assumes "run_corpus cx co su verifier = Inr (0, report)"
  shows "\<exists>es. declared_entries cx co (su_name su) es \<and> es \<noteq> [] \<and> (\<forall>e \<in> set es. holds_as_declared cx co su verifier e)"
  using run_zero [OF assms] by blast

theorem exit_zero_decides_every_case_witness:
  "\<exists>es. declared_entries toy_ctx (toy_decisions toy_allowed toy_kept) ''monitor-coverage/v1'' es \<and> es \<noteq> [] \<and>
     (\<forall>e \<in> set es. holds_as_declared toy_ctx (toy_decisions toy_allowed toy_kept) (monitor_suite toy_std) None e)"
proof -
  have "run_corpus toy_ctx (toy_decisions toy_allowed toy_kept) (monitor_suite toy_std) None = Inr (0, Some
      \<lparr>cr_executed = 1, cr_vectors = 1, cr_conform = 1, cr_fail = 0, cr_failures = []\<rparr>)"
    using toy_corpus_run [of None "[[1]]" toy_kept toy_allowed] toy_kept_plain toy_kept_self by simp
  from exit_zero_decides_every_case [OF this] show ?thesis by (simp add: monitor_suite_def)
qed

text \<open>C26. If the reference reader and an external verifier both pass a decision corpus, the external process
  printed, for every case, the decision and the reason of the reference reader, and exited with the code
  of that decision.\<close>

theorem passing_verifier_is_the_reader:
  assumes "run_corpus cx co su None = Inr (0, report)" and "run_corpus cx co su (Some (command, run)) = Inr (0, report')"
  shows "\<exists>es. declared_entries cx co (su_name su) es \<and> es \<noteq> [] \<and>
    (\<forall>e \<in> set es. \<exists>fs v code out stdout.
       co_case co (as_str (member e ''path'')) = Some fs \<and> su_verify su fs = Inr v \<and>
       run (as_str (member e ''path'')) = Exited code out \<and> utf8_decode out = Some stdout \<and>
       printed_answer stdout = Inr (verdict_json v) \<and> map_of (su_exits su) (fst v) = Some code)"
  using verifier_agrees [OF assms] .

theorem passing_verifier_is_the_reader_witness:
  "\<exists>es. declared_entries toy_ctx (toy_decisions toy_allowed toy_kept) ''monitor-coverage/v1'' es \<and> es \<noteq> [] \<and>
    (\<forall>e \<in> set es. \<exists>fs v code out stdout.
       co_case (toy_decisions toy_allowed toy_kept) (as_str (member e ''path'')) = Some fs \<and> monitor_verify toy_std fs = Inr v \<and>
       toy_process (as_str (member e ''path'')) = Exited code out \<and> utf8_decode out = Some stdout \<and>
       printed_answer stdout = Inr (verdict_json v) \<and> map_of EXIT_FOR (fst v) = Some code)"
proof -
  let ?report = "\<lparr>cr_executed = 1, cr_vectors = 1, cr_conform = 1, cr_fail = 0, cr_failures = []\<rparr>"
  have "run_corpus toy_ctx (toy_decisions toy_allowed toy_kept) (monitor_suite toy_std) None = Inr (0, Some ?report)"
    using toy_corpus_run [of None "[[1]]" toy_kept toy_allowed] toy_kept_plain toy_kept_self by simp
  moreover have "run_corpus toy_ctx (toy_decisions toy_allowed toy_kept) (monitor_suite toy_std) (Some ([[1]], toy_process)) =
      Inr (0, Some ?report)"
    using toy_corpus_run [of "Some ([[1]], toy_process)" "[[1]]" toy_kept toy_allowed] toy_kept_plain toy_kept_self by simp
  ultimately show ?thesis using passing_verifier_is_the_reader
      [of toy_ctx "toy_decisions toy_allowed toy_kept" "monitor_suite toy_std" _ "[[1]]" toy_process]
    by (simp add: monitor_suite_def)
qed

text \<open>A case can add two faults, so the totals of a report can count fewer than no conforming vectors:
  with one case that keeps other members and is answered otherwise than declared, \<open>conform\<close> is -1.\<close>

theorem conform_below_zero:
  "\<exists>rep. run_corpus toy_ctx (toy_decisions (''deny'', ''window_invalid'') JNull) (monitor_suite toy_std) None = Inr (1, Some rep) \<and>
     cr_vectors rep = 1 \<and> cr_conform rep = -1"
proof -
  have "toy_kept \<noteq> JNull" by (simp add: toy_kept_def)
  then show ?thesis using toy_corpus_run [of None "[[1]]" JNull "(''deny'', ''window_invalid'')"] by (simp add: toy_allowed_def Let_def)
qed



section \<open>Monitors and attributions\<close>

text \<open>C28. On a record that carries a monitor's verdict as numbers, channels and instants, the monitor reader
  allows exactly the supported verdicts.\<close>

theorem allowed_monitor_is_supported:
  assumes "record_json files = Inr v" and "carries_monitoring sd v m"
  shows "monitor_verify sd files = Inr (''allow'', ''verdict_supported'') \<longleftrightarrow> supported m"
proof -
  have "monitor_verify sd files = Inr (''allow'', ''verdict_supported'') \<longleftrightarrow> monitor_failure sd v = Inr None"
    by (auto simp: monitor_verify_def judged_record_def assms(1) bindr_Inr_iff allow_or_deny_def split: option.splits)
  with monitor_decides [OF assms(2)] show ?thesis by simp
qed

theorem allowed_monitor_is_supported_witness:
  "monitor_verify toy_std toy_files = Inr (''allow'', ''verdict_supported'') \<and> supported toy_monitoring"
  using allowed_monitor_is_supported [OF toy_record_read toy_monitor_carries] toy_supported by simp

text \<open>C29. On a record of strings and dates with an offset the attribution reader allows exactly the supported
  hops, and a hop it allows as propagation was relayed by messages of the log before the effect.\<close>

theorem allowed_propagation_was_relayed:
  assumes "record_json files = Inr v" and "carries_hop sd v h"
  shows "(propagation_verify sd files = Inr (''allow'', ''attribution_supported'') \<longleftrightarrow> supported_hop h) \<and>
    (propagation_verify sd files = Inr (''allow'', ''attribution_supported'') \<and> hc_kind h = u ''propagation'' \<longrightarrow>
       (\<exists>t < hc_effect h. relayed (hc_messages h) (hc_from h) (hc_to h) t))"
proof -
  have "propagation_verify sd files = Inr (''allow'', ''attribution_supported'') \<longleftrightarrow> propagation_failure sd v = Inr None"
    by (auto simp: propagation_verify_def judged_record_def assms(1) bindr_Inr_iff allow_or_deny_def split: option.splits)
  with propagation_decides [OF assms(2)]
  have i: "propagation_verify sd files = Inr (''allow'', ''attribution_supported'') \<longleftrightarrow> supported_hop h" by simp
  with supported_relayed [of h] show ?thesis by blast
qed


theorem allowed_propagation_was_relayed_witness:
  "propagation_verify toy_std [(u ''record.json'', enc (text_of toy_hop_json))] = Inr (''allow'', ''attribution_supported'') \<and>
   (\<exists>t < 2. relayed (hc_messages toy_hop) (u ''a'') (u ''b'') t)"
  using allowed_propagation_was_relayed [OF toy_hop_read toy_hop_carried] toy_hop_supported by (simp add: toy_hop_def)


section \<open>Signatures\<close>

text \<open>C30. In a record the signature reader allows, what a reader finds in the source on a path that starts like
  one a consumer relies on, whichever of several entries it takes, is what the payload holds on that path;
  and the payload, in which no object repeats a member, is signed under the record's key.\<close>

theorem consumer_reads_what_is_signed:
  assumes "signature_verify sd files = Inr (''allow'', reason)" and "record_json files = Inr v"
    and "item v (u ''source'') = Inr source" and "item v (u ''consumerReads'') = Inr (JArr relied)"
    and "JArr (JStr k # rest) \<in> set relied" and "finds source (Key k # path) w"
  shows "\<exists>raw kb sb p q r x. signed_payload v = Inr raw \<and>
    bindr (path2 v ''envelope'' ''publicKey'') b64_json = Inr kb \<and> bindr (path2 v ''envelope'' ''signature'') b64_json = Inr sb \<and>
    ed25519_verify (cx_sha512 (sd_ctx sd)) kb raw sb \<and> loads_bytes sd unique_hooks raw = Inr q \<and>
    loads_bytes sd plain_hooks raw = Inr p \<and> flatten False w = Inr r \<and> json_at p (Key k # path) = Some x \<and> same r x"
proof -
  have f: "signature_failure sd v = Inr None"
    using judged_record_allows [OF assms(1) [unfolded signature_verify_def]] assms(2) by auto
  from allowed_record [OF f assms(3-6)] allowed_signature [OF f] show ?thesis
    by (auto simp: payload_value_def)
qed

theorem consumer_reads_what_is_signed_witness:
  "\<exists>raw p x. signed_payload toy_signed = Inr raw \<and> loads_bytes toy_signed_std plain_hooks raw = Inr p \<and>
     json_at p [Key (u ''d'')] = Some x"
proof -
  have "item toy_signed (u ''consumerReads'') = Inr (JArr [JArr [js ''d'']])" by (simp add: toy_signed_def)
  from consumer_reads_what_is_signed [OF toy_signed_verify toy_signed_read toy_source_read this _ toy_finds, of "[]"]
  show ?thesis by auto
qed

text \<open>C31. A source the signature reader allows has one reading: keeping the first entry of each key gives what
  keeping the last one gives, at every depth.\<close>

theorem allowed_source_has_one_reading:
  assumes "signature_verify sd files = Inr (''allow'', reason)" and "record_json files = Inr v"
    and "item v (u ''source'') = Inr source"
  shows "flatten True source = flatten False source"
proof -
  have "signature_failure sd v = Inr None"
    using judged_record_allows [OF assms(1) [unfolded signature_verify_def]] assms(2) by auto
  then have "repeats source = Inr False" by (auto simp: signature_failure_def first_failed_None assms(3))
  then show ?thesis by (rule one_reading)
qed

theorem allowed_source_has_one_reading_witness: "flatten True toy_source = flatten False toy_source"
  using allowed_source_has_one_reading [OF toy_signed_verify toy_signed_read toy_source_read] .

text \<open>C32. Two sources with string keys, exact integers and no floats that the reference signer gives one
  signature input read as the same value.\<close>

theorem shared_input_reads_alike:
  assumes "signature_input cx a = Inr (Some raw)" and "signature_input cx b = Inr (Some raw)"
    and "flatten False a = Inr ra" and "flatten False b = Inr rb" and "signable ra" and "signable rb"
  shows "value_of ra = value_of rb"
  using shared_input [OF assms] .

theorem shared_input_reads_alike_witness:
  "value_of (Keyed (map (\<lambda>(k, v). (k, Leaf v)) toy_members)) = value_of (Keyed (map (\<lambda>(k, v). (k, Leaf v)) (rev toy_members)))"
proof -
  have p: "list_all (\<lambda>(k, v). scalar_value v) toy_members" "unrepeated (map fst toy_members)"
    "list_all (\<lambda>(k, v). scalar_value v) (rev toy_members)" "unrepeated (map fst (rev toy_members))"
    by (auto simp: toy_members_def intro: unrepeated.intros)
  have same: "value_of (Keyed (map (\<lambda>(k, v). (k, Leaf v)) (rev toy_members))) =
      value_of (Keyed (map (\<lambda>(k, v). (k, Leaf v)) toy_members))"
    by (simp add: toy_members_def u_def)
  show ?thesis
    by (rule shared_input_reads_alike [OF toy_input [OF p(1,2) toy_signable(1), where cx = toy_ctx]
          toy_input [OF p(3,4) toy_signable(2), unfolded same] toy_map_flatten [OF p(1,2)] toy_map_flatten [OF p(3,4)] toy_signable])
qed


section \<open>Refusals\<close>




section \<open>The way back\<close>

text \<open>C35. A containment journal can always bring an agent back: after any walk that was accepted to its end,
  a restart, a score below the threshold from another witness, a restoration citing both and a decision that
  adds an edge of the agent are accepted, and the edge is in force; unless digests of entries collide.\<close>

theorem contained_agent_can_return:
  assumes "walked cx rn" and "walk_run cx rn = Inr w" and "way_back cx rn w a b es"
    and "distinct (digests cx (rn_entries rn @ es))"
  shows "\<exists>w'. walk_run cx (append_entries rn es) = Inr w' \<and> set (wk_graph w') = insert (a, b) (set (wk_graph w))"
  using way_back_accepted [OF assms] .

theorem contained_agent_can_return_witness:
  "\<exists>w'. walk_run jcx (append_entries j_short j_four) = Inr w' \<and> set (wk_graph w') = {(j_a, j_b), (j_b, j_a)}"
  using contained_agent_can_return [OF j_short_walked j_short_run j_way_back j_short_digests] by (simp add: j_isolated_def)

end
