(* ===== verification/Spec2Isabelle.thy ===== *)
theory Spec2Isabelle
  imports Keys ParsedValue ToySuite JournalBindings DecisionProperties
begin

text \<open>
  The core of the agent-evidence-vectors suite: the reference verifier of evidence statements, the
  runner that replays a suite of vectors against a verifier, and the readers of five of the decision
  corpora with the harness that runs them.

  \<^bold>\<open>The program.\<close> A suite is a directory of JSON vectors with a manifest of what each must be answered.
  \<open>packaging/run_vectors.py\<close> holds the reference verifier (a statement and its bytes in; failure codes, a
  result and evidence tiers out) and the runner: it reads the manifest, gives every vector to a rail (the
  reference verifier or an external process, each with and without pinned keys), judges the answer against
  the manifest, checks that the manifest is closed over the directory and that the families of
  indeterminate vectors are coherent, and sums the run up in an exit status. A decision corpus is a
  directory of cases with a declared decision each; its reader under \<open>packaging/agent_evidence_vectors\<close> is a
  list of rules over one record, the first that fails names the reason and the exit status, and a shared
  harness runs the reader, or an external verifier, over the cases.

  \<^bold>\<open>Theories and code: the reference verifier\<close> (\<open>packaging/run_vectors.py\<close>).
  \<^item> \<open>Prelude\<close>, \<open>PyValue\<close>: exceptions as the values of \<open>exn\<close> in a sum (\<open>'a res\<close>), strings as lists of
    code points (\<open>ustr\<close>), the values of \<open>json.loads\<close> (\<open>json\<close>) with Python's equality, membership, truth value,
    hashing and subscription. Dictionaries are association lists in insertion order.
  \<^item> \<open>Unicode\<close>, \<open>Scalars\<close>, \<open>JsonText\<close>, \<open>Jcs\<close>, \<open>StrictParse\<close>: the codecs, \<open>check_string_scalars\<close>, the scanner
    of \<open>json.loads\<close>, \<open>jcs_dumps\<close>, \<open>parse_json_value\<close> and \<open>strict_payload_parse\<close>. \<open>ParsePrint\<close> and \<open>ParsedValue\<close>
    relate the parse to the serialization.
  \<^item> \<open>Encoding\<close>, \<open>Ed25519\<close>, \<open>Timestamp\<close>: \<open>strict_b64decode\<close>, \<open>pae\<close>, \<open>merkle_root_hex\<close>, the signature check,
    the digest and timestamp patterns.
  \<^item> \<open>VerifierState\<close> has \<open>RecordView\<close>, \<open>_VerifyState\<close> and the digests as records and definitions; \<open>Gate0\<close>,
    \<open>Coverage\<close>, \<open>Records\<close>, \<open>Gate1\<close>, \<open>Commitments\<close>, \<open>Result\<close> have one definition per check of the code, and
    \<open>Verifier\<close> composes them as \<open>ReferenceVerifier.verify\<close> does. A check maps the state and the codes
    so far to those after it, or raises; each is an interpretation of the locale \<open>code_pass\<close>.
  \<^item> \<open>ValidVerdict\<close>, \<open>ValidCover\<close>, \<open>ValidStatement\<close>, \<open>Keys\<close>: what a valid verdict establishes of the final
    state, of the records and of the statement itself, and what the pinned keys decide.

  \<^bold>\<open>Theories and code: the runner\<close> (\<open>packaging/run_vectors.py\<close>).
  \<^item> \<open>StdLib\<close>: what the runner uses of Python beyond the verifier; \<open>Manifest\<close>, \<open>Closure\<close>: the rows of a
    manifest and \<open>manifest_closure\<close>; \<open>FaultScan\<close>: the registry of codes and \<open>second_fault_absence\<close>; \<open>Rail\<close>: one
    invocation of a rail and both merged; \<open>Evaluate\<close>: \<open>evaluate_vector_detailed\<close>; \<open>Coherence\<close>:
    \<open>family_coherence_failures\<close>; \<open>Runner\<close>: \<open>run_suite\<close>. Messages are constructors with the values their text
    formats.
  \<^item> \<open>Judged\<close>, \<open>RunFacts\<close>, \<open>RunMeaning\<close>, \<open>ScanFacts\<close>: what a judgement, a run that exits with zero and an
    empty scan mean.

  \<^bold>\<open>Theories and code: the containment journal\<close> (\<open>packaging/agent_evidence_vectors/containmentjournal.py\<close>).
  \<^item> \<open>Dumps\<close>: \<open>json.dumps\<close> with sorted keys; \<open>Journal\<close>: shapes, vocabularies, events and the digest chain;
    \<open>Walk\<close>: the state \<open>_Walk\<close> with one handler per event, the claims and the judgement; \<open>Receipt\<close>: the reach,
    the receipt and the answer to a case.
  \<^item> \<open>ContainmentSpec\<close> is the containment machine as an inductive step relation, of which allowed journals
    are runs; \<open>WalkFacts\<close>, \<open>Containment\<close>, \<open>BlastRadius\<close>, \<open>Chain\<close> and \<open>JournalBindings\<close> prove what follows for
    graphs, returns, reaches and digests; \<open>JournalTotal\<close> that the reader always answers; \<open>Readmission\<close> that an
    agent can always come back.

  \<^bold>\<open>Theories and code: the decision corpora.\<close>
  \<^item> \<open>Readers\<close>: what the readers share (comparison and membership of carried values, dates, the ordered
    rules), and the locale \<open>corpus_reader\<close>, the contract of a reader with the harness: it answers, with one
    decision and exit per reason. Every reader interprets it on its own definitions.
  \<^item> \<open>Decisions\<close>: \<open>check_corpus\<close>, \<open>run_corpus\<close> and what they call in \<open>monitorcoverage.py\<close>, over a record
    \<open>suite_reader\<close> of a corpus's reader and a record of its directory; \<open>DecisionFacts\<close> says what an exit of zero is.
  \<^item> \<open>Monitor\<close> (\<open>monitorcoverage.py\<close>), \<open>Propagation\<close> (\<open>propagationstep.py\<close>), \<open>SignatureCoverage\<close> and
    \<open>Signer\<close> (\<open>signaturecoverage.py\<close>), \<open>Refusal\<close> (\<open>refusalreason.py\<close>), \<open>JournalSuite\<close> (the journal on the harness):
    the rules of each reader in their order and what it keeps of a record. \<open>PropagationSpec\<close> has the relay
    of messages as an inductive relation, and \<open>SignatureFacts\<close> what a reader can find in a signed source.
  \<^item> \<open>ContainmentProperties\<close>, \<open>JournalBindings\<close>, \<open>DecisionProperties\<close> and this theory hold the properties;
    \<open>Example\<close>, \<open>Hollow\<close>, \<open>ToySuite\<close>, \<open>ToyJournal\<close>, \<open>ToyDecisions\<close> and \<open>ToySigned\<close> the inputs they are applied at.

  \<^bold>\<open>What is shown.\<close>
  \<^item> Statements: a valid verdict's result is the recompute; substrate rows are covered by sound records
    bound to the run; the batch root binds the records; an attested row is signed; coverage is a
    partition and the rows are its attacks; keys move the tiers only.
  \<^item> Bytes: what the strict pass accepts, and both directions of its round trip with the serialization.
  \<^item> Runs: exit zero is full conformance; the reject contract exactly; families; closure; the scan
    agrees with the verifier.
  \<^item> Journals: refinement to the containment machine, evidence behind each return, silence of confined
    agents, the receipt as the reach, what its digests bind, totality, and that a contained agent can
    return.
  \<^item> Corpora: an exit of zero decides every case; a verifier that passes agrees with the reader; an
    allowed monitor verdict, attribution or signature rests on what it claims; the refusal reader decides.

  \<^bold>\<open>Bounds and fuel.\<close> Only the JSON scanner takes fuel: \<open>loads\<close> passes twice the length of the text plus two,
  and \<open>pv_fuel\<close> and \<open>scanner_fuel_suffices\<close> show that more fuel never changes an answer, so running out is none.
  The bounds of the code (sizes, depth, the safe integer range, 4300 digits, the windows and thresholds
  of the readers) are written out. Every function is total; an exception is a value.

  \<^bold>\<open>Parameters.\<close> SHA-256, SHA-512, \<open>repr\<close> of a carried value and the pinned keys are fields of \<open>ctx\<close>;
  \<open>datetime.fromisoformat\<close> in the readers of the decision corpora, addition where one summand is a float,
  and the decoding \<open>json.loads\<close> gives a byte string are fields of \<open>std\<close>. The file system, an external verifier's
  exit status and output and an external signer are arguments. Where a property needs the hash to be
  collision free it says so on the inputs that were hashed, and its witness instantiates the parameter.

  \<^bold>\<open>Not modelled.\<close> Nesting past the interpreter's recursion limit (the strict pass bounds the depth before it
  parses; a journal or record nested beyond the limit is outside the model). The command lines, the
  dispatch to other runners (\<open>_run_non_reference_suite\<close>, \<open>resolve_verifier\<close>), the printing of tables, the
  provenance of a corpus, the report file and the self-test: argument parsing, file and process I/O. The
  switches that turn single rules off (\<open>skip\<close>), which only the tests of the suite pass; they are empty
  here. The external signer process and the place of a NaN key among the sorted keys of a source. The group
  law of Ed25519 is not proved, the code that computes it is modelled. The readers of the other corpora
  under \<open>packaging/agent_evidence_vectors\<close> and \<open>packages\<close>, mostly rules of the same kind on harnesses of their
  own; the generators, whose output is data of the suite; and the gates over the repository itself.
\<close>

section \<open>A valid verdict\<close>

text \<open>C1. The result of a valid statement is the one its \<open>result\<close> member carries, and it is the
  recompute of the statement's own rows, vocabulary and coverage.\<close>

theorem valid_result_is_recomputed:
  assumes "verify cx stmt raw = Inr out" and "verdict_valid out"
  shows "out_result out = dget (stmt_pred stmt) (u ''result'') \<and>
    out_result out = js (recompute (stmt_rows stmt) (stmt_labels stmt) (stmt_caught stmt) (stmt_coverage stmt))"
  using valid_statement_result [OF assms] .

theorem valid_result_is_recomputed_witness:
  "js ''fail'' = js (recompute (stmt_rows (toy_stmt ''fail'')) (stmt_labels (toy_stmt ''fail''))
     (stmt_caught (toy_stmt ''fail'')) (stmt_coverage (toy_stmt ''fail'')))"
  using valid_result_is_recomputed [OF toy_verify toy_valid] by (simp add: toy_result_fail)

text \<open>C2. A valid statement's result is \<open>pass\<close> exactly when every row has an allowed label that is not a
  caught one, was observed by the substrate through interception and has a known attribution, and the
  coverage leaves no class out of scope or routed elsewhere.\<close>

theorem valid_pass_iff_direct:
  assumes "verify cx stmt raw = Inr out" and "verdict_valid out"
  shows "out_result out = js ''pass'' \<longleftrightarrow>
    list_all (\<lambda>r. py_in (dget r (u ''containmentObserved'')) (stmt_labels stmt) \<and>
      \<not> py_in (dget r (u ''containmentObserved'')) (stmt_caught stmt) \<and>
      dget r (u ''basis'') = js ''substrate'' \<and> dget r (u ''method'') = js ''intercepted'' \<and>
      one_of (dget r (u ''attribution'')) [''pinned'', ''paired'']) (stmt_rows stmt) \<and>
    \<not> coverage_partial (stmt_coverage stmt)"
  using conjunct2 [OF valid_statement_result [OF assms]] by (simp add: recompute_pass row_effect_Direct_iff)

theorem valid_pass_iff_direct_witness:
  "\<not> (list_all (\<lambda>r. py_in (dget r (u ''containmentObserved'')) (stmt_labels (toy_stmt ''fail'')) \<and>
      \<not> py_in (dget r (u ''containmentObserved'')) (stmt_caught (toy_stmt ''fail'')) \<and>
      dget r (u ''basis'') = js ''substrate'' \<and> dget r (u ''method'') = js ''intercepted'' \<and>
      one_of (dget r (u ''attribution'')) [''pinned'', ''paired'']) (stmt_rows (toy_stmt ''fail'')) \<and>
    \<not> coverage_partial (stmt_coverage (toy_stmt ''fail'')))"
  using valid_pass_iff_direct [OF toy_verify toy_valid] by (simp add: toy_result_fail)



text \<open>C4. The records of a valid statement decode, carry a signature each, are pairwise different, and
  the carried batch root is the Merkle root over their pre-authentication encodings.\<close>

theorem valid_batch_root:
  assumes "verify cx stmt raw = Inr out" and "verdict_valid out" and "stmt_records stmt \<noteq> []"
  shows "\<exists>views r. mapr (\<lambda>(i, rec). record_view i rec) (enumerate 0 (stmt_records stmt)) = Inr views \<and>
    list_all (\<lambda>v. rv_pae v \<noteq> None \<and> rv_sigs v \<noteq> 0 \<and> \<not> rv_decode_err v) views \<and>
    distinct (map pae_of views) \<and>
    dget (stmt_pred stmt) (u ''batchRoot'') = JStr r \<and>
    merkle_root_hex (cx_sha256 cx) (map pae_of views) = Inr r"
proof -
  obtain st where st: "valid_state cx stmt raw out st" using valid_state_exists [OF assms(1,2)] by blast
  have r: "st_has_records st" using valid_records_read [OF st] assms(3) by simp
  from valid_records [OF st r] valid_records_read [OF st] valid_pred [OF st] show ?thesis by auto
qed

theorem valid_batch_root_witness:
  "\<exists>r. dget (stmt_pred (toy_stmt ''fail'')) (u ''batchRoot'') = JStr r"
  using valid_batch_root [OF toy_verify toy_valid] toy_stmt_records by blast

text \<open>C5. A row is reported \<open>attested\<close> only with pinned keys, never for a row observed on the artifact
  only, and then every record that covers it has a signature that verifies under one of the pinned
  keys over the record's pre-authentication encoding.\<close>

theorem attested_row_is_signed:
  assumes "verify cx stmt raw = Inr out" and "verdict_valid out"
    and "out_with_key out = Some ts" and "i < length ts" and "ts ! i = Attested"
  shows "cx_pins cx \<noteq> [] \<and> dget (stmt_rows stmt ! i) (u ''basis'') \<noteq> js ''artifact'' \<and>
    (\<exists>st vs. valid_state cx stmt raw out st \<and> map_of (st_covering st) i = Some vs \<and> vs \<noteq> [] \<and>
      (\<forall>v \<in> set vs. \<exists>p sig b pub. rv_pae v = Some p \<and> sig \<in> set (as_list (member (rv_raw v) ''signatures'')) \<and>
        fst (decoded_payload (member sig ''sig'')) = Some b \<and> pub \<in> set (cx_pins cx) \<and>
        ed25519_verify (cx_sha512 cx) pub p b))"
  using attested_row [OF assms] .

theorem attested_row_is_signed_witness:
  "\<exists>st vs. valid_state toy_ctx (toy_stmt ''fail'') None toy_outcome st \<and> map_of (st_covering st) 1 = Some vs \<and> vs \<noteq> []"
  using attested_row_is_signed [OF toy_verify toy_valid toy_tiers, of 1] by auto

text \<open>C6. The pinned keys decide the tiers and nothing else: codes, result and the tiers without keys are
  the same under any keys, and so is whether the verifier returns.\<close>

theorem keys_only_decide_tiers:
  "case (verify cx stmt raw, verify (with_pins cx ps) stmt raw) of
     (Inr out, Inr out') \<Rightarrow> out_codes out' = out_codes out \<and> out_result out' = out_result out \<and>
       out_without_key out' = out_without_key out
   | (Inl e, Inl e') \<Rightarrow> e' = e
   | _ \<Rightarrow> False"
proof (cases "verify cx stmt raw")
  case (Inl e)
  then have "verify (with_pins cx ps) stmt raw = Inl e" using verify_pins_error by blast
  with Inl show ?thesis by simp
next
  case (Inr out)
  then obtain out' where o: "verify (with_pins cx ps) stmt raw = Inr out'"
    using verify_pins_error [of cx stmt raw _ ps] by (cases "verify (with_pins cx ps) stmt raw") auto
  from verify_pins [OF Inr o] show ?thesis by (simp add: Inr o)
qed

text \<open>C7. Where the corpus manifest of a valid statement lists classes, every entry of the three coverage
  members names one of them, and every class is named exactly once.\<close>

theorem valid_coverage_is_partition:
  assumes "verify cx stmt raw = Inr out" and "verdict_valid out" and "stmt_classes stmt = JObj classes"
  shows "\<exists>cov vs. stmt_coverage stmt = JObj cov \<and>
    vs = as_list (dget cov (u ''assessedClasses'')) @ str_keys (as_dict (dget cov (u ''outOfScope''))) @
      str_keys (as_dict (dget cov (u ''routedElsewhere''))) \<and>
    (\<forall>v \<in> set vs. \<exists>c \<in> fst ` set classes. v = JStr c) \<and>
    (\<forall>c \<in> fst ` set classes. occurrences c vs = 1)"
proof -
  obtain st where st: "valid_state cx stmt raw out st" using valid_state_exists [OF assms(1,2)] by blast
  from valid_coverage [OF st assms(3)] obtain cov where cov: "stmt_coverage stmt = JObj cov"
    and p: "coverage_partition_ok classes (as_list (dget cov (u ''assessedClasses'')))
      (as_dict (dget cov (u ''outOfScope''))) (as_dict (dget cov (u ''routedElsewhere''))) = Inr True" by blast
  from coverage_partition_ok_True [OF p] cov show ?thesis by (intro exI conjI) auto
qed

theorem valid_coverage_is_partition_witness:
  "\<exists>cov. stmt_coverage (toy_stmt ''fail'') = JObj cov"
  using valid_coverage_is_partition [OF toy_verify toy_valid toy_stmt_classes] by blast

text \<open>C8. There, too, the rows are the attacks of the assessed classes: no two rows have one identifier,
  every row's identifier is listed by an assessed class, and every identifier of an assessed class
  has a row.\<close>

theorem valid_rows_are_assessed_attacks:
  assumes "verify cx stmt raw = Inr out" and "verdict_valid out" and "stmt_classes stmt = JObj classes"
  shows "\<exists>cov assessed. stmt_coverage stmt = JObj cov \<and> assessed = as_list (dget cov (u ''assessedClasses'')) \<and>
    distinct (map attack_of (stmt_rows stmt)) \<and>
    (\<forall>r \<in> set (stmt_rows stmt). \<exists>cls ids k. (cls, ids) \<in> set classes \<and> k \<in> set (as_list ids) \<and>
      py_eq (attack_of r) k \<and> JStr cls \<in> set assessed) \<and>
    (\<forall>cls e. JStr cls \<in> set assessed \<and> e \<in> set (as_list (dget classes cls)) \<longrightarrow>
      (\<exists>r \<in> set (stmt_rows stmt). py_eq e (attack_of r)))"
proof -
  obtain st where st: "valid_state cx stmt raw out st" using valid_state_exists [OF assms(1,2)] by blast
  from valid_coverage [OF st assms(3)] obtain cov where "stmt_coverage stmt = JObj cov"
    "coverage_check_rows (stmt_rows stmt) classes (as_list (dget cov (u ''assessedClasses''))) [] = Inr []" by blast
  with coverage_check_rows_clean [OF this(2)] show ?thesis by (intro exI conjI) auto
qed

theorem valid_rows_are_assessed_attacks_witness:
  "distinct (map attack_of (stmt_rows (toy_stmt ''fail'')))"
  using valid_rows_are_assessed_attacks [OF toy_verify toy_valid toy_stmt_classes] by blast

text \<open>The observation vocabulary of a valid statement is two arrays of strings, each sorted by UTF-16
  code units and without repetition, the caught labels among the labels, and its digest is that of
  their canonical serialization.\<close>

theorem valid_vocabulary_is_canonical:
  assumes "verify cx stmt raw = Inr out" and "verdict_valid out"
  shows "\<exists>ls cs b. member (stmt_vocab stmt) ''labels'' = JArr (map JStr ls) \<and>
    member (stmt_vocab stmt) ''caught'' = JArr (map JStr cs) \<and>
    distinct ls \<and> sorted (map utf16_bytes ls) \<and> distinct cs \<and> sorted (map utf16_bytes cs) \<and>
    set cs \<subseteq> set ls \<and>
    jcs_dumps (JObj [(u ''caught'', JArr (map JStr cs)), (u ''labels'', JArr (map JStr ls))]) = Inr b \<and>
    digest_of (stmt_vocab stmt) = JStr (sha256_hex cx b)"
proof -
  obtain st where st: "valid_state cx stmt raw out st" using valid_state_exists [OF assms] by blast
  from valid_vocabulary [OF st] show ?thesis by blast
qed

theorem valid_vocabulary_is_canonical_witness:
  "\<exists>ls. member (stmt_vocab (toy_stmt ''fail'')) ''labels'' = JArr (map JStr ls)"
  using valid_vocabulary_is_canonical [OF toy_verify toy_valid] by blast

text \<open>C9. In a valid statement a row with an allowed, uncaught label resolves no interception record,
  and every interception record is resolved by a row with a caught label.\<close>

theorem valid_interception_records:
  assumes "verify cx stmt raw = Inr out" and "verdict_valid out"
  shows "\<exists>st. valid_state cx stmt raw out st \<and>
    (\<forall>r \<in> set (stmt_rows stmt). \<not> is_caught st r \<longrightarrow> py_in (dget r (u ''containmentObserved'')) (stmt_labels stmt) \<longrightarrow>
      list_all (\<lambda>rv. \<not> is_interception rv) (resolved_views st r)) \<and>
    (\<forall>rv \<in> set (st_views st). is_interception rv \<longrightarrow>
      (\<exists>r \<in> set (stmt_rows stmt). is_caught st r \<and> rv_idx rv \<in> rv_idx ` set (resolved_views st r)))"
  using valid_state_exists [OF assms] valid_interceptions by meson

theorem valid_interception_records_witness:
  "\<exists>st. valid_state toy_ctx (toy_stmt ''fail'') None toy_outcome st"
  using valid_interception_records [OF toy_verify toy_valid] by blast



text \<open>In a valid statement each record an interception-attributed row with \<open>attribution: pinned\<close>
  resolves commits to a payload the manifest declares for the row's attack, and there is one.\<close>

theorem valid_pinned_attribution:
  assumes "verify cx stmt raw = Inr out" and "verdict_valid out" and "r \<in> set (stmt_rows stmt)"
    and "dget r (u ''attribution'') = js ''pinned''"
  shows "\<exists>st expected. valid_state cx stmt raw out st \<and> expected_for st r = Inr expected \<and> as_list expected \<noteq> [] \<and>
    filter is_interception (resolved_views st r) \<noteq> [] \<and>
    list_all (\<lambda>rv. is_list (payload_get rv ''aeePayloadCommitment'') \<longrightarrow>
      list_ex (\<lambda>v. py_in v (as_list expected)) (as_list (payload_get rv ''aeePayloadCommitment'')))
      (filter is_interception (resolved_views st r))"
  using valid_state_exists [OF assms(1,2)] valid_attribution [OF _ assms(3,4)] by blast

theorem valid_pinned_attribution_witness:
  "\<exists>st expected. valid_state toy_ctx (toy_stmt ''fail'') None toy_outcome st \<and>
     expected_for st (as_dict caught_row) = Inr expected \<and> as_list expected \<noteq> []"
  using valid_pinned_attribution [OF toy_verify toy_valid toy_caught_row] by blast

text \<open>The codes of an outcome are without repetition, and an outcome with codes carries no result and
  no tiers.\<close>

theorem codes_are_distinct:
  assumes "verify cx stmt raw = Inr out"
  shows "distinct (out_codes out) \<and>
    (out_codes out \<noteq> [] \<longrightarrow> out_result out = JNull \<and> out_with_key out = None \<and> out_without_key out = None)"
  using verify_outcome [OF assms] .

theorem codes_are_distinct_witness: "distinct (out_codes toy_outcome)"
  using codes_are_distinct [OF toy_verify] by blast



section \<open>Payloads and canonical JSON\<close>

text \<open>C37. A canonical object within the size and depth bounds is read back from its canonical bytes.\<close>

theorem canonical_payload_is_parsed:
  assumes "payload_bounds d"
  shows "strict_payload_parse (payload_bytes d) = Inr d"
  using strict_parse_of_canonical [OF assms] .

theorem canonical_payload_is_parsed_witness:
  "strict_payload_parse (payload_bytes interception_payload) = Inr interception_payload"
  using canonical_payload_is_parsed [of interception_payload] toy_payloads by simp

text \<open>C38. Bytes the strict payload parse accepts are the canonical serialization of the object they are
  read as; no object of it repeats a member, every number is an integer below 2^53 in absolute value,
  and every member name is in the basic plane. So two payloads read as one object are the same bytes.\<close>

theorem parsed_payload_is_canonical:
  assumes "strict_payload_parse raw = Inr d"
  shows "jcs_dumps (JObj d) = Inr raw \<and> wf_json (JObj d) \<and> safe_numbers (JObj d) \<and>
    member_names_bmp (JObj d) \<and> (\<forall>raw'. strict_payload_parse raw' = Inr d \<longrightarrow> raw' = raw)"
proof (intro conjI allI impI)
  note c = strict_payload_parse_canonical [OF assms]
  show "jcs_dumps (JObj d) = Inr raw" by (rule c)
  show "raw' = raw" if "strict_payload_parse raw' = Inr d" for raw'
    using trans [OF sym [OF strict_payload_parse_canonical [OF that]] c] by (rule sum.inject(2) [THEN iffD1])
qed (rule strict_payload_parse_wf [OF assms, THEN conjunct1]
    strict_payload_parse_wf [OF assms, THEN conjunct2, THEN conjunct1]
    strict_payload_parse_wf [OF assms, THEN conjunct2, THEN conjunct2])+

theorem parsed_payload_is_canonical_witness:
  "jcs_dumps (JObj interception_payload) = Inr (payload_bytes interception_payload)"
  by (rule parsed_payload_is_canonical [OF toy_payload_parsed, THEN conjunct1])

text \<open>The canonical bytes of an object do not depend on the order its members are listed in.\<close>

theorem serialization_ignores_member_order:
  assumes "mset d = mset e" and "distinct (map fst d)" and "list_all (\<lambda>p. list_all scalar (fst p)) d"
  shows "jcs_dumps (JObj d) = jcs_dumps (JObj e)"
  using norm_permuted [OF assms] jcs_dumps_norm [of "JObj d"] jcs_dumps_norm [of "JObj e"] by simp

theorem serialization_ignores_member_order_witness:
  "jcs_dumps (JObj [([98], JInt 1), ([97], JNull)]) = jcs_dumps (JObj [([97], JNull), ([98], JInt 1)])"
  using serialization_ignores_member_order [of "[([98], JInt 1), ([97], JNull)]" "[([97], JNull), ([98], JInt 1)]"]
  by (simp add: scalar_def surrogate_def add_mset_commute)

text \<open>UTF-8 decoding and encoding are inverse: strings of scalar values are read back from their
  bytes, and bytes that decode are the encoding of what they decode to.\<close>

theorem utf8_round_trip:
  "(list_all scalar s \<longrightarrow> (\<exists>bs. utf8_encode s = Inr bs \<and> utf8_decode bs = Some s)) \<and>
   (utf8_decode raw = Some s \<longrightarrow> utf8_encode s = Inr raw \<and> list_all scalar s)"
  using utf8_encoded [of s] utf8_encode_decode [of raw s] utf8_decode_inv [of raw s] by blast

theorem utf8_round_trip_witness: "\<exists>bs. utf8_encode [8364, 128512] = Inr bs \<and> utf8_decode bs = Some [8364, 128512]"
  using utf8_round_trip [of "[8364, 128512]" "[]"] by (simp add: scalar_def surrogate_def)

text \<open>A base64 string is accepted exactly when it is the encoding of what it decodes to.\<close>

theorem base64_is_canonical:
  "strict_b64decode s = Inr raw \<longleftrightarrow> is_bytes raw \<and> s = b64encode raw"
  by (rule strict_b64decode_iff)

text \<open>No two texts nest to the fuel of the JSON scanner: neither parse of the verifier runs out of it.\<close>

theorem scanner_fuel_suffices:
  "loads strict_hooks s \<noteq> Inl RecursionError \<and> loads lax_hooks s \<noteq> Inl RecursionError"
  using loads_no_recursion_error strict_hooks_total lax_hooks_total by blast

text \<open>On the canonical text of a value the depth scan gives the nesting depth of the value, and the
  scan of the string literals accepts it.\<close>

theorem canonical_text_passes_scans:
  assumes "canonical v"
  shows "max_json_depth (text_of v) = int (nesting v) \<and> check_string_scalars (enc (text_of v)) = Inr ()"
  using max_json_depth_text [OF assms] passes_text [OF assms, unfolded passes_def, rule_format, of "[]"]
  by (simp add: check_string_scalars.simps [of "[]"])

theorem canonical_text_passes_scans_witness:
  "max_json_depth (text_of (JArr [JArr [], JInt 0])) = 2"
  using canonical_text_passes_scans [of "JArr [JArr [], JInt 0]"] by (simp add: SAFE_INT_LIMIT_def)

section \<open>Encodings and signatures\<close>

text \<open>The pre-authentication encoding determines the payload type and the payload.\<close>

theorem pae_is_injective:
  assumes "pae t p = Inr x" "pae t' p' = Inr x" and "list_all scalar t" "list_all scalar t'"
  shows "t = t' \<and> p = p'"
  using pae_inj [OF assms] .

theorem pae_is_injective_witness: "u toy_type = u toy_type \<and> payload_bytes [] = payload_bytes []"
  using pae_is_injective [of "u toy_type" "payload_bytes []" "toy_pae []" "u toy_type" "payload_bytes []"] toy_pae_of
    toy_type_scalar by blast

text \<open>C39. Two different batches have different roots, unless the hash collides on two of the strings
  that were hashed for them.\<close>

theorem batch_root_is_binding:
  assumes "\<And>x. length (H x) = n \<and> is_bytes (H x)"
    and "inj_on H (set (merkle_inputs H ls) \<union> set (merkle_inputs H ms))"
    and "ls \<noteq> []" "ms \<noteq> []" "ls \<noteq> ms"
  shows "merkle_root_hex H ls \<noteq> merkle_root_hex H ms"
  using merkle_root_inj [OF assms(1-4)] assms(5) by blast

theorem batch_root_is_binding_witness:
  "merkle_root_hex (\<lambda>x. [last x mod 256]) [[1]] \<noteq> merkle_root_hex (\<lambda>x. [last x mod 256]) [[2]]"
  by (rule batch_root_is_binding [where n = 1]) (simp_all add: merkle_simps(2) inj_on_def)

text \<open>The split of a batch of two or more leaves is the power of two below the batch's size that
  reaches at least half of it.\<close>

theorem split_is_power_of_two:
  assumes "1 < n"
  shows "0 < split_point n \<and> split_point n < n \<and> n \<le> 2 * split_point n \<and> (\<exists>j. split_point n = 2 ^ j)"
  using split_point_bounds [OF assms] split_from_half [of 1 n] split_from_power [of 1 n]
  by (simp add: split_point_def)

theorem split_is_power_of_two_witness: "split_point 5 < 5 \<and> 5 \<le> 2 * split_point 5"
  using split_is_power_of_two [of 5] by simp

text \<open>A point is decoded from one encoding only: the compression of a decoded point is its
  encoding. The decoded coordinates are reduced and satisfy the equation the code checks.\<close>

theorem point_encoding_is_unique:
  assumes "pt_decompress s = Some (x, y, z, t)" and "is_bytes s"
  shows "pt_compress (x, y, z, t) = s \<and> 0 \<le> x \<and> x < ed_P \<and> 0 \<le> y \<and> y < ed_P \<and> z = 1 \<and>
    (x * x - xx_of y) mod ed_P = 0"
  using pt_compress_decompress [OF assms] pt_decompress_facts [OF assms] by blast

theorem point_encoding_is_unique_witness: "pt_compress ed_IDENT = ident_key"
  using point_encoding_is_unique [OF ident_decompress [unfolded ed_IDENT_def] ident_bytes]
  unfolding ed_IDENT_def by blast

text \<open>The scalar of an accepted signature is below the group order, so adding the order to it gives a
  signature that is refused for every message and key.\<close>

theorem signature_scalar_is_reduced:
  assumes "ed25519_verify H512 pub msg (r @ le_bytes 32 s)" and "length r = 32"
    and "0 \<le> s" and "s + ed_L < 2 ^ 256"
  shows "\<not> ed25519_verify H512' pub' msg' (r @ le_bytes 32 (s + ed_L))"
  using ed25519_no_malleated_scalar [OF assms] .

theorem signature_scalar_is_reduced_witness:
  "\<not> ed25519_verify (\<lambda>b. replicate 64 0) ident_key [] (ident_key @ le_bytes 32 (0 + ed_L))"
  using signature_scalar_is_reduced [of "\<lambda>b. replicate 64 0" ident_key "[]" ident_key 0] ident_zero_verifies
  by (simp add: ed_L_def) (simp add: ident_key_def)

text \<open>The square-and-multiply loop computes \<open>b ^ e mod m\<close>.\<close>

theorem modular_power: "powm b e m = b ^ e mod m"
  by (rule powm_eq)

section \<open>Arrays and the recompute\<close>

text \<open>An accepted array of attack identifiers is a list of declared identifiers without repetition.\<close>

theorem attack_ids_are_declared:
  assumes "attack_id_array_ok values declared = Inr True"
  shows "\<exists>ids. values = JArr (map JStr ids) \<and> set ids \<subseteq> set declared \<and> distinct ids"
  using attack_id_array_ok_True [OF assms] .

theorem attack_ids_are_declared_witness:
  "\<exists>ids. JArr [js ''a1'', js ''a2''] = JArr (map JStr ids) \<and> distinct ids"
  using attack_ids_are_declared [OF toy_ids_ok(2)] by (elim exE conjE) (intro exI conjI)

text \<open>More rows never improve the result.\<close>

theorem more_rows_never_improve:
  assumes "set rows \<subseteq> set rows'"
  shows "result_rank (recompute rows' labels caught coverage) \<le> result_rank (recompute rows labels caught coverage)"
  using recompute_antimono [OF assms] .

theorem more_rows_never_improve_witness:
  "result_rank (recompute [as_dict caught_row] [] [] JNull) \<le> result_rank (recompute [] [] [] JNull)"
  using more_rows_never_improve [of "[]" "[as_dict caught_row]"] by simp

section \<open>What the code does not refuse\<close>


text \<open>A payload that is a number with a nineteen-digit exponent makes the parse raise an exception
  that is not an \<open>IJsonError\<close>.\<close>

theorem huge_exponent_escapes:
  "parse_json_value huge_number = Inl DecimalInvalidOperation \<and> strict_payload_parse huge_number = Inl DecimalInvalidOperation"
  by (simp add: huge_number_raises strict_payload_parse_def)

text \<open>A statement whose \<open>result\<close> is an array makes the verifier raise a \<open>TypeError\<close>.\<close>

theorem array_result_raises:
  "verify cx (JObj [(u ''_type'', js STATEMENT_TYPE), (u ''predicateType'', js AEE_PREDICATE_TYPE),
     (u ''predicate'', JObj [(u ''result'', JArr xs)])]) None = Inl TypeError"
  by (simp add: verify_def check_statement_type_def checks_def check_gate0_wellformed_def in_keys_def in_set_def
      hash_check_def)

text \<open>The digest pattern and the timestamp check admit a newline after the value.\<close>

theorem trailing_newline_is_admitted:
  "is_hex64_lower (JStr (replicate 64 48 @ [10])) \<and> timestamp_ok (JStr (u ''2026-01-02T03:04:05Z'' @ [10]))"
proof
  show "is_hex64_lower (JStr (replicate 64 48 @ [10]))"
    by (simp add: hex64_match_def at_end_def is_lower_hex_def is_digit_def list_all_iff)
qed (rule timestamp_trailing_newline)

section \<open>The conformance runner\<close>

text \<open>C11. A run of a suite exits with zero only when every row of the manifest was replayed and passed, the
  manifest is closed over the suite's directory, no indeterminate family is incoherent, and a named
  verifier ran on every vector under both key policies.\<close>

theorem exit_zero_is_conformance:
  assumes "run_suite cx w manifest = Inr r" and "run_exit r = 0"
  shows "\<exists>idx vectors ns. manifest_index manifest = Inr idx \<and> discover_vectors cx manifest = Inr vectors \<and>
    mapr (process_vector cx w idx) vectors = Inr (run_rows r) \<and>
    run_manifest_closure (wd_fs w) manifest idx (run_rows r) = Inr (run_rows r, []) \<and>
    family_coherence_failures cx idx (run_rows r) = Inr (ns, []) \<and>
    (\<forall>x \<in> set (run_rows r). row_pass x) \<and>
    (wd_rail w \<noteq> None \<longrightarrow> run_rows r \<noteq> [] \<and> (\<forall>x \<in> set (run_rows r). row_ran x = Some True))"
  using run_suite_zero [OF assms] .

theorem exit_zero_is_conformance_witness:
  "\<exists>r. run_suite toy_ctx toy_world (JObj toy_manifest) = Inr r \<and> list_all row_pass (run_rows r)"
proof -
  obtain r where r: "run_suite toy_ctx toy_world (JObj toy_manifest) = Inr r" "run_exit r = 0"
    using toy_suite_run by blast
  from exit_zero_is_conformance [OF r] r(1) show ?thesis by (auto simp: list_all_iff)
qed



text \<open>No vector passes on an answer that was never established: the rail's invocations had no fault, its
  verdict is one of the two, is the same without a key policy, and is one the manifest admits.\<close>

theorem passed_vector_was_answered:
  assumes "evaluate_vector_detailed cx kind entry obs sc = Inr ev" and "ev_ok ev"
    and "expected_of entry = Inr expected" and "declared_exclusion expected = None"
  shows "ob_errors obs = [] \<and> one_of (ob_verdict obs) [''valid'', ''invalid''] \<and>
    (ob_without obs = JNull \<or> py_eq (ob_without obs) (ob_verdict obs)) \<and>
    (\<exists>vs. admissible_verdicts cx kind expected (expected_verdict kind expected) = Inr vs \<and>
      py_in (ob_verdict obs) vs)"
  using passed_answered [OF assms] unfolding answered_def established_def key_independent_def .

theorem passed_vector_was_answered_witness:
  "ob_errors toy_observed = [] \<and> one_of (ob_verdict toy_observed) [''valid'', ''invalid'']"
proof -
  obtain ev where "evaluate_vector_detailed toy_ctx (u ''reject'') toy_entry toy_observed (Some []) = Inr ev" "ev_ok ev"
    using toy_evaluation by blast
  from passed_vector_was_answered [OF this toy_expected] show ?thesis by blast
qed

text \<open>An accept vector passes exactly when the rail says \<open>valid\<close> under every key policy and without a
  fault, the result is the declared one, both pinned tier columns were reported and are the expected
  ones, and deriving the tiers did not change the result.\<close>

theorem accept_vector_passes_iff:
  assumes "evaluate_vector_detailed cx (u ''accept'') entry obs sc = Inr ev"
    and "expected_of entry = Inr expected" and "declared_exclusion expected = None"
  shows "ev_ok ev \<longleftrightarrow> ob_verdict obs = js ''valid'' \<and> expected_verdict (u ''accept'') expected = js ''valid'' \<and>
    ob_errors obs = [] \<and> key_independent obs \<and>
    (dget expected (u ''result'') = JNull \<or> py_eq (ob_result obs) (dget expected (u ''result''))) \<and>
    column_answered obs (dget expected (u ''tierWithPinnedKey'')) ''tiers_with_key'' (ob_tiers obs) \<and>
    column_answered obs (dget expected (u ''tierWithoutKey'')) ''tiers_without_key'' (ob_tiers_without obs) \<and>
    tiers_keep_result obs"
  using accept_passes_iff [OF assms] .

theorem accept_vector_passes_iff_witness: "key_independent valid_observed \<and> tiers_keep_result valid_observed"
proof -
  obtain ev where "evaluate_vector_detailed toy_ctx (u ''accept'') JNull valid_observed None = Inr ev" "ev_ok ev"
    using accept_evaluations(1) by blast
  with accept_vector_passes_iff [OF this(1) plain_expected] show ?thesis by blast
qed

text \<open>C13. A reject vector passes exactly when the rail says \<open>invalid\<close> under every key policy and without a
  fault, reports one of the expected codes where there are any, emits neither result nor tiers, and the
  single-fault scan found nothing beside the expected fault.\<close>

theorem reject_vector_passes_iff:
  assumes "evaluate_vector_detailed cx (u ''reject'') entry obs sc = Inr ev"
    and "expected_of entry = Inr expected" and "declared_exclusion expected = None"
  shows "\<exists>exp_codes obs_codes.
    bindr (iter_or_empty (dget expected (u ''codes''))) py_set = Inr exp_codes \<and>
    bindr (iter_or_empty (ob_codes obs)) py_set = Inr obs_codes \<and>
    (ev_ok ev \<longleftrightarrow> ob_verdict obs = js ''invalid'' \<and> expected_verdict (u ''reject'') expected = js ''invalid'' \<and>
      ob_errors obs = [] \<and> key_independent obs \<and>
      (exp_codes = [] \<or> list_ex (\<lambda>c. py_in c obs_codes) exp_codes) \<and> no_output obs \<and>
      (sc = None \<or> sc = Some []))"
  using reject_passes_iff [OF assms] .

theorem reject_vector_passes_iff_witness: "key_independent toy_observed \<and> no_output toy_observed"
proof -
  obtain ev where "evaluate_vector_detailed toy_ctx (u ''reject'') toy_entry toy_observed (Some []) = Inr ev" "ev_ok ev"
    using toy_evaluation by blast
  with reject_vector_passes_iff [OF this(1) toy_expected] show ?thesis by blast
qed

text \<open>C14. When no family is incoherent, one declared reading explains the rail's answer to every member of
  each family: its condition is the one the rail committed to, or is among the codes it reported.\<close>

theorem family_is_explained:
  assumes "family_coherence_failures cx idx rows = Inr (ns, [])"
    and "r \<in> set rows" and "row_kind r = u ''indeterminate''"
    and "family_of cx idx r = Inr family" and "family \<noteq> []"
  shows "\<exists>members readings name. r \<in> set members \<and>
    (\<forall>m. m \<in> set members \<longleftrightarrow>
      m \<in> set rows \<and> row_kind m = u ''indeterminate'' \<and> family_of cx idx m = Inr family) \<and>
    readings_of cx (dget idx (row_id (hd members))) = Inr readings \<and> name \<in> fst ` set readings \<and>
    (\<forall>m \<in> set members. answers cx idx (committed_family members) name m = Inr True)"
  using family_explained [OF assms] unfolding explained_def by blast

theorem family_is_explained_witness:
  "\<exists>members name. family_row \<in> set members \<and>
    answers toy_ctx [(u ''a'', family_entry)] (committed_family members) name family_row = Inr True"
proof -
  obtain ns where "family_coherence_failures toy_ctx [(u ''a'', family_entry)] [family_row] = Inr (ns, [])"
    using family_coherent by blast
  from family_is_explained [OF this list.set_intros(1) family_row_kinds(1) family_of_rows(1)]
  show ?thesis by (simp only: u_eq_Nil list.distinct not_False_eq_True simp_thms) blast
qed

text \<open>C15. A manifest without a closure fault names every file of its vector directory and has as many rows
  as the directory has files; each scored row names a file of that directory that exists, and the
  published count of each scored kind is the number of its rows.\<close>

theorem closed_manifest_names_every_file:
  assumes "manifest_index (JObj m) = Inr idx" and "manifest_closure fs m idx = Inr ([], unlisted)"
  shows "\<exists>flat counts. flat_layout idx = Inr flat \<and> dget m (u ''counts'') = JObj counts \<and>
    (\<forall>vid \<in> set (vector_files_in fs flat). has_key idx vid) \<and>
    length (vector_files_in fs flat) = length idx \<and>
    (\<forall>(vid, e) \<in> set idx. replayed (kind_of e) \<longrightarrow>
      (\<exists>f. member e ''file'' = JStr f \<and> before 47 f = flat \<and> fs_isfile fs f)) \<and>
    (\<forall>(kind, ids) \<in> set (manifest_kinds idx). replayed kind \<longrightarrow>
      py_eq (dget counts kind) (JInt (int (length ids))))"
  using closed_manifest_files [OF assms] .

theorem closed_manifest_names_every_file_witness:
  "\<exists>flat. flat_layout [(u ''a'', toy_entry)] = Inr flat \<and> length (vector_files_in toy_fs flat) = 1"
  using closed_manifest_names_every_file [OF toy_index toy_closure] by auto



section \<open>What the runner does not report\<close>

text \<open>An accept vector whose verdict moves with the key policy fails, with every one of its gate columns
  at PASS.\<close>

theorem key_dependence_is_not_in_columns:
  assumes "evaluate_vector_detailed cx (u ''accept'') entry obs sc = Inr ev"
    and "expected_of entry = Inr expected" and "declared_exclusion expected = None"
    and "ob_verdict obs = js ''valid''" and "\<not> key_independent obs"
    and "dget expected (u ''result'') = JNull \<or> py_eq (ob_result obs) (dget expected (u ''result''))"
    and "column_answered obs (dget expected (u ''tierWithPinnedKey'')) ''tiers_with_key'' (ob_tiers obs)"
    and "column_answered obs (dget expected (u ''tierWithoutKey'')) ''tiers_without_key'' (ob_tiers_without obs)"
    and "tiers_keep_result obs"
  shows "\<not> ev_ok ev \<and> ev_gates ev Gate0_Col = PASS \<and> ev_gates ev Gate1_Col = PASS \<and>
    ev_gates ev Recompute_Col = PASS \<and> ev_gates ev Tier_Col = PASS"
  using accept_columns [OF assms(1-4,6-9)] accept_passes_iff [OF assms(1-3)] assms(5) by simp

theorem key_dependence_is_not_in_columns_witness:
  "\<exists>ev. evaluate_vector_detailed toy_ctx (u ''accept'') JNull moved_observed None = Inr ev \<and>
    \<not> ev_ok ev \<and> ev_gates ev Gate0_Col = PASS"
proof -
  obtain ev where ev: "evaluate_vector_detailed toy_ctx (u ''accept'') JNull moved_observed None = Inr ev"
    using accept_evaluations(2) by blast
  from key_dependence_is_not_in_columns [OF ev plain_expected] ev show ?thesis
    by (simp add: moved_fields key_independent_def column_answered_def tiers_keep_result_def)
qed

text \<open>A member of an indeterminate family that could not be read makes the run raise a \<open>KeyError\<close>.\<close>

theorem unreadable_family_member_raises:
  assumes "family_coherence_failures cx idx rows = Inr (ns, fs)"
    and "r \<in> set rows" and "row_detail r = None" and "row_kind r = u ''indeterminate''"
    and "family_of cx idx r = Inr family" and "family \<noteq> []"
  shows "apply_coherence fs rows = Inl KeyError"
  using unreadable_member_raises [OF assms] .

theorem unreadable_family_member_raises_witness: "\<exists>fs. apply_coherence fs [broken_row] = Inl KeyError"
proof -
  obtain ns fs where "family_coherence_failures toy_ctx [(u ''a'', family_entry)] [broken_row] = Inr (ns, fs)"
    using family_broken by blast
  from unreadable_family_member_raises [OF this _ _ _ family_of_rows(2)] show ?thesis
    by (auto simp: broken_row_def family_row_def)
qed

text \<open>The single-fault scan raises on a statement whose corpus manifest has a surrogate in a member name.\<close>

theorem surrogate_in_manifest_raises:
  assumes "surrogate c"
  shows "second_fault_absence cx (JObj [(u ''predicate'', JObj [(u ''observationEnvironment'',
      JObj [(u ''corpus'', JObj [(u ''manifest'', JObj [([c], JNull)])])])])]) [] = Inl UnicodeEncodeError"
  using surrogate_manifest_raises [OF assms] .

theorem surrogate_in_manifest_raises_witness:
  "second_fault_absence toy_ctx (JObj [(u ''predicate'', JObj [(u ''observationEnvironment'',
      JObj [(u ''corpus'', JObj [(u ''manifest'', JObj [([55296], JNull)])])])])]) [] = Inl UnicodeEncodeError"
  using surrogate_in_manifest_raises [of 55296] by (simp add: surrogate_def)

end
